(* ===== verification/Prelude.thy ===== *)
theory Prelude
  imports Main "HOL-Library.Sublist" "HOL-Library.AList" "HOL-Library.Char_ord"
    "HOL-Library.List_Lexorder" "HOL-Library.Code_Target_Nat"
begin

text \<open>
  Shared vocabulary of the development: byte strings, string-keyed maps, the Go error
  values the code distinguishes, and the generic list and map lemmas the components use.

  A Go \<open>string\<close> and a Go \<open>[]byte\<close> are both sequences of bytes; HOL's \<open>string\<close> (a list
  of 8-bit characters) models them. A Go map from strings to strings is an association
  list read with \<open>map_of\<close>: the code ranges over such maps, so the keys must be listable.
\<close>

named_theorems go_simps \<open>unfolding rules for the Go library operations\<close>
named_theorems confine \<open>operations that leave everything outside the rootfs alone\<close>

type_synonym bytes = string
type_synonym strmap = "(string \<times> string) list"

section \<open>Errors\<close>

text \<open>
  Failures the kernel may report on top of what the shape of the tree decides. They are a
  type of their own, so a fault can never claim that an existing file is missing.
\<close>

datatype fault = EACCES | EPERM | EROFS | ENOSPC | EIO | ENAMETOOLONG

datatype errno = ENOENT | EEXIST | ENOTDIR | EISDIR | ELOOP | Fault fault

text \<open>
  A Go error: an error returned by a system call, a message of the program, or a message
  that wraps another error (\<open>fmt.Errorf\<close> with \<open>%w\<close>). Messages are kept without the
  values interpolated into them.
\<close>

datatype goerr = Sys errno | Msg string | Wrapped string goerr

fun is_not_exist :: "goerr \<Rightarrow> bool" where
  "is_not_exist (Sys e) = (e = ENOENT)"
| "is_not_exist (Msg _) = False"
| "is_not_exist (Wrapped _ e) = is_not_exist e"

fun is_permission :: "goerr \<Rightarrow> bool" where
  "is_permission (Sys e) = (e = Fault EACCES \<or> e = Fault EPERM)"
| "is_permission (Msg _) = False"
| "is_permission (Wrapped _ e) = is_permission e"

fun err_text :: "goerr \<Rightarrow> string" where
  "err_text (Sys _) = ''system call failed''"
| "err_text (Msg m) = m"
| "err_text (Wrapped m e) = m @ '': '' @ err_text e"

type_synonym 'a res = "goerr + 'a"

lemma sum_case_Inr_iff:
  "(case r of Inl e \<Rightarrow> Inl (f e) | Inr x \<Rightarrow> g x) = Inr y \<longleftrightarrow> (\<exists>x. r = Inr x \<and> g x = Inr y)"
  by (cases r) auto

section \<open>Lists and association lists\<close>

lemma butlast_snoc_cases: "xs = [] \<or> (\<exists>ys y. xs = ys @ [y])"
  by (cases xs rule: rev_cases) auto

lemma prefix_appendD: "prefix (xs @ ys) zs \<Longrightarrow> prefix xs zs"
  by (auto simp: prefix_def)

lemma prefix_Cons_nonempty: "prefix xs (y # ys) \<Longrightarrow> xs \<noteq> [] \<Longrightarrow> \<exists>zs. xs = y # zs \<and> prefix zs ys"
  by (cases xs) auto

lemma map_of_update [simp]: "map_of (AList.update k v m) = (map_of m)(k \<mapsto> v)"
  by (rule update_conv')

lemma map_of_delete [simp]: "map_of (AList.delete k m) = (map_of m)(k := None)"
  by (rule delete_conv')

lemma dropWhile_eq_self: "(xs = [] \<or> \<not> P (hd xs)) \<Longrightarrow> dropWhile P xs = xs"
  by (cases xs) auto

end
