(* ===== verification/Go_Strings.thy ===== *)
theory Go_Strings
  imports Prelude
begin

text \<open>
  The operations of Go's \<open>strings\<close> and \<open>bytes\<close> packages that the code calls, on byte
  strings. \<open>trim_space\<close> knows the UTF-8 encodings of all Unicode white space;
  \<open>to_lower\<close> and \<open>equal_fold\<close> fold the ASCII letters and keep every other byte.
\<close>

section \<open>Prefixes, splitting and joining\<close>

definition has_prefix :: "string \<Rightarrow> string \<Rightarrow> bool" where
  "has_prefix s p = (take (length p) s = p)"

definition trim_prefix :: "string \<Rightarrow> string \<Rightarrow> string" where
  "trim_prefix s p = (if has_prefix s p then drop (length p) s else s)"

definition trim_suffix :: "string \<Rightarrow> string \<Rightarrow> string" where
  "trim_suffix s p = (if has_prefix (rev s) (rev p) then take (length s - length p) s else s)"

text \<open>\<open>strings.Split(s, sep)\<close> for a one-character separator: never empty.\<close>

fun split_on :: "char \<Rightarrow> string \<Rightarrow> string list" where
  "split_on d [] = [[]]"
| "split_on d (c # cs) =
     (if c = d then [] # split_on d cs
      else (case split_on d cs of [] \<Rightarrow> [[c]] | w # ws \<Rightarrow> (c # w) # ws))"

fun join_with :: "string \<Rightarrow> string list \<Rightarrow> string" where
  "join_with d [] = []"
| "join_with d [w] = w"
| "join_with d (w # ws) = w @ d @ join_with d ws"

text \<open>\<open>strings.Cut(s, sep)\<close> for a one-character separator.\<close>

fun cut :: "char \<Rightarrow> string \<Rightarrow> (string \<times> string) option" where
  "cut d [] = None"
| "cut d (c # cs) =
     (if c = d then Some ([], cs)
      else map_option (\<lambda>(k, v). (c # k, v)) (cut d cs))"

section \<open>White space and case\<close>

text \<open>The UTF-8 encodings of the code points with the Unicode property White_Space.\<close>

definition space_seqs :: "string list" where
  "space_seqs =
     map (\<lambda>n. [char_of (n :: nat)]) [9, 10, 11, 12, 13, 32] @
     map (map (char_of :: nat \<Rightarrow> char))
      ([[0xC2, 0x85], [0xC2, 0xA0], [0xE1, 0x9A, 0x80]] @
       map (\<lambda>n. [0xE2, 0x80, n]) [0x80 ..< 0x8B] @
       [[0xE2, 0x80, 0xA8], [0xE2, 0x80, 0xA9], [0xE2, 0x80, 0xAF], [0xE2, 0x81, 0x9F],
        [0xE3, 0x80, 0x80]])"

text \<open>The first of the sequences that starts the string, cut off; \<open>None\<close> if none does.\<close>

definition strip_one :: "string list \<Rightarrow> string \<Rightarrow> string option" where
  "strip_one ws s = (case find (\<lambda>w. has_prefix s w) ws of
     None \<Rightarrow> None | Some w \<Rightarrow> Some (drop (length w) s))"

lemma strip_one_length: "[] \<notin> set ws \<Longrightarrow> strip_one ws s = Some t \<Longrightarrow> length t < length s"
proof -
  assume a: "[] \<notin> set ws" "strip_one ws s = Some t"
  then obtain w where w: "find (\<lambda>w. has_prefix s w) ws = Some w" "t = drop (length w) s"
    by (auto simp: strip_one_def split: option.splits)
  then have "w \<in> set ws" "take (length w) s = w"
    by (auto simp: find_Some_iff has_prefix_def)
  with a(1) have "w \<noteq> []" "length w \<le> length s"
    by (auto simp: min_def dest!: arg_cong [where f = length] split: if_splits)
  then have "0 < length w" by simp
  moreover from w(2) have "length t = length s - length w" by simp
  ultimately show ?thesis using \<open>length w \<le> length s\<close> by linarith
qed

lemma strip_one_drop: "strip_one ws s = Some t \<Longrightarrow> \<exists>n. t = drop n s"
  by (auto simp: strip_one_def split: option.splits)

text \<open>Whether a string starts with a space is decided by the bytes it starts with.\<close>

lemma strip_one_append_None: "strip_one ws (s @ t) = None \<Longrightarrow> strip_one ws s = None"
  by (auto simp: strip_one_def find_None_iff has_prefix_def split: option.splits)

lemma space_seqs_nonempty: "[] \<notin> set space_seqs"
  by (simp add: space_seqs_def)

lemma rev_space_seqs_nonempty: "[] \<notin> set (map rev space_seqs)"
  using space_seqs_nonempty by auto

text \<open>\<open>TrimLeftFunc\<close> over a set of encodings: cut spaces off while there are any.\<close>

function trim_left_seqs :: "string list \<Rightarrow> string \<Rightarrow> string" where
  "trim_left_seqs ws s =
     (if [] \<in> set ws then s
      else (case strip_one ws s of None \<Rightarrow> s | Some t \<Rightarrow> trim_left_seqs ws t))"
  by pat_completeness auto
termination
  by (relation "measure (\<lambda>(ws, s). length s)") (auto dest: strip_one_length)

declare trim_left_seqs.simps [simp del]

definition trim_right_space :: "string \<Rightarrow> string" where
  "trim_right_space s = rev (trim_left_seqs (map rev space_seqs) (rev s))"

text \<open>\<open>strings.TrimSpace\<close> and \<open>bytes.TrimSpace\<close>.\<close>

definition trim_space :: "string \<Rightarrow> string" where
  "trim_space s = trim_right_space (trim_left_seqs space_seqs s)"

text \<open>\<open>bytes.TrimRight(b, "\\n")\<close>.\<close>

definition trim_right_nl :: "bytes \<Rightarrow> bytes" where
  "trim_right_nl b = rev (dropWhile (\<lambda>c. c = CHR 0x0A) (rev b))"

text \<open>\<open>strings.Fields\<close>: the maximal runs of bytes that are not part of a space.\<close>

function fields_from :: "string \<Rightarrow> string \<Rightarrow> string list" where
  "fields_from acc [] = (if acc = [] then [] else [rev acc])"
| "fields_from acc (c # cs) =
     (case strip_one space_seqs (c # cs) of
        None \<Rightarrow> fields_from (c # acc) cs
      | Some t \<Rightarrow> (if acc = [] then fields_from [] t else rev acc # fields_from [] t))"
  by pat_completeness auto
termination
  by (relation "measure (\<lambda>(acc, s). length s)")
    (auto dest!: strip_one_length [OF space_seqs_nonempty])

definition fields :: "string \<Rightarrow> string list" where
  "fields s = fields_from [] s"

definition lower_char :: "char \<Rightarrow> char" where
  "lower_char c = (let n = of_char c :: nat in if 65 \<le> n \<and> n \<le> 90 then char_of (n + 32) else c)"

definition to_lower :: "string \<Rightarrow> string" where
  "to_lower s = map lower_char s"

definition equal_fold :: "string \<Rightarrow> string \<Rightarrow> bool" where
  "equal_fold s t = (to_lower s = to_lower t)"

section \<open>Decimal numerals\<close>

text \<open>\<open>%d\<close> of a non-negative integer.\<close>

fun show_nat :: "nat \<Rightarrow> string" where
  "show_nat n = (if n < 10 then [char_of (48 + n)]
     else show_nat (n div 10) @ [char_of (48 + n mod 10)])"

declare show_nat.simps [simp del]

definition read_nat :: "string \<Rightarrow> nat" where
  "read_nat s = foldl (\<lambda>a c. 10 * a + (of_char c - 48)) 0 s"

lemma read_show_nat: "read_nat (show_nat n) = n"
proof (induction n rule: show_nat.induct)
  case (1 n)
  show ?case
  proof (cases "n < 10")
    case True
    then show ?thesis by (simp add: show_nat.simps [of n] read_nat_def of_char_of)
  next
    case False
    have "read_nat (show_nat n) = 10 * read_nat (show_nat (n div 10)) + n mod 10"
      using False by (simp add: show_nat.simps [of n] read_nat_def of_char_of)
    with "1.IH" [OF False] show ?thesis by simp
  qed
qed

lemma show_nat_inject [simp]: "show_nat m = show_nat n \<longleftrightarrow> m = n"
  by (metis read_show_nat)

lemma show_nat_digits: "c \<in> set (show_nat n) \<Longrightarrow> 48 \<le> (of_char c :: nat) \<and> (of_char c :: nat) < 58"
proof (induction n rule: show_nat.induct)
  case (1 n)
  show ?case
  proof (cases "n < 10")
    case True
    with "1.prems" show ?thesis by (simp add: show_nat.simps [of n] of_char_of)
  next
    case False
    with "1.prems" consider "c \<in> set (show_nat (n div 10))" | "c = char_of (48 + n mod 10)"
      by (auto simp: show_nat.simps [of n])
    then show ?thesis
    proof cases
      case 1
      then show ?thesis using "1.IH" [OF False] by blast
    next
      case 2
      then show ?thesis by (simp add: of_char_of)
    qed
  qed
qed

section \<open>Laws\<close>

lemma has_prefix_prefix: "has_prefix s p \<longleftrightarrow> prefix p s"
  by (auto simp: has_prefix_def prefix_def) (metis append_take_drop_id)

lemma has_prefix_append [simp]: "has_prefix (p @ s) p"
  by (simp add: has_prefix_def)

lemma trim_prefix_append [simp]: "trim_prefix (p @ s) p = s"
  by (simp add: trim_prefix_def)

lemma split_on_nonempty [simp]: "split_on d s \<noteq> []"
  by (induction d s rule: split_on.induct) (auto split: list.splits)

lemma split_on_no_sep: "d \<notin> set s \<Longrightarrow> split_on d s = [s]"
  by (induction s) auto

lemma split_on_parts: "w \<in> set (split_on d s) \<Longrightarrow> d \<notin> set w"
proof (induction d s arbitrary: w rule: split_on.induct)
  case (2 d c cs)
  then show ?case
    by (cases "split_on d cs") (auto split: if_splits)
qed simp

lemma split_on_append:
  "d \<notin> set w \<Longrightarrow> split_on d (w @ d # s) = w # split_on d s"
  by (induction w) auto

lemma split_on_join:
  "ws \<noteq> [] \<Longrightarrow> \<forall>w \<in> set ws. d \<notin> set w \<Longrightarrow> split_on d (join_with [d] ws) = ws"
  by (induction "[d]" ws rule: join_with.induct) (auto simp: split_on_no_sep split_on_append)

lemma join_split: "join_with [d] (split_on d s) = s"
proof (induction d s rule: split_on.induct)
  case (2 d c cs)
  then show ?case
    by (cases "split_on d cs" rule: list.exhaust; cases "tl (split_on d cs)") auto
qed simp

lemma join_with_eq_Nil: "join_with d ws = [] \<Longrightarrow> \<forall>w \<in> set ws. w \<noteq> [] \<Longrightarrow> ws = []"
  by (induction d ws rule: join_with.induct) auto

lemma cut_Some: "cut d s = Some (k, v) \<longleftrightarrow> s = k @ d # v \<and> d \<notin> set k"
  by (induction d s arbitrary: k v rule: cut.induct) (auto simp: Cons_eq_append_conv)

lemma cut_None: "cut d s = None \<longleftrightarrow> d \<notin> set s"
  by (induction d s rule: cut.induct) auto

text \<open>A trimmed string starts and ends with no space, so trimming again changes nothing.\<close>

lemma trim_left_stops: "[] \<notin> set ws \<Longrightarrow> strip_one ws (trim_left_seqs ws s) = None"
proof (induction ws s rule: trim_left_seqs.induct)
  case (1 ws s)
  then show ?case
    by (cases "strip_one ws s") (simp_all add: trim_left_seqs.simps [of ws s])
qed

lemma trim_left_fixed: "strip_one ws s = None \<Longrightarrow> trim_left_seqs ws s = s"
  by (simp add: trim_left_seqs.simps)

lemma trim_left_drop: "\<exists>n. trim_left_seqs ws s = drop n s"
proof (induction ws s rule: trim_left_seqs.induct)
  case (1 ws s)
  show ?case
  proof (cases "[] \<in> set ws \<or> strip_one ws s = None")
    case True
    then have "trim_left_seqs ws s = drop 0 s" by (auto simp: trim_left_seqs.simps [of ws s])
    then show ?thesis by blast
  next
    case False
    then obtain t where t: "strip_one ws s = Some t" "[] \<notin> set ws" by auto
    then obtain n m where "trim_left_seqs ws t = drop n t" "t = drop m s"
      using "1.IH" strip_one_drop by blast
    with t have "trim_left_seqs ws s = drop (n + m) s"
      by (simp add: trim_left_seqs.simps [of ws s])
    then show ?thesis by blast
  qed
qed

lemma trim_right_take: "\<exists>n. trim_right_space s = take n s"
proof -
  obtain n where "trim_left_seqs (map rev space_seqs) (rev s) = drop n (rev s)"
    using trim_left_drop by blast
  then show ?thesis by (auto simp: trim_right_space_def drop_rev)
qed

lemma trim_right_stops: "strip_one (map rev space_seqs) (rev (trim_right_space s)) = None"
  using trim_left_stops [OF rev_space_seqs_nonempty] by (simp add: trim_right_space_def)

lemma trim_space_start: "strip_one space_seqs (trim_space s) = None"
proof -
  obtain n where n: "trim_space s = take n (trim_left_seqs space_seqs s)"
    unfolding trim_space_def using trim_right_take by blast
  have "strip_one space_seqs (take n (trim_left_seqs space_seqs s) @
      drop n (trim_left_seqs space_seqs s)) = None"
    using trim_left_stops [OF space_seqs_nonempty] by simp
  then show ?thesis unfolding n by (rule strip_one_append_None)
qed

lemma trim_space_fixed:
  assumes "strip_one space_seqs s = None" and "strip_one (map rev space_seqs) (rev s) = None"
  shows "trim_space s = s"
  using assms by (simp add: trim_space_def trim_right_space_def trim_left_fixed)

lemma trim_space_idem [simp]: "trim_space (trim_space s) = trim_space s"
  by (rule trim_space_fixed [OF trim_space_start]) (simp add: trim_space_def trim_right_stops)

lemma trim_space_Nil [simp]: "trim_space [] = []"
  by (rule trim_space_fixed) (simp_all add: strip_one_def find_None_iff has_prefix_def space_seqs_def)

lemma lower_char_idem [simp]: "lower_char (lower_char c) = lower_char c"
  by (auto simp: lower_char_def Let_def of_char_of)

lemma to_lower_idem [simp]: "to_lower (to_lower s) = to_lower s"
  by (simp add: to_lower_def)

lemma trim_right_nl_append:
  "t \<noteq> [] \<Longrightarrow> last t \<noteq> CHR 0x0A \<Longrightarrow> trim_right_nl (s @ t @ [CHR 0x0A]) = s @ t"
  by (cases t rule: rev_cases) (auto simp: trim_right_nl_def)

lemma trim_right_nl_prefix: "\<exists>n. s = trim_right_nl s @ replicate n (CHR 0x0A)"
proof -
  have "rev s = takeWhile (\<lambda>c. c = CHR 0x0A) (rev s) @ dropWhile (\<lambda>c. c = CHR 0x0A) (rev s)"
    by simp
  moreover have "takeWhile (\<lambda>c. c = CHR 0x0A) (rev s) =
      replicate (length (takeWhile (\<lambda>c. c = CHR 0x0A) (rev s))) (CHR 0x0A)"
    by (rule replicate_eqI [symmetric, THEN sym]) (auto dest: set_takeWhileD)
  ultimately have "s = trim_right_nl s @
      rev (replicate (length (takeWhile (\<lambda>c. c = CHR 0x0A) (rev s))) (CHR 0x0A))"
    unfolding trim_right_nl_def by (metis rev_append rev_rev_ident)
  then show ?thesis by (metis rev_replicate)
qed

end
