(* ===== verification/Go_Paths.thy ===== *)
theory Go_Paths
  imports Go_Strings
begin

text \<open>
  Go's \<open>path\<close> package, which is also what \<open>path/filepath\<close> does on Linux: \<open>Clean\<close>,
  \<open>Join\<close>, \<open>Dir\<close>, \<open>Base\<close>, \<open>IsAbs\<close>, and the reading of a path as a list of components.
  The container paths the hook handles are rebuilt with these operations at every step,
  so their laws are what keeps a path inside the rootfs.
\<close>

section \<open>Components\<close>

definition slash :: char where
  "slash = CHR ''/''"

definition dot :: string where "dot = ''.''"
definition dotdot :: string where "dotdot = ''..''"

text \<open>The non-empty components of a path, in order; what the kernel walks over.\<close>

definition comps :: "string \<Rightarrow> string list" where
  "comps s = filter (\<lambda>c. c \<noteq> []) (split_on slash s)"

definition is_abs :: "string \<Rightarrow> bool" where
  "is_abs s = (s \<noteq> [] \<and> hd s = slash)"

text \<open>A name a directory entry can have.\<close>

definition valid_name :: "string \<Rightarrow> bool" where
  "valid_name n = (n \<noteq> [] \<and> n \<noteq> dot \<and> n \<noteq> dotdot \<and> slash \<notin> set n)"

abbreviation valid_names :: "string list \<Rightarrow> bool" where
  "valid_names ns \<equiv> list_all valid_name ns"

section \<open>Clean, Join, Dir, Base\<close>

text \<open>
  \<open>path.Clean\<close>: drop empty and \<open>.\<close> components, let \<open>..\<close> cancel the component before it,
  drop \<open>..\<close> at the root. The accumulator holds the components kept so far, last first.
\<close>

fun clean_comps :: "bool \<Rightarrow> string list \<Rightarrow> string list \<Rightarrow> string list" where
  "clean_comps rooted acc [] = rev acc"
| "clean_comps rooted acc (c # cs) =
     (if c = [] \<or> c = dot then clean_comps rooted acc cs
      else if c = dotdot then
        (if acc \<noteq> [] \<and> hd acc \<noteq> dotdot then clean_comps rooted (tl acc) cs
         else if rooted then clean_comps rooted acc cs
         else clean_comps rooted (dotdot # acc) cs)
      else clean_comps rooted (c # acc) cs)"

definition path_clean :: "string \<Rightarrow> string" where
  "path_clean s =
     (let body = join_with [slash] (clean_comps (is_abs s) [] (split_on slash s))
      in if is_abs s then slash # body else if body = [] then dot else body)"

text \<open>\<open>path.Join\<close> ignores leading empty elements and cleans the rest.\<close>

definition path_join :: "string list \<Rightarrow> string" where
  "path_join es = (let es' = dropWhile (\<lambda>e. e = []) es
     in if es' = [] then [] else path_clean (join_with [slash] es'))"

text \<open>\<open>path.Dir\<close>: everything up to the last slash, cleaned.\<close>

definition path_dir :: "string \<Rightarrow> string" where
  "path_dir s = path_clean (rev (dropWhile (\<lambda>c. c \<noteq> slash) (rev s)))"

definition path_base :: "string \<Rightarrow> string" where
  "path_base s =
     (if s = [] then dot
      else (let t = rev (dropWhile (\<lambda>c. c = slash) (rev s))
            in if t = [] then [slash] else rev (takeWhile (\<lambda>c. c \<noteq> slash) (rev t))))"

section \<open>Laws\<close>

lemma valid_name_simps:
  "valid_name n \<Longrightarrow> n \<noteq> []" "valid_name n \<Longrightarrow> n \<noteq> dot" "valid_name n \<Longrightarrow> n \<noteq> dotdot"
  "valid_name n \<Longrightarrow> slash \<notin> set n"
  by (simp_all add: valid_name_def)

lemma dot_simps [simp]: "dot \<noteq> []" "dotdot \<noteq> []" "dot \<noteq> dotdot" "dotdot \<noteq> dot"
  "slash \<notin> set dot" "slash \<notin> set dotdot"
  by (simp_all add: dot_def dotdot_def slash_def)

lemma not_valid_dot [simp]: "\<not> valid_name []" "\<not> valid_name dot" "\<not> valid_name dotdot"
  by (simp_all add: valid_name_def)

lemma clean_comps_valid: "valid_names ns \<Longrightarrow> clean_comps rooted acc ns = rev acc @ ns"
  by (induction ns arbitrary: acc) (auto simp: valid_name_simps)

lemma clean_comps_append_valid:
  "valid_names ns \<Longrightarrow> clean_comps rooted acc (ns @ cs) = clean_comps rooted (rev ns @ acc) cs"
  by (induction ns arbitrary: acc) (auto simp: valid_name_simps)

text \<open>The components of a rooted clean path are names: nothing in them climbs.\<close>

lemma clean_comps_rooted_valid:
  "\<forall>c \<in> set cs. slash \<notin> set c \<Longrightarrow> valid_names acc \<Longrightarrow> valid_names (clean_comps True acc cs)"
proof (induction "True" acc cs rule: clean_comps.induct)
  case (1 acc)
  then show ?case by (simp add: list_all_iff)
next
  case (2 acc c cs)
  then show ?case by (cases acc) (auto simp: valid_name_def)
qed

lemma clean_comps_filter:
  "clean_comps rooted acc (filter (\<lambda>c. c \<noteq> []) cs) = clean_comps rooted acc cs"
  by (induction rooted acc cs rule: clean_comps.induct) auto

lemma comps_parts: "c \<in> set (comps s) \<Longrightarrow> c \<noteq> [] \<and> slash \<notin> set c"
  by (auto simp: comps_def dest: split_on_parts)

lemma comps_Nil [simp]: "comps [] = []"
  by (simp add: comps_def)

lemma comps_slash [simp]: "comps (slash # s) = comps s"
  by (simp add: comps_def)

lemma comps_join_valid:
  assumes "valid_names ns"
  shows "comps (join_with [slash] ns) = ns"
proof (cases "ns = []")
  case False
  have "split_on slash (join_with [slash] ns) = ns"
    using assms by (intro split_on_join [OF False]) (auto simp: list_all_iff valid_name_def)
  then show ?thesis
    using assms by (auto simp: comps_def list_all_iff valid_name_def intro: filter_True)
qed simp

lemma comps_append: "comps (s @ slash # t) = comps s @ comps t"
proof -
  have "split_on slash (s @ slash # t) = split_on slash s @ split_on slash t" for s
  proof (induction s)
    case (Cons c s)
    then show ?case by (cases "split_on slash s") auto
  qed simp
  then show ?thesis by (simp add: comps_def)
qed

lemma is_abs_slash [simp]: "is_abs (slash # s)"
  by (simp add: is_abs_def)

lemma is_abs_append [simp]: "is_abs s \<Longrightarrow> is_abs (s @ t)"
  by (cases s) (auto simp: is_abs_def)

lemma path_clean_abs: "is_abs s \<Longrightarrow> path_clean s = slash # join_with [slash] (clean_comps True [] (comps s))"
  by (simp add: path_clean_def comps_def clean_comps_filter)

lemma comps_path_clean_abs:
  "is_abs s \<Longrightarrow> comps (path_clean s) = clean_comps True [] (comps s)"
  using comps_parts by (auto simp: path_clean_abs intro!: comps_join_valid clean_comps_rooted_valid)

lemma is_abs_path_clean [simp]: "is_abs s \<Longrightarrow> is_abs (path_clean s)"
  by (simp add: path_clean_abs)

lemma comps_path_clean_valid: "is_abs s \<Longrightarrow> valid_names (comps (path_clean s))"
  using comps_parts by (auto simp: comps_path_clean_abs intro!: clean_comps_rooted_valid)

text \<open>The path with given names as components, written from the root.\<close>

definition abs_path :: "string list \<Rightarrow> string" where
  "abs_path ns = slash # join_with [slash] ns"

lemma is_abs_abs_path [simp]: "is_abs (abs_path ns)"
  by (simp add: abs_path_def)

lemma comps_abs_path [simp]: "valid_names ns \<Longrightarrow> comps (abs_path ns) = ns"
  by (simp add: abs_path_def comps_join_valid)

lemma abs_path_inj: "valid_names xs \<Longrightarrow> valid_names ys \<Longrightarrow> abs_path xs = abs_path ys \<longleftrightarrow> xs = ys"
  by (metis comps_abs_path)

lemma path_clean_abs_path: "is_abs s \<Longrightarrow> path_clean s = abs_path (clean_comps True [] (comps s))"
  by (simp add: path_clean_abs abs_path_def)

lemma path_clean_abs_path_valid [simp]: "valid_names ns \<Longrightarrow> path_clean (abs_path ns) = abs_path ns"
  by (simp add: path_clean_abs_path clean_comps_valid)

lemma join_with_append1: "xs \<noteq> [] \<Longrightarrow> join_with d (xs @ [x]) = join_with d xs @ d @ x"
  by (induction d xs rule: join_with.induct) auto

text \<open>
  Joining a host directory with a relative path of names: the directory's own components
  first, then the names. This is how every rootfs path is built.
\<close>

lemma path_join_two:
  assumes "is_abs r" and "valid_names ns"
  shows "path_join [r, join_with [slash] ns] = abs_path (clean_comps True [] (comps r) @ ns)"
proof -
  have r: "r \<noteq> []" using assms(1) by (auto simp: is_abs_def)
  have clean: "clean_comps True [] (comps r @ ns) = clean_comps True [] (comps r) @ ns"
  proof -
    have "clean_comps True acc (cs @ ns) = clean_comps True acc cs @ ns" for acc cs
      using assms(2)
      by (induction "True" acc cs rule: clean_comps.induct) (auto simp: clean_comps_valid)
    then show ?thesis .
  qed
  have "path_join [r, join_with [slash] ns] = path_clean (r @ slash # join_with [slash] ns)"
    using r by (simp add: path_join_def)
  also have "\<dots> = abs_path (clean_comps True [] (comps r @ ns))"
    using assms by (simp add: path_clean_abs_path comps_append comps_join_valid)
  finally show ?thesis by (simp add: clean)
qed

lemma rev_dropWhile_slash:
  "slash \<notin> set n \<Longrightarrow> rev (dropWhile (\<lambda>c. c \<noteq> slash) (rev (s @ slash # n))) = s @ [slash]"
  by (simp, subst dropWhile_append2) auto

lemma abs_path_snoc: "ns \<noteq> [] \<Longrightarrow> abs_path (ns @ [n]) = abs_path ns @ slash # n"
  by (simp add: abs_path_def join_with_append1)

lemma abs_path_single: "abs_path [n] = slash # n"
  by (simp add: abs_path_def)

lemma path_dir_abs_path:
  assumes "valid_names (ns @ [n])"
  shows "path_dir (abs_path (ns @ [n])) = abs_path ns"
proof -
  from assms have n: "slash \<notin> set n" and ns: "valid_names ns"
    by (auto simp: valid_name_def)
  show ?thesis
  proof (cases "ns = []")
    case True
    with n have "path_dir (abs_path (ns @ [n])) = path_clean ([] @ [slash])"
      unfolding path_dir_def True append_Nil abs_path_single
      using rev_dropWhile_slash [of n "[]"] by simp
    then show ?thesis by (simp add: True path_clean_abs_path)
  next
    case False
    with n have "path_dir (abs_path (ns @ [n])) = path_clean (abs_path ns @ slash # [])"
      unfolding path_dir_def abs_path_snoc [OF False] rev_dropWhile_slash [OF n] by simp
    also have "\<dots> = abs_path (clean_comps True [] (comps (abs_path ns) @ comps []))"
      by (simp add: path_clean_abs_path comps_append del: comps_abs_path comps_Nil)
    finally show ?thesis using ns by (simp add: clean_comps_valid)
  qed
qed

end
