(* ===== verification/Vfs.thy ===== *)
theory Vfs
  imports Go_Paths
begin

text \<open>
  The file system the program runs on: a tree of directories, regular files, symbolic links
  and special files, addressed by canonical host paths, and the system calls of Go's \<open>os\<close>
  package that the code issues. Every call may also fail for a reason the tree does not
  show (permissions, a read-only mount, a full disk): \<open>fs_faults\<close> says which calls on which
  paths do. Every change of the tree is recorded in \<open>fs_trace\<close>, so that the state a crash
  would leave behind after any prefix of the calls can be talked about.
\<close>

section \<open>State\<close>

type_synonym fpath = "string list"

record fmeta =
  fmode :: nat
  fuid :: nat
  fgid :: nat

datatype node = NDir fmeta | NReg bytes fmeta | NLink string | NSpecial fmeta

type_synonym tree = "(fpath \<times> node) list"

datatype syscall = Lstat | Stat | Readlink | OpenRead | Fstat | ReadData | Create | WriteData
  | Chmod | Chown | Fsync | CloseFile | Rename | Remove | RemoveAll | Mkdir | ReadDir

record fs =
  fs_nodes :: tree
  fs_mtimes :: "fpath \<Rightarrow> nat"
  fs_faults :: "syscall \<Rightarrow> fpath \<Rightarrow> fault option"
  fs_short :: nat
  fs_rand :: "nat \<Rightarrow> nat"
  fs_rand_ix :: nat
  fs_clock :: nat
  fs_trace :: "tree list"

definition node_at :: "fs \<Rightarrow> fpath \<Rightarrow> node option" where
  "node_at s p = map_of (fs_nodes s) p"

fun is_dir :: "node option \<Rightarrow> bool" where
  "is_dir (Some (NDir _)) = True"
| "is_dir _ = False"

fun is_link :: "node option \<Rightarrow> bool" where
  "is_link (Some (NLink _)) = True"
| "is_link _ = False"

fun is_regular :: "node option \<Rightarrow> bool" where
  "is_regular (Some (NReg _ _)) = True"
| "is_regular _ = False"

text \<open>\<open>FileMode.Perm\<close>: the nine permission bits.\<close>

definition perm :: "nat \<Rightarrow> nat" where
  "perm m = m mod 512"

fun node_meta :: "node \<Rightarrow> fmeta option" where
  "node_meta (NDir m) = Some m"
| "node_meta (NReg _ m) = Some m"
| "node_meta (NSpecial m) = Some m"
| "node_meta (NLink _) = None"

section \<open>Path walk\<close>

text \<open>
  The kernel's walk from a canonical directory along the remaining components. A symbolic
  link replaces itself by its target's components, from the root when the target is
  absolute and from the link's directory otherwise; at most \<open>hops\<close> links are followed. The
  last component is followed only when \<open>fl\<close> holds. The result is the canonical path of
  the last component, whose parent exists; the component itself may be missing.
\<close>

function walk :: "(fpath \<Rightarrow> node option) \<Rightarrow> bool \<Rightarrow> nat \<Rightarrow> fpath \<Rightarrow> string list \<Rightarrow> errno + fpath" where
  "walk m fl hops cur [] = Inr cur"
| "walk m fl hops cur (c # cs) =
     (if c = [] \<or> c = dot then walk m fl hops cur cs
      else if c = dotdot then walk m fl hops (butlast cur) cs
      else (case m (cur @ [c]) of
          None \<Rightarrow> if cs = [] then Inr (cur @ [c]) else Inl ENOENT
        | Some (NDir _) \<Rightarrow> walk m fl hops (cur @ [c]) cs
        | Some (NLink t) \<Rightarrow>
            if cs = [] \<and> \<not> fl then Inr (cur @ [c])
            else if hops = 0 then Inl ELOOP
            else walk m fl (hops - 1) (if is_abs t then [] else cur) (comps t @ cs)
        | Some _ \<Rightarrow> if cs = [] then Inr (cur @ [c]) else Inl ENOTDIR))"
  by pat_completeness auto
termination
  by (relation "measures [\<lambda>(m, fl, hops, cur, cs). hops, \<lambda>(m, fl, hops, cur, cs). length cs]")
    auto

declare walk.simps [simp del]

definition max_hops :: nat where "max_hops = 40"

definition host_walk :: "fs \<Rightarrow> bool \<Rightarrow> string \<Rightarrow> errno + fpath" where
  "host_walk s fl path = walk (node_at s) fl max_hops [] (comps path)"

section \<open>System calls\<close>

text \<open>An operation reads and changes the file system and returns a value or an error.\<close>

type_synonym 'a io = "fs \<Rightarrow> 'a res \<times> fs"

definition io_return :: "'a \<Rightarrow> 'a io" where
  "io_return x s = (Inr x, s)"

definition io_fail :: "goerr \<Rightarrow> 'a io" where
  "io_fail e s = (Inl e, s)"

definition io_bind :: "'a io \<Rightarrow> ('a \<Rightarrow> 'b io) \<Rightarrow> 'b io" where
  "io_bind m f s = (case m s of (Inl e, s') \<Rightarrow> (Inl e, s') | (Inr x, s') \<Rightarrow> f x s')"

text \<open>Run an operation and look at its error, as \<open>if err := m(); err != nil\<close> does.\<close>

definition io_try :: "'a io \<Rightarrow> 'a res io" where
  "io_try m s = (case m s of (r, s') \<Rightarrow> (Inr r, s'))"

text \<open>Wrap the error of an operation with a message.\<close>

definition io_wrap :: "string \<Rightarrow> 'a io \<Rightarrow> 'a io" where
  "io_wrap msg m s = (case m s of (Inl e, s') \<Rightarrow> (Inl (Wrapped msg e), s') | (Inr x, s') \<Rightarrow> (Inr x, s'))"

text \<open>Read-only operations.\<close>

definition sys_lstat :: "fs \<Rightarrow> string \<Rightarrow> errno + node" where
  "sys_lstat s path = (case fs_faults s Lstat (comps path) of Some f \<Rightarrow> Inl (Fault f) | None \<Rightarrow>
     (case host_walk s False path of Inl e \<Rightarrow> Inl e
      | Inr q \<Rightarrow> (case node_at s q of None \<Rightarrow> Inl ENOENT | Some n \<Rightarrow> Inr n)))"

definition sys_stat :: "fs \<Rightarrow> string \<Rightarrow> errno + node" where
  "sys_stat s path = (case fs_faults s Stat (comps path) of Some f \<Rightarrow> Inl (Fault f) | None \<Rightarrow>
     (case host_walk s True path of Inl e \<Rightarrow> Inl e
      | Inr q \<Rightarrow> (case node_at s q of None \<Rightarrow> Inl ENOENT | Some n \<Rightarrow> Inr n)))"

definition sys_readlink :: "fs \<Rightarrow> string \<Rightarrow> errno + string" where
  "sys_readlink s path = (case fs_faults s Readlink (comps path) of Some f \<Rightarrow> Inl (Fault f) | None \<Rightarrow>
     (case host_walk s False path of Inl e \<Rightarrow> Inl e
      | Inr q \<Rightarrow> (case node_at s q of Some (NLink t) \<Rightarrow> Inr t | None \<Rightarrow> Inl ENOENT
          | _ \<Rightarrow> Inl (Fault EIO))))"

text \<open>\<open>open\<close> for reading; with \<open>O_NOFOLLOW\<close> a link as last component is refused. The handle
  is the canonical path of the file.\<close>

definition sys_open_read :: "fs \<Rightarrow> bool \<Rightarrow> string \<Rightarrow> errno + fpath" where
  "sys_open_read s nofollow path = (case fs_faults s OpenRead (comps path) of
     Some f \<Rightarrow> Inl (Fault f) | None \<Rightarrow>
     (case host_walk s (\<not> nofollow) path of Inl e \<Rightarrow> Inl e
      | Inr q \<Rightarrow> (case node_at s q of None \<Rightarrow> Inl ENOENT
          | Some (NLink _) \<Rightarrow> Inl ELOOP | Some _ \<Rightarrow> Inr q)))"

definition sys_fstat :: "fs \<Rightarrow> fpath \<Rightarrow> errno + node" where
  "sys_fstat s h = (case fs_faults s Fstat h of Some f \<Rightarrow> Inl (Fault f)
     | None \<Rightarrow> (case node_at s h of None \<Rightarrow> Inl ENOENT | Some n \<Rightarrow> Inr n))"

text \<open>Read from an open file, at most \<open>limit\<close> bytes when a limit is given.\<close>

definition sys_read :: "fs \<Rightarrow> fpath \<Rightarrow> nat option \<Rightarrow> errno + bytes" where
  "sys_read s h limit = (case fs_faults s ReadData h of Some f \<Rightarrow> Inl (Fault f)
     | None \<Rightarrow> (case node_at s h of
           Some (NReg b _) \<Rightarrow> Inr (case limit of None \<Rightarrow> b | Some n \<Rightarrow> take n b)
         | Some (NDir _) \<Rightarrow> Inl EISDIR
         | _ \<Rightarrow> Inl (Fault EIO)))"

text \<open>\<open>os.ReadFile\<close>.\<close>

definition os_read_file :: "fs \<Rightarrow> string \<Rightarrow> bytes res" where
  "os_read_file s path = (case sys_open_read s False path of Inl e \<Rightarrow> Inl (Sys e)
     | Inr h \<Rightarrow> (case sys_read s h None of Inl e \<Rightarrow> Inl (Sys e) | Inr b \<Rightarrow> Inr b))"

text \<open>The names in a directory, sorted, as \<open>os.ReadDir\<close> returns them.\<close>

definition dir_names :: "tree \<Rightarrow> fpath \<Rightarrow> string list" where
  "dir_names m p = sort (remdups (map last
     (filter (\<lambda>q. q \<noteq> [] \<and> butlast q = p \<and> map_of m q \<noteq> None) (map fst m))))"

definition sys_read_dir :: "fs \<Rightarrow> string \<Rightarrow> errno + string list" where
  "sys_read_dir s path = (case fs_faults s ReadDir (comps path) of Some f \<Rightarrow> Inl (Fault f) | None \<Rightarrow>
     (case host_walk s True path of Inl e \<Rightarrow> Inl e
      | Inr q \<Rightarrow> (case node_at s q of None \<Rightarrow> Inl ENOENT
          | Some (NDir _) \<Rightarrow> Inr (dir_names (fs_nodes s) q) | Some _ \<Rightarrow> Inl ENOTDIR)))"

text \<open>Changes of the tree.\<close>

definition commit :: "tree \<Rightarrow> fs \<Rightarrow> fs" where
  "commit m s = s\<lparr>fs_nodes := m, fs_trace := m # fs_trace s\<rparr>"

definition put_node :: "fpath \<Rightarrow> node \<Rightarrow> fs \<Rightarrow> fs" where
  "put_node p n s = commit (AList.update p n (fs_nodes s)) s"

definition del_node :: "fpath \<Rightarrow> fs \<Rightarrow> fs" where
  "del_node p s = commit (AList.delete p (fs_nodes s)) s"

text \<open>Adding, removing or renaming an entry sets its directory's modification time.\<close>

definition touch_dir :: "fpath \<Rightarrow> fs \<Rightarrow> fs" where
  "touch_dir p s = s\<lparr>fs_mtimes := (fs_mtimes s)(butlast p := fs_clock s)\<rparr>"

text \<open>A new directory's own modification time.\<close>

definition stamp :: "fpath \<Rightarrow> fs \<Rightarrow> fs" where
  "stamp p s = s\<lparr>fs_mtimes := (fs_mtimes s)(p := fs_clock s)\<rparr>"

text \<open>Create a file that must not exist (\<open>O_CREAT | O_EXCL\<close>); the program runs as uid 0.\<close>

definition sys_create :: "string \<Rightarrow> nat \<Rightarrow> fpath io" where
  "sys_create path mode s = (case fs_faults s Create (comps path) of
     Some f \<Rightarrow> (Inl (Sys (Fault f)), s) | None \<Rightarrow>
     (case host_walk s False path of Inl e \<Rightarrow> (Inl (Sys e), s)
      | Inr q \<Rightarrow> if node_at s q \<noteq> None then (Inl (Sys EEXIST), s)
          else (Inr q, touch_dir q
            (put_node q (NReg [] \<lparr>fmode = mode, fuid = 0, fgid = 0\<rparr>) s))))"

text \<open>Write to an open file. A failing write may leave the first \<open>fs_short\<close> bytes.\<close>

definition sys_write :: "fpath \<Rightarrow> bytes \<Rightarrow> unit io" where
  "sys_write h data s = (case node_at s h of
     Some (NReg b mt) \<Rightarrow> (case fs_faults s WriteData h of
         Some f \<Rightarrow> (Inl (Sys (Fault f)), put_node h (NReg (b @ take (fs_short s) data) mt) s)
       | None \<Rightarrow> (Inr (), put_node h (NReg (b @ data) mt) s))
   | _ \<Rightarrow> (Inl (Sys (Fault EIO)), s))"

definition sys_chmod :: "fpath \<Rightarrow> nat \<Rightarrow> unit io" where
  "sys_chmod h mode s = (case node_at s h of
     Some (NReg b mt) \<Rightarrow> (case fs_faults s Chmod h of
         Some f \<Rightarrow> (Inl (Sys (Fault f)), s)
       | None \<Rightarrow> (Inr (), put_node h (NReg b (mt\<lparr>fmode := mode\<rparr>)) s))
   | _ \<Rightarrow> (Inl (Sys (Fault EIO)), s))"

definition sys_chown :: "fpath \<Rightarrow> nat \<Rightarrow> nat \<Rightarrow> unit io" where
  "sys_chown h u g s = (case node_at s h of
     Some (NReg b mt) \<Rightarrow> (case fs_faults s Chown h of
         Some f \<Rightarrow> (Inl (Sys (Fault f)), s)
       | None \<Rightarrow> (Inr (), put_node h (NReg b (mt\<lparr>fuid := u, fgid := g\<rparr>)) s))
   | _ \<Rightarrow> (Inl (Sys (Fault EIO)), s))"

text \<open>\<open>os.WriteFile\<close>: open, create or truncate, and write; links are followed.\<close>

definition os_write_file :: "string \<Rightarrow> bytes \<Rightarrow> nat \<Rightarrow> unit io" where
  "os_write_file path data mode s = (case fs_faults s Create (comps path) of
     Some f \<Rightarrow> (Inl (Sys (Fault f)), s) | None \<Rightarrow>
     (case host_walk s True path of Inl e \<Rightarrow> (Inl (Sys e), s)
      | Inr q \<Rightarrow> (case node_at s q of
            None \<Rightarrow> sys_write q data (touch_dir q
              (put_node q (NReg [] \<lparr>fmode = mode, fuid = 0, fgid = 0\<rparr>) s))
          | Some (NReg b mt) \<Rightarrow> sys_write q data (put_node q (NReg [] mt) s)
          | Some (NDir _) \<Rightarrow> (Inl (Sys EISDIR), s)
          | Some (NLink _) \<Rightarrow> (Inl (Sys ELOOP), s)
          | Some (NSpecial _) \<Rightarrow> (Inr (), s))))"

text \<open>\<open>fsync\<close> and \<open>close\<close> change nothing the tree shows; they only may fail.\<close>

definition sys_check :: "syscall \<Rightarrow> fpath \<Rightarrow> unit io" where
  "sys_check c h s = (case fs_faults s c h of
     Some f \<Rightarrow> (Inl (Sys (Fault f)), s) | None \<Rightarrow> (Inr (), s))"

text \<open>\<open>os.Rename\<close> of a file: it replaces anything but a directory, links included.\<close>

definition sys_rename :: "string \<Rightarrow> string \<Rightarrow> unit io" where
  "sys_rename old new s = (case fs_faults s Rename (comps new) of
     Some f \<Rightarrow> (Inl (Sys (Fault f)), s) | None \<Rightarrow>
     (case (host_walk s False old, host_walk s False new) of
        (Inr a, Inr b) \<Rightarrow> (case node_at s a of
            None \<Rightarrow> (Inl (Sys ENOENT), s)
          | Some n \<Rightarrow> if is_dir (node_at s b) then (Inl (Sys EEXIST), s)
              else if a = b then (Inr (), s)
              else (Inr (), touch_dir b (touch_dir a
                (commit (AList.delete a (AList.update b n (fs_nodes s))) s))))
      | (Inl e, _) \<Rightarrow> (Inl (Sys e), s) | (_, Inl e) \<Rightarrow> (Inl (Sys e), s)))"

text \<open>\<open>os.Remove\<close>: a file, a link, or an empty directory.\<close>

definition sys_remove :: "string \<Rightarrow> unit io" where
  "sys_remove path s = (case fs_faults s Remove (comps path) of
     Some f \<Rightarrow> (Inl (Sys (Fault f)), s) | None \<Rightarrow>
     (case host_walk s False path of Inl e \<Rightarrow> (Inl (Sys e), s)
      | Inr q \<Rightarrow> (case node_at s q of None \<Rightarrow> (Inl (Sys ENOENT), s)
          | Some n \<Rightarrow> if is_dir (Some n) \<and> dir_names (fs_nodes s) q \<noteq> [] then (Inl (Sys EEXIST), s)
              else (Inr (), touch_dir q (del_node q s)))))"

text \<open>\<open>os.RemoveAll\<close>: the subtree, without following links; nothing to remove is no error.\<close>

definition sys_remove_all :: "string \<Rightarrow> unit io" where
  "sys_remove_all path s = (case fs_faults s RemoveAll (comps path) of
     Some f \<Rightarrow> (Inl (Sys (Fault f)), s) | None \<Rightarrow>
     (case host_walk s False path of
        Inl e \<Rightarrow> if e = ENOENT then (Inr (), s) else (Inl (Sys e), s)
      | Inr q \<Rightarrow> if node_at s q = None then (Inr (), s)
          else (Inr (), touch_dir q
            (commit (filter (\<lambda>(p, n). \<not> prefix q p) (fs_nodes s)) s))))"

definition sys_mkdir :: "fpath \<Rightarrow> nat \<Rightarrow> unit io" where
  "sys_mkdir p mode s = (case fs_faults s Mkdir p of
     Some f \<Rightarrow> (Inl (Sys (Fault f)), s) | None \<Rightarrow>
     (case walk (node_at s) False max_hops [] p of Inl e \<Rightarrow> (Inl (Sys e), s)
      | Inr q \<Rightarrow> if node_at s q \<noteq> None then (Inl (Sys EEXIST), s)
          else (Inr (), touch_dir q (stamp q
            (put_node q (NDir \<lparr>fmode = mode, fuid = 0, fgid = 0\<rparr>) s)))))"

text \<open>
  \<open>os.MkdirAll\<close> on the components of a path, last component first: an existing directory is
  fine, otherwise the parent is made first and then the directory; a directory that
  appeared in the meantime is fine too.
\<close>

fun mkdir_all_rev :: "string list \<Rightarrow> nat \<Rightarrow> unit io" where
  "mkdir_all_rev rp mode s = (case sys_stat s (abs_path (rev rp)) of
     Inr n \<Rightarrow> if is_dir (Some n) then (Inr (), s) else (Inl (Sys ENOTDIR), s)
   | Inl _ \<Rightarrow> (case rp of [] \<Rightarrow> sys_mkdir [] mode s
      | c # parent \<Rightarrow>
        (case mkdir_all_rev parent mode s of
           (Inl e, s1) \<Rightarrow> (Inl e, s1)
         | (Inr _, s1) \<Rightarrow>
            (case sys_mkdir (rev rp) mode s1 of
               (Inr _, s2) \<Rightarrow> (Inr (), s2)
             | (Inl e, s2) \<Rightarrow>
                (case sys_lstat s2 (abs_path (rev rp)) of
                   Inr n \<Rightarrow> if is_dir (Some n) then (Inr (), s2) else (Inl e, s2)
                 | Inl _ \<Rightarrow> (Inl e, s2))))))"

declare mkdir_all_rev.simps [simp del]

definition os_mkdir_all :: "string \<Rightarrow> nat \<Rightarrow> unit io" where
  "os_mkdir_all path mode = mkdir_all_rev (rev (comps path)) mode"

text \<open>
  \<open>os.CreateTemp(dir, ".cainjekt-*")\<close>: a random decimal in place of the star, up to
  10000 tries while the name is taken.
\<close>

definition temp_name :: "string \<Rightarrow> nat \<Rightarrow> string" where
  "temp_name dir n = (if dir \<noteq> [] \<and> last dir = slash then dir else dir @ [slash]) @
     ''.cainjekt-'' @ show_nat n"

function create_temp :: "nat \<Rightarrow> string \<Rightarrow> fs \<Rightarrow> (string \<times> fpath) res \<times> fs" where
  "create_temp tries dir s =
     (let name = temp_name dir (fs_rand s (fs_rand_ix s));
          s0 = s\<lparr>fs_rand_ix := Suc (fs_rand_ix s)\<rparr>
      in (case sys_create name 384 s0 of
            (Inr h, s1) \<Rightarrow> (Inr (name, h), s1)
          | (Inl e, s1) \<Rightarrow>
             if e = Sys EEXIST \<and> 0 < tries then create_temp (tries - 1) dir s1
             else (Inl e, s1)))"
  by pat_completeness auto
termination
  by (relation "measure (\<lambda>(t, d, s). t)") auto

declare create_temp.simps [simp del]

definition max_temp_tries :: nat where "max_temp_tries = 9999"

end
