(* ===== verification/Vfs_Laws.thy ===== *)
theory Vfs_Laws
  imports Vfs
begin

text \<open>
  Facts about the path walk and the system calls that every component using the file system
  shares: where a walk can end, what one call changes, and how a sequence of calls keeps a
  condition on the state.
\<close>

section \<open>State updates\<close>

lemma node_at_put [simp]: "node_at (put_node p n s) = (node_at s)(p \<mapsto> n)"
  by (simp add: node_at_def put_node_def commit_def fun_eq_iff)

lemma node_at_del [simp]: "node_at (del_node p s) = (node_at s)(p := None)"
  by (simp add: node_at_def del_node_def commit_def fun_eq_iff)

lemma node_at_commit [simp]: "node_at (commit m s) = map_of m"
  by (simp add: node_at_def commit_def fun_eq_iff)

lemma node_at_touch [simp]: "node_at (touch_dir p s) = node_at s"
  by (simp add: node_at_def touch_dir_def fun_eq_iff)

lemma node_at_stamp [simp]: "node_at (stamp p s) = node_at s"
  by (simp add: node_at_def [abs_def] stamp_def)

lemma node_at_rand [simp]: "node_at (s\<lparr>fs_rand_ix := i\<rparr>) = node_at s"
  by (simp add: node_at_def fun_eq_iff)

lemma map_of_fs_nodes: "map_of (fs_nodes s) = node_at s"
  by (simp add: node_at_def fun_eq_iff)

lemma fs_trace_simps [simp]:
  "fs_trace (put_node p n s) = AList.update p n (fs_nodes s) # fs_trace s"
  "fs_trace (commit m s) = m # fs_trace s"
  "fs_trace (touch_dir p s) = fs_trace s"
  by (simp_all add: put_node_def commit_def touch_dir_def)

lemma fs_env_simps [simp]:
  "fs_faults (put_node p n s) = fs_faults s" "fs_faults (commit m s) = fs_faults s"
  "fs_faults (touch_dir p s) = fs_faults s" "fs_faults (del_node p s) = fs_faults s"
  "fs_clock (put_node p n s) = fs_clock s" "fs_clock (commit m s) = fs_clock s"
  "fs_clock (touch_dir p s) = fs_clock s" "fs_clock (del_node p s) = fs_clock s"
  by (simp_all add: put_node_def commit_def touch_dir_def del_node_def)

section \<open>Walks without links\<close>

text \<open>\<open>clear m b ns\<close>: no component on the way from \<open>b\<close> along \<open>ns\<close> is a link.\<close>

definition clear :: "(fpath \<Rightarrow> node option) \<Rightarrow> fpath \<Rightarrow> string list \<Rightarrow> bool" where
  "clear m b ns = (\<forall>p. prefix p ns \<and> p \<noteq> [] \<longrightarrow> \<not> is_link (m (b @ p)))"

text \<open>\<open>real_dir m d\<close>: the canonical path \<open>d\<close> is a directory, reached without links.\<close>

definition real_dir :: "(fpath \<Rightarrow> node option) \<Rightarrow> fpath \<Rightarrow> bool" where
  "real_dir m d = (valid_names d \<and> (\<forall>p. prefix p d \<longrightarrow> is_dir (m p)))"

lemma clear_Nil [simp]: "clear m b []"
  by (simp add: clear_def)

lemma clear_Cons: "clear m b (n # ns) \<longleftrightarrow> \<not> is_link (m (b @ [n])) \<and> clear m (b @ [n]) ns"
proof
  assume a: "clear m b (n # ns)"
  have "\<not> is_link (m (b @ [n]))" using a by (auto simp: clear_def)
  moreover have "\<not> is_link (m ((b @ [n]) @ p))" if "prefix p ns" for p
    using a that unfolding clear_def by (auto dest: spec [where x = "n # p"])
  ultimately show "\<not> is_link (m (b @ [n])) \<and> clear m (b @ [n]) ns" by (simp add: clear_def)
next
  assume a: "\<not> is_link (m (b @ [n])) \<and> clear m (b @ [n]) ns"
  show "clear m b (n # ns)"
    unfolding clear_def
  proof (intro allI impI)
    fix p assume "prefix p (n # ns) \<and> p \<noteq> []"
    then obtain q where p: "p = n # q" and q: "prefix q ns" using prefix_Cons_nonempty [of p n ns] by blast
    show "\<not> is_link (m (b @ p))"
    proof (cases "q = []")
      case True
      then show ?thesis using a p by simp
    next
      case False
      with a q have "\<not> is_link (m ((b @ [n]) @ q))" unfolding clear_def by blast
      then show ?thesis by (simp add: p)
    qed
  qed
qed

lemma clear_append: "clear m b (ps @ qs) \<longleftrightarrow> clear m b ps \<and> clear m (b @ ps) qs"
  by (induction ps arbitrary: b) (auto simp: clear_Cons)

lemma clear_cong: "(\<And>p. is_link (m' p) \<Longrightarrow> is_link (m p)) \<Longrightarrow> clear m b ns \<Longrightarrow> clear m' b ns"
  by (auto simp: clear_def)

lemma is_dir_not_link: "is_dir x \<Longrightarrow> \<not> is_link x"
  by (cases x rule: is_dir.cases) auto

lemma real_dir_clear: "real_dir m d \<Longrightarrow> clear m [] d"
  by (auto simp: real_dir_def clear_def dest: is_dir_not_link)

lemma real_dir_names [simp]: "real_dir m d \<Longrightarrow> valid_names d"
  by (simp add: real_dir_def)

lemma real_dir_prefix: "real_dir m (d @ e) \<Longrightarrow> real_dir m d"
  by (auto simp: real_dir_def intro: prefix_prefix)

lemma real_dir_agree: "real_dir m d \<Longrightarrow> (\<And>p. prefix p d \<Longrightarrow> is_dir (m' p)) \<Longrightarrow> real_dir m' d"
  by (auto simp: real_dir_def)

lemma walk_clear:
  "clear m cur ns \<Longrightarrow> valid_names ns \<Longrightarrow> walk m fl hops cur ns = Inr q \<Longrightarrow> q = cur @ ns"
proof (induction ns arbitrary: cur)
  case Nil
  then show ?case by (simp add: walk.simps)
next
  case (Cons n ns)
  from Cons.prems(1) have nl: "\<not> is_link (m (cur @ [n]))" and c: "clear m (cur @ [n]) ns"
    by (auto simp: clear_Cons)
  from Cons.prems(2) have n: "n \<noteq> []" "n \<noteq> dot" "n \<noteq> dotdot" and v: "valid_names ns"
    by (simp_all add: valid_name_simps)
  show ?case
  proof (cases "m (cur @ [n])")
    case None
    with Cons.prems(3) n show ?thesis by (auto simp: walk.simps split: if_splits)
  next
    case (Some x)
    show ?thesis
    proof (cases x)
      case (NDir mt)
      with Some n Cons.prems(3) have "walk m fl hops (cur @ [n]) ns = Inr q"
        by (simp add: walk.simps)
      from Cons.IH [OF c v this] show ?thesis by simp
    qed (use Some n nl Cons.prems(3) in \<open>auto simp: walk.simps split: if_splits\<close>)
  qed
qed

lemma walk_real_dirs:
  assumes "\<And>p. prefix p ns \<Longrightarrow> p \<noteq> [] \<Longrightarrow> is_dir (m (cur @ p))" and "valid_names ns"
  shows "walk m fl hops cur (ns @ rest) = walk m fl hops (cur @ ns) rest"
  using assms
proof (induction ns arbitrary: cur)
  case (Cons n ns)
  have "is_dir (m (cur @ [n]))" using Cons.prems(1) [of "[n]"] by simp
  then obtain mt where d: "m (cur @ [n]) = Some (NDir mt)"
    by (cases "m (cur @ [n])" rule: is_dir.cases) auto
  have n: "n \<noteq> []" "n \<noteq> dot" "n \<noteq> dotdot" using Cons.prems(2) by (auto simp: valid_name_def)
  have "walk m fl hops cur ((n # ns) @ rest) = walk m fl hops (cur @ [n]) (ns @ rest)"
    using d n by (simp add: walk.simps)
  also have "\<dots> = walk m fl hops ((cur @ [n]) @ ns) rest"
    using Cons.prems(2) Cons.prems(1) [of "n # p" for p] by (intro Cons.IH) auto
  finally show ?case by simp
qed simp

text \<open>An entry of a real directory is found at its own place when links are not followed.\<close>

lemma walk_entry:
  assumes "real_dir m d" and "valid_name n"
  shows "walk m False hops [] (d @ [n]) = Inr (d @ [n])"
proof -
  have n: "n \<noteq> []" "n \<noteq> dot" "n \<noteq> dotdot" using assms(2) by (auto simp: valid_name_def)
  have "walk m False hops [] (d @ [n]) = walk m False hops ([] @ d) [n]"
    using assms(1) by (intro walk_real_dirs) (auto simp: real_dir_def)
  also have "\<dots> = Inr (d @ [n])"
    using n by (auto simp: walk.simps split: option.splits node.splits)
  finally show ?thesis .
qed

lemma host_walk_entry:
  "real_dir (node_at s) d \<Longrightarrow> valid_name n \<Longrightarrow> host_walk s False (abs_path (d @ [n])) = Inr (d @ [n])"
  by (simp add: host_walk_def walk_entry real_dir_def)

lemma walk_self:
  assumes "real_dir m d"
  shows "walk m fl hops [] d = Inr d"
  using walk_real_dirs [of d m "[]" fl hops "[]"] assms by (simp add: real_dir_def walk.simps)

lemma host_walk_self: "real_dir (node_at s) d \<Longrightarrow> host_walk s fl (abs_path d) = Inr d"
  by (simp add: host_walk_def walk_self)

lemma sys_lstat_entry:
  assumes "real_dir (node_at s) d" and "valid_name n"
  shows "sys_lstat s (abs_path (d @ [n])) =
    (case fs_faults s Lstat (d @ [n]) of Some f \<Rightarrow> Inl (Fault f) | None \<Rightarrow>
      (case node_at s (d @ [n]) of None \<Rightarrow> Inl ENOENT | Some x \<Rightarrow> Inr x))"
  by (simp add: sys_lstat_def host_walk_entry [OF assms] real_dir_names [OF assms(1)] assms(2)
      split: option.split)

section \<open>What a walk returns on a tree\<close>

text \<open>
  A tree: the root is a directory, every other node has a valid name and a directory as its
  parent.
\<close>

definition wf_tree :: "(fpath \<Rightarrow> node option) \<Rightarrow> bool" where
  "wf_tree m = (is_dir (m []) \<and>
     (\<forall>p n. m (p @ [n]) \<noteq> None \<longrightarrow> valid_name n \<and> is_dir (m p)))"

definition wf_fs :: "fs \<Rightarrow> bool" where
  "wf_fs s = wf_tree (node_at s)"

lemma wf_treeD:
  assumes "wf_tree m" and "m (p @ [n]) \<noteq> None"
  shows "valid_name n" and "is_dir (m p)"
  using assms unfolding wf_tree_def by blast+

lemma wf_tree_root: "wf_tree m \<Longrightarrow> is_dir (m [])"
  by (simp add: wf_tree_def)

lemma is_dir_not_None: "is_dir x \<Longrightarrow> x \<noteq> None"
  by (cases x) auto

lemma wf_tree_butlast: "wf_tree m \<Longrightarrow> is_dir (m p) \<Longrightarrow> is_dir (m (butlast p))"
  using wf_treeD(2) [of m "butlast p" "last p"] is_dir_not_None [of "m p"]
  by (cases "p = []") simp_all

lemma wf_tree_prefix_dir:
  "wf_tree m \<Longrightarrow> m (p @ q) \<noteq> None \<Longrightarrow> q \<noteq> [] \<Longrightarrow> is_dir (m p)"
proof (induction q rule: rev_induct)
  case (snoc x q)
  then have d: "is_dir (m (p @ q))" using wf_treeD(2) [of m "p @ q" x] by simp
  then show ?case
    using snoc.IH [OF snoc.prems(1)] is_dir_not_None [OF d] by (cases "q = []") simp_all
qed simp

lemma wf_tree_names: "wf_tree m \<Longrightarrow> m p \<noteq> None \<Longrightarrow> valid_names p"
proof (induction p rule: rev_induct)
  case (snoc x p)
  then have "valid_name x" "m p \<noteq> None"
    using wf_treeD is_dir_not_None by blast+
  then show ?case using snoc by simp
qed simp

lemma wf_tree_real_dir: "wf_tree m \<Longrightarrow> is_dir (m d) \<Longrightarrow> real_dir m d"
  unfolding real_dir_def
proof (intro conjI allI impI)
  assume a: "wf_tree m" "is_dir (m d)"
  then have d: "m d \<noteq> None" by (simp add: is_dir_not_None)
  with a(1) show "valid_names d" by (rule wf_tree_names)
  fix p assume "prefix p d"
  then obtain q where q: "d = p @ q" by (auto simp: prefix_def)
  show "is_dir (m p)"
    using a d wf_tree_prefix_dir [of m p q] by (cases "q = []") (auto simp: q)
qed

lemma wf_tree_below_missing: "wf_tree m \<Longrightarrow> m p = None \<Longrightarrow> m (p @ q) = None"
  using wf_tree_prefix_dir [of m p q] is_dir_not_None [of "m p"]
  by (cases "q = []"; cases "m (p @ q)") auto

lemma wf_tree_put:
  assumes "wf_tree m" and "is_dir (m p)" and "valid_name n" and "is_dir (m (p @ [n])) \<longrightarrow> is_dir (Some x)"
  shows "wf_tree (m(p @ [n] \<mapsto> x))"
  unfolding wf_tree_def
proof (intro conjI allI impI)
  show "is_dir ((m(p @ [n] \<mapsto> x)) [])" using wf_tree_root [OF assms(1)] by simp
next
  fix p' n' assume a: "(m(p @ [n] \<mapsto> x)) (p' @ [n']) \<noteq> None"
  show "valid_name n'"
  proof (cases "p' @ [n'] = p @ [n]")
    case True
    then show ?thesis using assms(3) by simp
  next
    case False
    with a have "m (p' @ [n']) \<noteq> None" by (auto simp: fun_upd_apply split: if_splits)
    then show ?thesis by (rule wf_treeD(1) [OF assms(1)])
  qed
  have d: "is_dir (m p')"
  proof (cases "p' @ [n'] = p @ [n]")
    case True
    then show ?thesis using assms(2) by simp
  next
    case False
    with a have "m (p' @ [n']) \<noteq> None" by (auto simp: fun_upd_apply split: if_splits)
    then show ?thesis by (rule wf_treeD(2) [OF assms(1)])
  qed
  then show "is_dir ((m(p @ [n] \<mapsto> x)) p')" using assms(4) by auto
qed

text \<open>The canonical path a walk returns is the root, or an entry of an existing directory.\<close>

lemma walk_result:
  "wf_tree m \<Longrightarrow> is_dir (m cur) \<Longrightarrow> (\<forall>c \<in> set cs. slash \<notin> set c) \<Longrightarrow> walk m fl hops cur cs = Inr q \<Longrightarrow>
    is_dir (m q) \<or> (\<exists>p n. q = p @ [n] \<and> is_dir (m p) \<and> valid_name n)"
proof (induction m fl hops cur cs rule: walk.induct)
  case (1 m fl hops cur)
  then show ?case by (simp add: walk.simps)
next
  case (2 m fl hops cur c cs)
  note w = "2.prems"(4) and sl = "2.prems"(3)
  consider (skip) "c = [] \<or> c = dot" | (up) "\<not> (c = [] \<or> c = dot)" "c = dotdot"
    | (name) "\<not> (c = [] \<or> c = dot)" "c \<noteq> dotdot" by blast
  then show ?case
  proof cases
    case skip
    then show ?thesis using "2.IH"(1) [OF skip "2.prems"(1,2)] w sl by (auto simp: walk.simps)
  next
    case up
    then show ?thesis
      using "2.IH"(2) [OF up "2.prems"(1) wf_tree_butlast [OF "2.prems"(1,2)]] w sl
      by (auto simp: walk.simps)
  next
    case name
    have vn: "valid_name c" using name sl by (auto simp: valid_name_def)
    have here: ?thesis if "q = cur @ [c]" using that vn "2.prems"(2) by blast
    show ?thesis
    proof (cases "m (cur @ [c])")
      case None
      with w name here show ?thesis by (auto simp: walk.simps split: if_splits)
    next
      case (Some x)
      show ?thesis
      proof (cases x)
        case (NDir mt)
        have "walk m fl hops (cur @ [c]) cs = Inr q"
          using w name Some NDir by (simp add: walk.simps)
        then show ?thesis
          using "2.IH"(3) [OF name Some NDir "2.prems"(1)] Some NDir sl by simp
      next
        case (NLink t)
        show ?thesis
        proof (cases "(cs = [] \<and> \<not> fl) \<or> hops = 0")
          case True
          with w name Some NLink here show ?thesis by (auto simp: walk.simps split: if_splits)
        next
          case False
          have "walk m fl (hops - 1) (if is_abs t then [] else cur) (comps t @ cs) = Inr q"
            using w name Some NLink False by (auto simp: walk.simps split: if_splits)
          moreover have "is_dir (m (if is_abs t then [] else cur))"
            using "2.prems"(1,2) wf_tree_root by simp
          moreover have "\<forall>d \<in> set (comps t @ cs). slash \<notin> set d"
            using sl comps_parts by auto
          ultimately show ?thesis
            using "2.IH"(4) [OF name Some NLink _ _ "2.prems"(1)] False by blast
        qed
      qed (use Some w name here in \<open>auto simp: walk.simps split: if_splits\<close>)
    qed
  qed
qed

lemma host_walk_result:
  assumes "wf_fs s" and "host_walk s fl path = Inr q"
  shows "is_dir (node_at s q) \<or> (\<exists>p n. q = p @ [n] \<and> is_dir (node_at s p) \<and> valid_name n)"
  using assms walk_result [of "node_at s" "[]" "comps path" fl max_hops q] comps_parts
  by (auto simp: host_walk_def wf_fs_def wf_tree_def)

section \<open>What a sequence of calls may change\<close>

text \<open>
  \<open>changes_only R s s'\<close>: between \<open>s\<close> and \<open>s'\<close>, and in every tree in between, the nodes
  outside \<open>R\<close> are those of \<open>s\<close>.
\<close>

definition changes_only :: "fpath set \<Rightarrow> fs \<Rightarrow> fs \<Rightarrow> bool" where
  "changes_only R s s' =
     (fs_faults s' = fs_faults s \<and> (\<forall>p. p \<notin> R \<longrightarrow> node_at s' p = node_at s p) \<and>
      (\<exists>ts. fs_trace s' = ts @ fs_trace s \<and>
         (\<forall>t \<in> set ts. \<forall>p. p \<notin> R \<longrightarrow> map_of t p = node_at s p)))"

lemma changes_only_refl [simp, confine]: "changes_only R s s"
  by (simp add: changes_only_def)

lemma changes_only_node: "changes_only R s s' \<Longrightarrow> p \<notin> R \<Longrightarrow> node_at s' p = node_at s p"
  by (simp add: changes_only_def)

lemma changes_only_faults: "changes_only R s s' \<Longrightarrow> fs_faults s' = fs_faults s"
  by (simp add: changes_only_def)

lemma changes_only_trans:
  assumes "changes_only R s s'" and "changes_only R s' s''"
  shows "changes_only R s s''"
proof -
  from assms obtain ts us where
    ts: "fs_trace s' = ts @ fs_trace s" "\<forall>t \<in> set ts. \<forall>p. p \<notin> R \<longrightarrow> map_of t p = node_at s p" and
    us: "fs_trace s'' = us @ fs_trace s'" "\<forall>t \<in> set us. \<forall>p. p \<notin> R \<longrightarrow> map_of t p = node_at s' p"
    unfolding changes_only_def by blast
  have same: "\<forall>p. p \<notin> R \<longrightarrow> node_at s' p = node_at s p"
    using assms(1) by (simp add: changes_only_def)
  have "fs_trace s'' = (us @ ts) @ fs_trace s" using ts(1) us(1) by simp
  moreover have "\<forall>t \<in> set (us @ ts). \<forall>p. p \<notin> R \<longrightarrow> map_of t p = node_at s p"
    using ts(2) us(2) same by auto
  ultimately show ?thesis using assms same unfolding changes_only_def by auto
qed

lemma changes_only_mono: "changes_only R s s' \<Longrightarrow> R \<subseteq> R' \<Longrightarrow> changes_only R' s s'"
  unfolding changes_only_def by blast

lemma changes_only_put [confine]: "p \<in> R \<Longrightarrow> changes_only R s (put_node p n s)"
  by (auto simp: changes_only_def map_of_fs_nodes)

lemma changes_only_commit:
  "(\<And>p. p \<notin> R \<Longrightarrow> map_of m p = node_at s p) \<Longrightarrow> changes_only R s (commit m s)"
  by (auto simp: changes_only_def)

lemma changes_only_touch [simp]: "changes_only R s (touch_dir p s') \<longleftrightarrow> changes_only R s s'"
  by (simp add: changes_only_def)

lemma changes_only_stamp [simp]: "changes_only R s (stamp p s') \<longleftrightarrow> changes_only R s s'"
  by (simp add: changes_only_def) (simp add: stamp_def)

lemma changes_only_rand [simp]: "changes_only R s (s'\<lparr>fs_rand_ix := i\<rparr>) \<longleftrightarrow> changes_only R s s'"
  by (simp add: changes_only_def)

lemma changes_only_from_rand [simp]:
  "changes_only R (s\<lparr>fs_rand_ix := i\<rparr>) s' \<longleftrightarrow> changes_only R s s'"
  by (simp add: changes_only_def)

lemma sys_write_changes [confine]: "h \<in> R \<Longrightarrow> changes_only R s (snd (sys_write h data s))"
  by (auto simp: sys_write_def intro: confine split: option.split node.split)

lemma sys_chmod_changes [confine]: "h \<in> R \<Longrightarrow> changes_only R s (snd (sys_chmod h m s))"
  by (auto simp: sys_chmod_def intro: confine split: option.split node.split)

lemma sys_chown_changes [confine]: "h \<in> R \<Longrightarrow> changes_only R s (snd (sys_chown h u g s))"
  by (auto simp: sys_chown_def intro: confine split: option.split node.split)

lemma sys_check_state [simp]: "snd (sys_check c h s) = s"
  by (simp add: sys_check_def split: option.split)

lemma sys_create_changes [confine]:
  "(\<And>q. host_walk s False path = Inr q \<Longrightarrow> q \<in> R) \<Longrightarrow> changes_only R s (snd (sys_create path m s))"
  by (auto simp: sys_create_def intro: confine split: option.split sum.split)

lemma sys_remove_changes [confine]:
  "(\<And>q. host_walk s False path = Inr q \<Longrightarrow> q \<in> R) \<Longrightarrow> changes_only R s (snd (sys_remove path s))"
  by (auto simp: sys_remove_def del_node_def map_of_fs_nodes intro!: changes_only_commit
      split: option.split sum.split)

lemma sys_rename_changes [confine]:
  "(\<And>q. host_walk s False old = Inr q \<or> host_walk s False new = Inr q \<Longrightarrow> q \<in> R) \<Longrightarrow>
   changes_only R s (snd (sys_rename old new s))"
  by (auto simp: sys_rename_def map_of_fs_nodes intro!: changes_only_commit
      split: option.split sum.split)

lemma sys_mkdir_changes [confine]:
  "(\<And>q. walk (node_at s) False max_hops [] p = Inr q \<Longrightarrow> q \<in> R) \<Longrightarrow>
   changes_only R s (snd (sys_mkdir p m s))"
  by (auto simp: sys_mkdir_def intro: confine split: option.split sum.split)

text \<open>A sequence changes what its parts change; the handles the parts work on may depend on results.\<close>

lemma io_bind_changes:
  assumes "changes_only R s (snd (m s))"
    and "\<And>x s'. m s = (Inr x, s') \<Longrightarrow> changes_only R s' (snd (f x s'))"
  shows "changes_only R s (snd (io_bind m f s))"
proof (cases "m s")
  case (Pair r s')
  then show ?thesis
  proof (cases r)
    case (Inr x)
    then have "changes_only R s' (snd (f x s'))" using Pair assms(2) by simp
    then show ?thesis using assms(1) Pair Inr by (auto simp: io_bind_def intro: changes_only_trans)
  qed (use assms(1) Pair in \<open>simp add: io_bind_def\<close>)
qed

lemma io_bind_Inr:
  "fst (io_bind m f s) = Inr y \<longleftrightarrow> (\<exists>x s'. m s = (Inr x, s') \<and> fst (f x s') = Inr y)"
  by (auto simp: io_bind_def split: prod.split sum.split)

lemma io_bind_state: "m s = (Inr x, s') \<Longrightarrow> io_bind m f s = f x s'"
  by (simp add: io_bind_def)

lemma real_dir_changes:
  assumes "real_dir (node_at s) d" and "changes_only R s s'" and "\<And>p. prefix p d \<Longrightarrow> p \<notin> R"
  shows "real_dir (node_at s') d"
  using assms by (auto simp: real_dir_def changes_only_def)

end
