(* ===== verification/Atomic_Write.thy ===== *)
theory Atomic_Write
  imports Vfs_Laws
begin

text \<open>
  \<open>pkg/fsx/atomicwrite.go\<close>: replace a file by writing a temporary file next to it and
  renaming it over the target. The lemmas show what the caller and a crash can observe: the
  target holds its old node or the complete new content with the right mode, never anything
  in between, and a failed write leaves the tree as it was.
\<close>

record write_options =
  wo_fallback_mode :: nat
  wo_refuse_symlink :: bool
  wo_preserve_owner :: bool

text \<open>Mode and owner for the new file: those of the existing one, links followed.\<close>

definition aw_mode :: "fs \<Rightarrow> string \<Rightarrow> nat \<Rightarrow> nat" where
  "aw_mode s path fallback = (case sys_stat s path of
     Inr n \<Rightarrow> (case node_meta n of Some mt \<Rightarrow> perm (fmode mt) | None \<Rightarrow> fallback)
   | Inl _ \<Rightarrow> fallback)"

definition aw_owner :: "fs \<Rightarrow> string \<Rightarrow> (nat \<times> nat) option" where
  "aw_owner s path = (case sys_stat s path of
     Inr n \<Rightarrow> map_option (\<lambda>mt. (fuid mt, fgid mt)) (node_meta n)
   | Inl _ \<Rightarrow> None)"

definition aw_chown :: "fpath \<Rightarrow> bool \<Rightarrow> (nat \<times> nat) option \<Rightarrow> unit io" where
  "aw_chown h preserve owner s =
     (case owner of
        Some (u, g) \<Rightarrow>
          if preserve then
            (case sys_chown h u g s of
               (Inl e, s') \<Rightarrow> if is_permission e then (Inr (), s') else (Inl e, s')
             | (Inr _, s') \<Rightarrow> (Inr (), s'))
          else (Inr (), s)
      | None \<Rightarrow> (Inr (), s))"

text \<open>Fill the temporary file: write, chmod, chown, sync, close.\<close>

definition aw_fill :: "fpath \<Rightarrow> bytes \<Rightarrow> nat \<Rightarrow> bool \<Rightarrow> (nat \<times> nat) option \<Rightarrow> unit io" where
  "aw_fill h data mode preserve owner =
     io_bind (sys_write h data) (\<lambda>_.
     io_bind (sys_chmod h mode) (\<lambda>_.
     io_bind (aw_chown h preserve owner) (\<lambda>_.
     io_bind (sys_check Fsync h) (\<lambda>_.
     sys_check CloseFile h))))"

text \<open>
  The function, with its deferred removal of the temporary file on every return after the
  file was created. The final sync of the directory changes nothing and its errors are
  ignored, so it leaves no step here.
\<close>

definition atomic_write :: "string \<Rightarrow> bytes \<Rightarrow> write_options \<Rightarrow> unit io" where
  "atomic_write path data opt s =
     (let fallback = (if wo_fallback_mode opt = 0 then 420 else wo_fallback_mode opt) in
      if wo_refuse_symlink opt \<and> (case sys_lstat s path of Inr n \<Rightarrow> is_link (Some n) | Inl _ \<Rightarrow> False)
      then (Inl (Msg ''refusing to overwrite symlink''), s)
      else (case create_temp max_temp_tries (path_dir path) s of
          (Inl e, s1) \<Rightarrow> (Inl e, s1)
        | (Inr (tmp, h), s1) \<Rightarrow>
           (case io_bind (aw_fill h data (aw_mode s1 path fallback) (wo_preserve_owner opt)
                      (aw_owner s1 path))
                   (\<lambda>_. sys_rename tmp path) s1 of
              (r, s2) \<Rightarrow> (r, snd (sys_remove tmp s2)))))"

section \<open>The temporary file\<close>

definition temp_base :: "nat \<Rightarrow> string" where
  "temp_base k = ''.cainjekt-'' @ show_nat k"

definition temps :: "fpath \<Rightarrow> fpath set" where
  "temps d = {d @ [temp_base k] | k. True}"

lemma temp_base_valid: "valid_name (temp_base k)"
proof -
  have "slash \<notin> set (show_nat k)"
    using show_nat_digits [of slash k] by (auto simp: slash_def)
  then show ?thesis by (simp add: valid_name_def temp_base_def dot_def dotdot_def slash_def)
qed

lemma temp_name_abs_path:
  assumes "valid_names d"
  shows "temp_name (abs_path d) k = abs_path (d @ [temp_base k])"
proof (cases d rule: rev_cases)
  case Nil
  then show ?thesis by (simp add: temp_name_def abs_path_def temp_base_def)
next
  case (snoc e n)
  then have n: "n \<noteq> []" "slash \<notin> set n" using assms by (auto simp: valid_name_def)
  have "last (abs_path d) = last n"
  proof (cases "e = []")
    case True
    then show ?thesis using n by (simp add: snoc abs_path_single)
  next
    case False
    then show ?thesis using n by (simp add: snoc abs_path_snoc)
  qed
  moreover have "last n \<noteq> slash" using n by (metis last_in_set)
  ultimately have "last (abs_path d) \<noteq> slash" using snoc by simp
  moreover have "d \<noteq> []" using snoc by simp
  moreover have "abs_path d \<noteq> []" by (simp add: abs_path_def)
  ultimately show ?thesis by (simp add: temp_name_def abs_path_snoc temp_base_def)
qed

lemma temps_not_prefix: "p \<in> temps d \<Longrightarrow> \<not> prefix p d"
  by (auto simp: temps_def prefix_def)

text \<open>A temporary file that was created was missing before, is empty, and lies in the directory.\<close>

definition temp_made :: "fpath \<Rightarrow> string \<Rightarrow> fpath \<Rightarrow> fs \<Rightarrow> fs \<Rightarrow> bool" where
  "temp_made d tmp h s s1 = (h \<in> temps d \<and> tmp = abs_path h \<and> node_at s h = None \<and>
     (\<exists>mt. node_at s1 = (node_at s)(h \<mapsto> NReg [] mt)) \<and> changes_only {h} s s1)"

lemma create_temp_step:
  assumes rd: "real_dir (node_at s) d"
    and res: "create_temp n (abs_path d) s = (Inr (tmp, h), s1)"
    and rec: "\<And>s'. 0 < n \<Longrightarrow> real_dir (node_at s') d \<Longrightarrow>
      create_temp (n - 1) (abs_path d) s' = (Inr (tmp, h), s1) \<Longrightarrow> temp_made d tmp h s' s1"
  shows "temp_made d tmp h s s1"
proof -
  define k where "k = fs_rand s (fs_rand_ix s)"
  define s0 where "s0 = s\<lparr>fs_rand_ix := Suc (fs_rand_ix s)\<rparr>"
  let ?h = "d @ [temp_base k]"
  have name: "temp_name (abs_path d) k = abs_path ?h"
    by (rule temp_name_abs_path [OF real_dir_names [OF rd]])
  have n0: "node_at s0 = node_at s" by (simp add: s0_def)
  have walk: "host_walk s0 False (abs_path ?h) = Inr ?h"
    using rd n0 by (simp add: host_walk_entry temp_base_valid)
  obtain r s' where step: "sys_create (abs_path ?h) 384 s0 = (r, s')"
    by (cases "sys_create (abs_path ?h) 384 s0")
  have eq: "create_temp n (abs_path d) s = (case r of Inr h \<Rightarrow> (Inr (abs_path ?h, h), s')
      | Inl e \<Rightarrow> if e = Sys EEXIST \<and> 0 < n then create_temp (n - 1) (abs_path d) s' else (Inl e, s'))"
    unfolding create_temp.simps [of n] Let_def k_def [symmetric] s0_def [symmetric] name step
    by (simp split: sum.split)
  show ?thesis
  proof (cases r)
    case (Inl e)
    with res eq have e: "0 < n" and r: "create_temp (n - 1) (abs_path d) s' = (Inr (tmp, h), s1)"
      by (auto split: if_splits)
    have s': "s' = s0"
      using step Inl walk by (auto simp: sys_create_def split: option.splits if_splits)
    have "temp_made d tmp h s' s1"
      by (rule rec [OF e _ r]) (use rd s' n0 in simp)
    then show ?thesis using s' by (simp add: temp_made_def n0) (simp add: s0_def)
  next
    case (Inr h')
    with step walk have h: "h' = ?h" "node_at s0 ?h = None"
      "\<exists>mt. node_at s' = (node_at s0)(?h \<mapsto> NReg [] mt)" "changes_only {?h} s0 s'"
      by (auto simp: sys_create_def intro: confine split: option.splits if_splits)
    with res eq Inr have "h = ?h" "tmp = abs_path ?h" "s1 = s'" by auto
    with h show ?thesis by (auto simp: temp_made_def temps_def n0) (simp add: s0_def)
  qed
qed

lemma create_temp_Inr:
  "real_dir (node_at s) d \<Longrightarrow> create_temp n (abs_path d) s = (Inr (tmp, h), s1) \<Longrightarrow>
   temp_made d tmp h s s1"
proof (induction n arbitrary: s)
  case 0
  then show ?case by (rule create_temp_step) simp
next
  case (Suc n)
  show ?case by (rule create_temp_step [OF Suc.prems]) (simp add: Suc.IH)
qed

lemma create_temp_Inl:
  "create_temp n dir s = (Inl e, s1) \<Longrightarrow> node_at s1 = node_at s \<and> changes_only {} s s1"
proof (induction n dir s rule: create_temp.induct)
  case (1 n dir s)
  define s0 where "s0 = s\<lparr>fs_rand_ix := Suc (fs_rand_ix s)\<rparr>"
  define nm where "nm = temp_name dir (fs_rand s (fs_rand_ix s))"
  note IH = "1.IH" [OF nm_def s0_def]
  obtain r s' where step: "sys_create nm 384 s0 = (r, s')" by (cases "sys_create nm 384 s0")
  have eq: "create_temp n dir s = (case r of Inr h \<Rightarrow> (Inr (nm, h), s')
      | Inl e \<Rightarrow> if e = Sys EEXIST \<and> 0 < n then create_temp (n - 1) dir s' else (Inl e, s'))"
    unfolding create_temp.simps [of n] Let_def nm_def [symmetric] s0_def [symmetric] step
    by (simp split: sum.split)
  show ?case
  proof (cases r)
    case (Inr h)
    with eq "1.prems" show ?thesis by simp
  next
    case (Inl e')
    then have s': "s' = s0"
      using step by (auto simp: sys_create_def split: option.splits sum.splits if_splits)
    show ?thesis
    proof (cases "e' = Sys EEXIST \<and> 0 < n")
      case True
      then have "create_temp (n - 1) dir s' = (Inl e, s1)" using eq "1.prems" Inl by simp
      then have "node_at s1 = node_at s' \<and> changes_only {} s' s1"
        using IH step Inl True by auto
      then show ?thesis using s' by (simp add: s0_def)
    next
      case False
      then show ?thesis using eq "1.prems" Inl s' by (auto simp: s0_def split: if_splits)
    qed
  qed
qed

section \<open>Filling the temporary file\<close>

lemma aw_chown_changes [confine]: "h \<in> R \<Longrightarrow> changes_only R s (snd (aw_chown h p ow s))"
  using sys_chown_changes [of h R s]
  by (auto simp: aw_chown_def split: option.split prod.split sum.split) (metis snd_conv)+

lemma aw_fill_changes: "changes_only {h} s (snd (aw_fill h data mode p ow s))"
  unfolding aw_fill_def
  by (intro io_bind_changes) (simp_all add: confine)

lemma sys_write_Inr:
  "node_at s h = Some (NReg b mt) \<Longrightarrow> sys_write h data s = (Inr x, s') \<Longrightarrow>
   node_at s' h = Some (NReg (b @ data) mt)"
  by (auto simp: sys_write_def split: option.splits)

lemma sys_chmod_Inr:
  "node_at s h = Some (NReg b mt) \<Longrightarrow> sys_chmod h m s = (Inr x, s') \<Longrightarrow>
   node_at s' h = Some (NReg b (mt\<lparr>fmode := m\<rparr>))"
  by (auto simp: sys_chmod_def split: option.splits)

lemma aw_chown_Inr:
  "node_at s h = Some (NReg b mt) \<Longrightarrow> aw_chown h p ow s = (Inr x, s') \<Longrightarrow>
   \<exists>mt'. node_at s' h = Some (NReg b mt') \<and> fmode mt' = fmode mt"
  by (auto simp: aw_chown_def sys_chown_def split: option.splits if_splits)

lemma sys_check_Inr: "sys_check c h s = (Inr x, s') \<Longrightarrow> s' = s"
  by (auto simp: sys_check_def split: option.splits)

lemma aw_fill_Inr:
  assumes "node_at s h = Some (NReg b mt)" and "aw_fill h data mode p ow s = (Inr x, s')"
  shows "\<exists>mt'. node_at s' h = Some (NReg (b @ data) mt') \<and> fmode mt' = mode"
proof -
  from assms(2) obtain x1 s1 x2 s2 x3 s3 x4 s4 where
    s1: "sys_write h data s = (Inr x1, s1)" and s2: "sys_chmod h mode s1 = (Inr x2, s2)" and
    s3: "aw_chown h p ow s2 = (Inr x3, s3)" and s4: "sys_check Fsync h s3 = (Inr x4, s4)" and
    s5: "sys_check CloseFile h s4 = (Inr x, s')"
    by (auto simp: aw_fill_def io_bind_def split: prod.splits sum.splits)
  from sys_chmod_Inr [OF sys_write_Inr [OF assms(1) s1] s2] aw_chown_Inr [OF _ s3]
  obtain mt' where "node_at s3 h = Some (NReg (b @ data) mt') \<and> fmode mt' = mode" by fastforce
  then show ?thesis using sys_check_Inr [OF s4] sys_check_Inr [OF s5] by auto
qed

section \<open>What AtomicWrite guarantees\<close>

text \<open>
  \<open>aw_outcome d n data mode s r s'\<close> is the contract, for a target \<open>n\<close> in the directory
  \<open>d\<close>: on success the target is the new file and nothing else differs; on failure nothing
  but the temporary file can differ; and in every tree on the way the target is its old
  node or the complete new file.
\<close>

definition whole_file :: "bytes \<Rightarrow> nat \<Rightarrow> node option \<Rightarrow> bool" where
  "whole_file data mode x = (\<exists>mt. x = Some (NReg data mt) \<and> fmode mt = mode)"

definition aw_atomic :: "fpath \<Rightarrow> bytes \<Rightarrow> nat \<Rightarrow> fs \<Rightarrow> fs \<Rightarrow> bool" where
  "aw_atomic f data mode s s' =
     (\<exists>ts. fs_trace s' = ts @ fs_trace s \<and>
        (\<forall>t \<in> set ts. map_of t f = node_at s f \<or> whole_file data mode (map_of t f)))"

lemma changes_only_atomic:
  "changes_only R s s' \<Longrightarrow> f \<notin> R \<Longrightarrow> aw_atomic f data mode s s'"
  unfolding changes_only_def aw_atomic_def by blast

lemma aw_atomic_step:
  assumes "changes_only R s s1" "f \<notin> R" "aw_atomic f data mode s1 s'"
  shows "aw_atomic f data mode s s'"
proof -
  obtain ts us where ts: "fs_trace s1 = ts @ fs_trace s"
      "\<forall>t \<in> set ts. map_of t f = node_at s f" and us: "fs_trace s' = us @ fs_trace s1"
      "\<forall>t \<in> set us. map_of t f = node_at s1 f \<or> whole_file data mode (map_of t f)"
    using assms unfolding changes_only_def aw_atomic_def by blast
  have "node_at s1 f = node_at s f" using assms(1,2) by (rule changes_only_node)
  with ts us have "fs_trace s' = (us @ ts) @ fs_trace s \<and>
      (\<forall>t \<in> set (us @ ts). map_of t f = node_at s f \<or> whole_file data mode (map_of t f))"
    by auto
  then show ?thesis unfolding aw_atomic_def by blast
qed

text \<open>The mode the code computes when the target is not a link.\<close>

definition new_mode :: "fs \<Rightarrow> fpath \<Rightarrow> nat \<Rightarrow> nat" where
  "new_mode s f fallback = (case fs_faults s Stat f of Some _ \<Rightarrow> fallback | None \<Rightarrow>
     (case node_at s f of None \<Rightarrow> fallback
      | Some x \<Rightarrow> (case node_meta x of Some mt \<Rightarrow> perm (fmode mt) | None \<Rightarrow> fallback)))"

lemma host_walk_not_link:
  assumes "real_dir (node_at s) d" and "valid_name n" and "\<not> is_link (node_at s (d @ [n]))"
  shows "host_walk s fl (abs_path (d @ [n])) = Inr (d @ [n])"
proof -
  have n: "n \<noteq> []" "n \<noteq> dot" "n \<noteq> dotdot" using assms(2) by (auto simp: valid_name_def)
  have "walk (node_at s) fl max_hops [] (d @ [n]) = walk (node_at s) fl max_hops ([] @ d) [n]"
    using assms(1) by (intro walk_real_dirs) (auto simp: real_dir_def)
  also have "\<dots> = Inr (d @ [n])"
    using n assms(3) by (auto simp: walk.simps split: option.splits node.splits)
  finally show ?thesis using assms(1,2) by (simp add: host_walk_def real_dir_def)
qed

lemma aw_mode_not_link:
  assumes "real_dir (node_at s) d" and "valid_name n" and "\<not> is_link (node_at s (d @ [n]))"
  shows "aw_mode s (abs_path (d @ [n])) fallback = new_mode s (d @ [n]) fallback"
  using real_dir_names [OF assms(1)] assms(2)
  by (simp add: aw_mode_def sys_stat_def new_mode_def host_walk_not_link [OF assms]
      split: option.split)

text \<open>Renaming the temporary file over the target, and removing what is left of it.\<close>

lemma rename_entry:
  assumes rd: "real_dir (node_at s) d" and h: "h = d @ [t]" "valid_name t" and n: "valid_name n"
    and x: "node_at s h = Some x" and ne: "t \<noteq> n"
  shows "sys_rename (abs_path h) (abs_path (d @ [n])) s =
    (case fs_faults s Rename (d @ [n]) of Some f \<Rightarrow> (Inl (Sys (Fault f)), s) | None \<Rightarrow>
      if is_dir (node_at s (d @ [n])) then (Inl (Sys EEXIST), s)
      else (Inr (), touch_dir (d @ [n]) (touch_dir h
        (commit (AList.delete h (AList.update (d @ [n]) x (fs_nodes s))) s))))"
proof -
  have "host_walk s False (abs_path h) = Inr h" "host_walk s False (abs_path (d @ [n])) = Inr (d @ [n])"
    using host_walk_entry [OF rd] h n by auto
  then show ?thesis
    using x ne h(1) n real_dir_names [OF rd] by (simp add: sys_rename_def split: option.split)
qed

lemma remove_temp:
  assumes rd: "real_dir (node_at s) d" and h: "h = d @ [t]" "valid_name t"
  shows "node_at s h = None \<Longrightarrow> snd (sys_remove (abs_path h) s) = s"
    and "changes_only {h} s (snd (sys_remove (abs_path h) s))"
    and "fs_faults s Remove h = None \<Longrightarrow> is_regular (node_at s h) \<Longrightarrow>
      node_at (snd (sys_remove (abs_path h) s)) = (node_at s)(h := None)"
proof -
  have w: "host_walk s False (abs_path h) = Inr h" using host_walk_entry [OF rd h(2)] h(1) by simp
  have c: "comps (abs_path h) = h" using h real_dir_names [OF rd] by simp
  show "node_at s h = None \<Longrightarrow> snd (sys_remove (abs_path h) s) = s"
    using w by (simp add: sys_remove_def split: option.split)
  show "changes_only {h} s (snd (sys_remove (abs_path h) s))"
    using w by (intro sys_remove_changes) simp
  show "node_at (snd (sys_remove (abs_path h) s)) = (node_at s)(h := None)"
    if "fs_faults s Remove h = None" "is_regular (node_at s h)"
    using w c that by (cases "node_at s h" rule: is_regular.cases) (simp_all add: sys_remove_def)
qed

text \<open>Filling never turns the temporary file into anything but a regular file.\<close>

lemma put_keeps_regular:
  "is_regular (node_at s h) \<Longrightarrow> is_regular (node_at (snd (sys_write h data s)) h)"
  "is_regular (node_at s h) \<Longrightarrow> is_regular (node_at (snd (sys_chmod h m s)) h)"
  "is_regular (node_at s h) \<Longrightarrow> is_regular (node_at (snd (aw_chown h p ow s)) h)"
  by (cases "node_at s h" rule: is_regular.cases;
      auto simp: sys_write_def sys_chmod_def aw_chown_def sys_chown_def split: option.split)+

lemma io_bind_keeps:
  assumes "P (snd (m s))" and "\<And>x s'. P s' \<Longrightarrow> P (snd (f x s'))"
  shows "P (snd (io_bind m f s))"
  using assms by (auto simp: io_bind_def split: prod.split sum.split)

lemma aw_fill_regular:
  "is_regular (node_at s h) \<Longrightarrow> is_regular (node_at (snd (aw_fill h data m p ow s)) h)"
  unfolding aw_fill_def
  by (intro io_bind_keeps [where P = "\<lambda>s. is_regular (node_at s h)"])
    (simp_all add: put_keeps_regular)

text \<open>The run after the temporary file exists.\<close>

definition aw_rest :: "string \<Rightarrow> fpath \<Rightarrow> string \<Rightarrow> bytes \<Rightarrow> nat \<Rightarrow> bool \<Rightarrow> (nat \<times> nat) option \<Rightarrow> unit io" where
  "aw_rest tmp h path data mode p ow s1 =
     (case io_bind (aw_fill h data mode p ow) (\<lambda>_. sys_rename tmp path) s1 of
        (r, s2) \<Rightarrow> (r, snd (sys_remove tmp s2)))"

definition aw_contract :: "fpath \<Rightarrow> fpath \<Rightarrow> bytes \<Rightarrow> nat \<Rightarrow> fs \<Rightarrow> unit res \<times> fs \<Rightarrow> bool" where
  "aw_contract d f data mode s out =
     (aw_atomic f data mode s (snd out) \<and>
      changes_only (insert f (temps d)) s (snd out) \<and>
      (fst out = Inr () \<longrightarrow>
         (\<exists>mt. fmode mt = mode \<and> node_at (snd out) = (node_at s)(f \<mapsto> NReg data mt))) \<and>
      (\<forall>e. fst out = Inl e \<longrightarrow> changes_only (temps d) s (snd out) \<and>
         ((\<forall>p. fs_faults s Remove p = None) \<longrightarrow> node_at (snd out) = node_at s)))"

lemma aw_rest_contract:
  assumes rd: "real_dir (node_at s) d" and n: "valid_name n" "\<not> has_prefix n ''.cainjekt-''"
    and made: "temp_made d tmp h s s1"
  shows "aw_contract d (d @ [n]) data mode s (aw_rest tmp h (abs_path (d @ [n])) data mode p ow s1)"
proof -
  let ?f = "d @ [n]"
  obtain k where h: "h = d @ [temp_base k]" using made by (auto simp: temp_made_def temps_def)
  have hd: "h \<in> temps d" and tmp: "tmp = abs_path h" and none: "node_at s h = None"
    using made by (auto simp: temp_made_def)
  have tn: "temp_base k \<noteq> n" using n(2) by (auto simp: temp_base_def has_prefix_def)
  then have fh: "?f \<notin> {h}" and hf: "h \<noteq> ?f" using h by auto
  define u where "u = snd (aw_fill h data mode p ow s1)"
  have c1: "changes_only {h} s s1" using made by (simp add: temp_made_def)
  have cu: "changes_only {h} s u"
    unfolding u_def by (rule changes_only_trans [OF c1 aw_fill_changes])
  have np: "\<not> prefix q d" if "q \<in> {h}" for q using temps_not_prefix hd that by blast
  have rdu: "real_dir (node_at u) d" using real_dir_changes [OF rd cu] np by blast
  obtain mt0 where "node_at s1 h = Some (NReg [] mt0)" using made by (auto simp: temp_made_def)
  note new = this
  then have regu: "is_regular (node_at u h)" unfolding u_def by (intro aw_fill_regular) simp
  note rm = remove_temp [OF rdu h temp_base_valid]
  have sub: "{h} \<subseteq> temps d" using hd by simp
  have fail: "aw_contract d ?f data mode s (Inl e, snd (sys_remove tmp u))" for e
  proof -
    have c: "changes_only {h} s (snd (sys_remove tmp u))"
      using changes_only_trans [OF cu] rm(2) tmp by simp
    have "node_at (snd (sys_remove tmp u)) = node_at s" if "\<forall>p. fs_faults s Remove p = None"
    proof -
      have "node_at (snd (sys_remove tmp u)) = (node_at u)(h := None)"
        using rm(3) regu that tmp changes_only_faults [OF cu] by simp
      then show ?thesis using none changes_only_node [OF cu] by (auto simp: fun_eq_iff)
    qed
    then show ?thesis
      using changes_only_mono [OF c sub] changes_only_mono [OF c] hd
        changes_only_atomic [OF c fh] by (simp add: aw_contract_def)
  qed
  show ?thesis
  proof (cases "aw_fill h data mode p ow s1")
    case (Pair r0 s0)
    then have s0: "s0 = u" by (simp add: u_def)
    show ?thesis
    proof (cases r0)
      case (Inl e)
      then show ?thesis using fail Pair s0 by (simp add: aw_rest_def io_bind_def)
    next
      case (Inr y)
      have "\<exists>mt'. node_at u h = Some (NReg ([] @ data) mt') \<and> fmode mt' = mode"
        by (rule aw_fill_Inr [OF new]) (use Pair Inr s0 in simp)
      then obtain mt where x: "node_at u h = Some (NReg data mt)" "fmode mt = mode" by auto
      define v where "v = touch_dir ?f (touch_dir h
        (commit (AList.delete h (AList.update ?f (NReg data mt) (fs_nodes u))) u))"
      have rest: "aw_rest tmp h (abs_path ?f) data mode p ow s1 =
          (case (case fs_faults u Rename ?f of Some f \<Rightarrow> (Inl (Sys (Fault f)), u) | None \<Rightarrow>
              if is_dir (node_at u ?f) then (Inl (Sys EEXIST), u) else (Inr (), v)) of
             (r, s2) \<Rightarrow> (r, snd (sys_remove tmp s2)))"
        unfolding aw_rest_def io_bind_def Pair Inr s0 tmp v_def
        using rename_entry [OF rdu h temp_base_valid n(1) x(1) tn] by simp
      show ?thesis
      proof (cases "fs_faults u Rename ?f = None \<and> \<not> is_dir (node_at u ?f)")
        case False
        then show ?thesis using rest fail by (auto split: option.splits)
      next
        case True
        have nv: "node_at v = (node_at u)(?f \<mapsto> NReg data mt, h := None)"
          using hf by (auto simp: v_def map_of_fs_nodes fun_upd_twist)
        have cv: "changes_only (insert ?f {h}) u v"
          by (auto simp: v_def map_of_fs_nodes intro!: changes_only_commit split: if_splits)
        have "real_dir (node_at v) d"
          by (rule real_dir_changes [OF rdu cv]) (use np in \<open>auto simp: prefix_def\<close>)
        then have "v = snd (sys_remove tmp v)"
          using remove_temp(1) [OF _ h temp_base_valid] nv tmp by simp
        with rest True have out: "aw_rest tmp h (abs_path ?f) data mode p ow s1 = (Inr (), v)"
          by (auto simp: case_prod_beta)
        have "changes_only (insert ?f (temps d)) s v"
          by (rule changes_only_trans [OF changes_only_mono [OF cu] changes_only_mono [OF cv]])
            (use hd in auto)
        moreover have "aw_atomic ?f data mode s v"
          by (rule aw_atomic_step [OF cu fh])
            (auto simp: aw_atomic_def v_def whole_file_def x(2) hf [symmetric])
        moreover have "node_at v = (node_at s)(?f \<mapsto> NReg data mt)"
          using nv none changes_only_node [OF cu] hf by (auto simp: fun_eq_iff)
        ultimately show ?thesis using out x(2) by (auto simp: aw_contract_def)
      qed
    qed
  qed
qed

lemma atomic_write_contract:
  assumes rd: "real_dir (node_at s) d" and n: "valid_name n" "\<not> has_prefix n ''.cainjekt-''"
    and nl: "\<not> is_link (node_at s (d @ [n]))"
  shows "aw_contract d (d @ [n]) data
      (new_mode s (d @ [n]) (if wo_fallback_mode opt = 0 then 420 else wo_fallback_mode opt))
      s (atomic_write (abs_path (d @ [n])) data opt s)"
proof -
  let ?f = "d @ [n]" and ?fb = "if wo_fallback_mode opt = 0 then 420 else wo_fallback_mode opt"
  have dir: "path_dir (abs_path ?f) = abs_path d"
    using path_dir_abs_path [of d n] real_dir_names [OF rd] n(1) by simp
  have nolink: "\<not> (case sys_lstat s (abs_path ?f) of Inr n \<Rightarrow> is_link (Some n) | Inl _ \<Rightarrow> False)"
    using nl by (auto simp: sys_lstat_entry [OF rd n(1)] split: option.splits sum.splits)
  show ?thesis
  proof (cases "create_temp max_temp_tries (abs_path d) s")
    case (Pair r s1)
    show ?thesis
    proof (cases r)
      case (Inl e)
      then have same: "node_at s1 = node_at s" "changes_only {} s s1"
        using create_temp_Inl Pair by auto
      have "atomic_write (abs_path ?f) data opt s = (Inl e, s1)"
        using nolink Pair Inl dir by (simp add: atomic_write_def Let_def)
      then show ?thesis
        using same changes_only_mono [OF same(2)] changes_only_atomic [OF same(2)]
        by (simp add: aw_contract_def)
    next
      case (Inr th)
      obtain tmp h where th: "th = (tmp, h)" by (cases th)
      have made: "temp_made d tmp h s s1" using create_temp_Inr [OF rd] Pair Inr th by simp
      have c1: "changes_only {h} s s1" and h: "h \<in> temps d" using made by (auto simp: temp_made_def)
      have fh: "?f \<noteq> h" using h n(2) by (auto simp: temps_def temp_base_def has_prefix_def)
      have rd1: "real_dir (node_at s1) d"
        using real_dir_changes [OF rd c1] temps_not_prefix [OF h] by auto
      have same: "node_at s1 ?f = node_at s ?f" using changes_only_node [OF c1] fh by blast
      have "new_mode s1 ?f ?fb = new_mode s ?f ?fb"
        unfolding new_mode_def same changes_only_faults [OF c1] ..
      then have mode: "aw_mode s1 (abs_path ?f) ?fb = new_mode s ?f ?fb"
        using aw_mode_not_link [OF rd1 n(1)] nl same by simp
      have "atomic_write (abs_path ?f) data opt s =
          aw_rest tmp h (abs_path ?f) data (new_mode s ?f ?fb) (wo_preserve_owner opt)
            (aw_owner s1 (abs_path ?f)) s1"
        using nolink Pair Inr th dir mode by (simp add: atomic_write_def Let_def aw_rest_def)
      then show ?thesis using aw_rest_contract [OF rd n made] by simp
    qed
  qed
qed

text \<open>Whatever the target is, a link or a file named like a temporary one included, only it and
  temporary files of its directory change.\<close>

lemma atomic_write_changes:
  assumes rd: "real_dir (node_at s) d" and n: "valid_name n"
  shows "changes_only (insert (d @ [n]) (temps d)) s (snd (atomic_write (abs_path (d @ [n])) data opt s))"
proof -
  let ?f = "d @ [n]" and ?R = "insert (d @ [n]) (temps d)"
  have dir: "path_dir (abs_path ?f) = abs_path d"
    using path_dir_abs_path [of d n] real_dir_names [OF rd] n by simp
  have np: "p \<notin> ?R" if "prefix p d" for p using that temps_not_prefix by (auto simp: prefix_def)
  have run: "changes_only ?R s (snd (aw_rest tmp h (abs_path ?f) data mode p ow s1))"
    if made: "temp_made d tmp h s s1" for tmp h mode p ow s1
  proof -
    obtain k where h: "h = d @ [temp_base k]" and tmp: "tmp = abs_path h" and hd: "h \<in> ?R"
      and c1: "changes_only ?R s s1"
      using made changes_only_mono [of "{h}" s s1 ?R] by (auto simp: temp_made_def temps_def)
    have walk: "host_walk u False (abs_path (d @ [x])) = Inr (d @ [x])"
      if "changes_only ?R s u" "valid_name x" for u x
      using host_walk_entry [OF real_dir_changes [OF rd that(1) np] that(2)] .
    define out where "out = io_bind (aw_fill h data mode p ow) (\<lambda>_. sys_rename tmp (abs_path ?f)) s1"
    have fill: "changes_only ?R s (snd (aw_fill h data mode p ow s1))"
      by (rule changes_only_trans [OF c1 changes_only_mono [OF aw_fill_changes]]) (use hd in simp)
    have "changes_only ?R s1 (snd out)"
      unfolding out_def
    proof (rule io_bind_changes)
      show "changes_only ?R s1 (snd (aw_fill h data mode p ow s1))"
        by (rule changes_only_mono [OF aw_fill_changes]) (use hd in simp)
      fix x u assume "aw_fill h data mode p ow s1 = (Inr x, u)"
      then have "changes_only ?R s u" using fill by simp
      then show "changes_only ?R u (snd (sys_rename tmp (abs_path ?f) u))"
        using walk [of u] h tmp hd temp_base_valid n by (intro sys_rename_changes) auto
    qed
    then have out: "changes_only ?R s (snd out)" by (rule changes_only_trans [OF c1])
    have "changes_only ?R (snd out) (snd (sys_remove tmp (snd out)))"
      using walk [OF out temp_base_valid] h tmp hd by (intro sys_remove_changes) auto
    with out have "changes_only ?R s (snd (sys_remove tmp (snd out)))" by (rule changes_only_trans)
    then show ?thesis by (simp add: aw_rest_def out_def case_prod_beta)
  qed
  show ?thesis
  proof (cases "create_temp max_temp_tries (abs_path d) s")
    case (Pair r s1)
    show ?thesis
    proof (cases r)
      case (Inl e)
      then show ?thesis
        using create_temp_Inl [of _ _ _ e s1] Pair dir changes_only_mono [of "{}" s s1 ?R]
        by (auto simp: atomic_write_def Let_def)
    next
      case (Inr th)
      then have "temp_made d (fst th) (snd th) s s1" using create_temp_Inr [OF rd] Pair by simp
      from run [OF this] show ?thesis
        using Pair Inr dir by (auto simp: atomic_write_def Let_def aw_rest_def case_prod_beta)
    qed
  qed
qed

lemma atomic_write_refuses:
  assumes "wo_refuse_symlink opt" and "sys_lstat s path = Inr (NLink t)"
  shows "atomic_write path data opt s = (Inl (Msg ''refusing to overwrite symlink''), s)"
  using assms by (simp add: atomic_write_def)

end
