(* ===== verification/Container_Fs.thy ===== *)
theory Container_Fs
  imports Atomic_Write
begin

text \<open>
  \<open>internal/util/containerfs/containerfs.go\<close>: the only way hook-phase code touches the
  rootfs of a container. The rootfs is a host directory whose content the image author
  chose. This theory holds the operations; \<open>Container_Fs_Laws\<close> proves that the paths they
  hand to the kernel stay below the rootfs.
\<close>

definition max_read_size :: nat where "max_read_size = 16777216"

section \<open>Paths\<close>

definition path_in_rootfs :: "string \<Rightarrow> string \<Rightarrow> string" where
  "path_in_rootfs rootfs cp = path_join [rootfs, trim_prefix cp [slash]]"

definition split_container_path :: "string \<Rightarrow> string list" where
  "split_container_path p =
     (let clean = path_clean (slash # trim_space p)
      in if clean = [slash] then [] else split_on slash (trim_prefix clean [slash]))"

text \<open>
  The loop of \<open>ResolveSymlinks\<close>: \<open>resolved\<close> holds the components already known not to be
  links, \<open>remaining\<close> those still to be looked at. A link restarts the resolution at the
  rootfs with its target in front of what remains.
\<close>

function resolve_loop :: "fs \<Rightarrow> string \<Rightarrow> nat \<Rightarrow> string list \<Rightarrow> string list \<Rightarrow> string list res" where
  "resolve_loop s rootfs hops resolved [] = Inr resolved"
| "resolve_loop s rootfs hops resolved (part # remaining) =
     (let candidate = slash # join_with [slash] (resolved @ [part]);
          host = path_in_rootfs rootfs candidate
      in (case sys_lstat s host of
            Inl e \<Rightarrow>
              if e = ENOENT then Inr (resolved @ part # remaining)
              else Inl (Wrapped ''failed to stat'' (Sys e))
          | Inr fi \<Rightarrow>
              if \<not> is_link (Some fi) then resolve_loop s rootfs hops (resolved @ [part]) remaining
              else if max_hops < Suc hops then Inl (Msg ''too many symlink hops while resolving'')
              else (case sys_readlink s host of
                  Inl e \<Rightarrow> Inl (Wrapped ''failed to read symlink'' (Sys e))
                | Inr target \<Rightarrow>
                    let base = slash # join_with [slash] resolved;
                        target_container =
                          (if is_abs target then path_clean target
                           else path_clean (path_join [base, target]))
                    in resolve_loop s rootfs (Suc hops) []
                         (split_container_path target_container @ remaining))))"
  by pat_completeness auto
termination
  by (relation "measures [\<lambda>(s, r, hops, rs, rem). Suc max_hops - hops,
                          \<lambda>(s, r, hops, rs, rem). length rem]") (auto simp: max_hops_def)

declare resolve_loop.simps [simp del]

definition resolve_symlinks :: "fs \<Rightarrow> string \<Rightarrow> string \<Rightarrow> string res" where
  "resolve_symlinks s rootfs cp =
     (case resolve_loop s rootfs 0 [] (split_container_path cp) of
        Inl e \<Rightarrow> Inl e
      | Inr resolved \<Rightarrow> if resolved = [] then Inr [slash] else Inr (slash # join_with [slash] resolved))"

section \<open>Reading\<close>

definition read_regular_file :: "fs \<Rightarrow> string \<Rightarrow> bytes res" where
  "read_regular_file s host =
     (case sys_lstat s host of
        Inl e \<Rightarrow> Inl (Sys e)
      | Inr fi \<Rightarrow>
        if \<not> is_regular (Some fi) then Inl (Msg ''refusing to read: not a regular file'')
        else (case sys_open_read s True host of
            Inl e \<Rightarrow> Inl (Sys e)
          | Inr h \<Rightarrow> (case sys_fstat s h of
              Inl e \<Rightarrow> Inl (Sys e)
            | Inr fi' \<Rightarrow>
              if \<not> is_regular (Some fi') then Inl (Msg ''refusing to read: not a regular file'')
              else (case sys_read s h (Some (max_read_size + 1)) of
                  Inl e \<Rightarrow> Inl (Sys e)
                | Inr data \<Rightarrow>
                    if length data > max_read_size then Inl (Msg ''refusing to read: too large'')
                    else Inr data))))"

definition regular_file :: "fs \<Rightarrow> string \<Rightarrow> string \<Rightarrow> string \<times> bool" where
  "regular_file s rootfs cp =
     (case resolve_symlinks s rootfs cp of
        Inl _ \<Rightarrow> ([], False)
      | Inr resolved \<Rightarrow> (resolved,
          (case sys_lstat s (path_in_rootfs rootfs resolved) of
             Inl _ \<Rightarrow> False | Inr fi \<Rightarrow> is_regular (Some fi))))"

fun has_any_regular_file :: "fs \<Rightarrow> string \<Rightarrow> string list \<Rightarrow> bool" where
  "has_any_regular_file s rootfs [] = False"
| "has_any_regular_file s rootfs (p # ps) =
     (snd (regular_file s rootfs p) \<or> has_any_regular_file s rootfs ps)"

definition read_file :: "fs \<Rightarrow> string \<Rightarrow> string \<Rightarrow> bytes res \<times> string" where
  "read_file s rootfs cp =
     (case resolve_symlinks s rootfs cp of
        Inl e \<Rightarrow> (Inl e, [])
      | Inr resolved \<Rightarrow> (read_regular_file s (path_in_rootfs rootfs resolved), resolved))"

section \<open>Writing\<close>

definition rootfs_write_options :: write_options where
  "rootfs_write_options =
     \<lparr>wo_fallback_mode = 420, wo_refuse_symlink = True, wo_preserve_owner = True\<rparr>"

definition write_file :: "string \<Rightarrow> string \<Rightarrow> bytes \<Rightarrow> string io" where
  "write_file rootfs cp data s =
     (case resolve_symlinks s rootfs cp of
        Inl e \<Rightarrow> (Inl e, s)
      | Inr resolved \<Rightarrow>
        (let host = path_in_rootfs rootfs resolved in
         (case os_mkdir_all (path_dir host) 493 s of
            (Inl e, s1) \<Rightarrow> (Inl (Wrapped ''failed to create directory'' e), s1)
          | (Inr _, s1) \<Rightarrow>
            (case atomic_write host data rootfs_write_options s1 of
               (Inl e, s2) \<Rightarrow> (Inl (Wrapped ''failed to write'' e), s2)
             | (Inr _, s2) \<Rightarrow> (Inr resolved, s2)))))"

text \<open>\<open>Writable\<close>: create and remove a probe file at the top of the rootfs.\<close>

definition probe_name :: string where "probe_name = ''.cainjekt-probe''"

definition writable :: "string \<Rightarrow> fs \<Rightarrow> bool \<times> fs" where
  "writable rootfs s =
     (let probe = path_join [rootfs, probe_name] in
      (case sys_create probe 384 s of
         (Inl _, s1) \<Rightarrow> (False, s1)
       | (Inr _, s1) \<Rightarrow> (True, snd (sys_remove probe s1))))"

section \<open>Globbing\<close>

text \<open>
  \<open>Glob\<close> runs \<open>fs.Glob\<close> on an \<open>os.Root\<close>. A pattern is a list of components, each a name
  or a star; \<open>os.Root\<close> follows relative links that stay inside and treats an absolute
  link, or one that climbs out, as an error. \<open>root_walk\<close> is that walk, on paths relative
  to the rootfs.
\<close>

function root_walk :: "(fpath \<Rightarrow> node option) \<Rightarrow> nat \<Rightarrow> fpath \<Rightarrow> string list \<Rightarrow> fpath option" where
  "root_walk m hops cur [] = Some cur"
| "root_walk m hops cur (c # cs) =
     (if c = [] \<or> c = dot then root_walk m hops cur cs
      else if c = dotdot then (if cur = [] then None else root_walk m hops (butlast cur) cs)
      else (case m (cur @ [c]) of
          None \<Rightarrow> None
        | Some (NDir _) \<Rightarrow> root_walk m hops (cur @ [c]) cs
        | Some (NLink t) \<Rightarrow>
            if is_abs t \<or> hops = 0 then None
            else root_walk m (hops - 1) cur (comps t @ cs)
        | Some _ \<Rightarrow> if cs = [] then Some (cur @ [c]) else None))"
  by pat_completeness auto
termination
  by (relation "measures [\<lambda>(m, hops, cur, cs). hops, \<lambda>(m, hops, cur, cs). length cs]") auto

declare root_walk.simps [simp del]

text \<open>The number of links an \<open>os.Root\<close> follows.\<close>

definition root_max_links :: nat where "root_max_links = 8"

datatype glob_part = GName string | GStar

fun glob_match :: "glob_part \<Rightarrow> string \<Rightarrow> bool" where
  "glob_match (GName n) x = (x = n)"
| "glob_match GStar x = True"

fun has_meta :: "glob_part list \<Rightarrow> bool" where
  "has_meta [] = False"
| "has_meta (GStar # ps) = True"
| "has_meta (GName _ # ps) = has_meta ps"

fun glob_names :: "glob_part list \<Rightarrow> string list" where
  "glob_names [] = []"
| "glob_names (GName n # ps) = n # glob_names ps"
| "glob_names (GStar # ps) = ''*'' # glob_names ps"

text \<open>The entries of a directory of the root that match the last part of a pattern.\<close>

definition glob_dir :: "fs \<Rightarrow> fpath \<Rightarrow> string list \<Rightarrow> glob_part \<Rightarrow> string list list" where
  "glob_dir s root d part =
     (case root_walk (\<lambda>p. node_at s (root @ p)) root_max_links [] d of
        None \<Rightarrow> []
      | Some q \<Rightarrow>
          if is_dir (node_at s (root @ q))
          then map (\<lambda>n. d @ [n]) (filter (glob_match part) (dir_names (fs_nodes s) (root @ q)))
          else [])"

text \<open>\<open>fs.Glob\<close>, on the reversed pattern: without a star a plain existence test; otherwise the
  directories the front of the pattern matches, each searched for the last part.\<close>

fun glob_rev :: "fs \<Rightarrow> fpath \<Rightarrow> glob_part list \<Rightarrow> string list list" where
  "glob_rev s root [] = [[]]"
| "glob_rev s root (part # front) =
     (if \<not> has_meta (part # front) then
        (let p = glob_names (rev (part # front)) in
         case root_walk (\<lambda>p. node_at s (root @ p)) root_max_links [] p of
           None \<Rightarrow> [] | Some _ \<Rightarrow> [p])
      else if \<not> has_meta front then glob_dir s root (glob_names (rev front)) part
      else concat (map (\<lambda>d. glob_dir s root d part) (glob_rev s root front)))"

definition glob :: "fs \<Rightarrow> string \<Rightarrow> glob_part list \<Rightarrow> string list" where
  "glob s rootfs pattern =
     (case sys_stat s rootfs of
        Inr n \<Rightarrow> if is_dir (Some n)
          then (case host_walk s True rootfs of
                  Inr root \<Rightarrow> map (\<lambda>m. slash # join_with [slash] m) (glob_rev s root (rev pattern))
                | Inl _ \<Rightarrow> [])
          else []
      | Inl _ \<Rightarrow> [])"

end
