(* ===== verification/Container_Fs_Laws.thy ===== *)
theory Container_Fs_Laws
  imports Container_Fs
begin

text \<open>
  What the \<open>containerfs\<close> operations guarantee on a rootfs an attacker built: a resolved path
  has no link on it, so the kernel ends exactly where the code thinks it does; reads return
  whole regular files of bounded size from below the rootfs; writes change nothing outside
  the rootfs, on any error path and in any intermediate state.
\<close>

section \<open>Host paths of container paths\<close>

definition root_of :: "string \<Rightarrow> fpath" where
  "root_of rootfs = clean_comps True [] (comps rootfs)"

text \<open>The rootfs is an absolute host path to a directory reached without links.\<close>

definition root_ok :: "fs \<Rightarrow> string \<Rightarrow> bool" where
  "root_ok s rootfs = (wf_fs s \<and> is_abs rootfs \<and> real_dir (node_at s) (root_of rootfs))"

lemma root_of_valid [simp]: "valid_names (root_of rootfs)"
  using comps_parts by (auto simp: root_of_def intro!: clean_comps_rooted_valid)

lemma trim_slash_abs_path [simp]: "trim_prefix (abs_path ns) [slash] = join_with [slash] ns"
  using trim_prefix_append [of "[slash]" "join_with [slash] ns"] by (simp add: abs_path_def)

lemma path_in_rootfs_abs_path:
  "is_abs rootfs \<Longrightarrow> valid_names ns \<Longrightarrow> path_in_rootfs rootfs (abs_path ns) = abs_path (root_of rootfs @ ns)"
  by (simp add: path_in_rootfs_def path_join_two root_of_def)

lemma split_container_path_comps: "split_container_path p = comps (path_clean (slash # trim_space p))"
proof -
  define cs where "cs = clean_comps True [] (comps (slash # trim_space p))"
  have v: "valid_names cs"
    unfolding cs_def using comps_parts by (intro clean_comps_rooted_valid) auto
  have clean: "path_clean (slash # trim_space p) = abs_path cs"
    by (simp add: path_clean_abs_path cs_def)
  show ?thesis
  proof (cases "cs = []")
    case True
    then show ?thesis by (simp add: split_container_path_def clean Let_def abs_path_def)
  next
    case False
    have "join_with [slash] cs \<noteq> []"
      using join_with_eq_Nil [of "[slash]" cs] v False by (auto simp: list_all_iff valid_name_def)
    then have "abs_path cs \<noteq> [slash]" by (simp add: abs_path_def)
    moreover have "split_on slash (join_with [slash] cs) = cs"
      using v by (intro split_on_join [OF False]) (auto simp: list_all_iff valid_name_def)
    ultimately show ?thesis using v by (simp add: split_container_path_def clean Let_def)
  qed
qed

lemma split_container_path_valid [simp]: "valid_names (split_container_path p)"
  by (simp add: split_container_path_comps comps_path_clean_valid)

section \<open>Lstat on a path without links\<close>

lemma walk_clear_entry:
  assumes "clear m cur ns" and "valid_names (ns @ [n])" and "walk m False hops cur (ns @ [n]) = Inr q"
  shows "q = cur @ ns @ [n]"
  using assms
proof (induction ns arbitrary: cur)
  case Nil
  then show ?case
    by (auto simp: walk.simps valid_name_def split: option.splits node.splits)
next
  case (Cons x ns)
  from Cons.prems(1) have nl: "\<not> is_link (m (cur @ [x]))" and c: "clear m (cur @ [x]) ns"
    by (auto simp: clear_Cons)
  have x: "x \<noteq> []" "x \<noteq> dot" "x \<noteq> dotdot" and v: "valid_names (ns @ [n])"
    using Cons.prems(2) by (simp_all add: valid_name_simps)
  obtain mt where d: "m (cur @ [x]) = Some (NDir mt)"
    using Cons.prems(3) x nl by (auto simp: walk.simps split: option.splits node.splits)
  have "walk m False hops (cur @ [x]) (ns @ [n]) = Inr q"
    using Cons.prems(3) x d by (simp add: walk.simps)
  from Cons.IH [OF c v this] show ?case by simp
qed

lemma sys_lstat_clear:
  assumes "clear (node_at s) [] ns" and "valid_names (ns @ [n])"
    and "sys_lstat s (abs_path (ns @ [n])) = Inr x"
  shows "node_at s (ns @ [n]) = Some x"
proof -
  obtain q where "host_walk s False (abs_path (ns @ [n])) = Inr q" "node_at s q = Some x"
    using assms(3) by (auto simp: sys_lstat_def split: option.splits sum.splits)
  moreover from this(1) have "walk (node_at s) False max_hops [] (ns @ [n]) = Inr q"
    unfolding host_walk_def comps_abs_path [OF assms(2)] .
  from walk_clear_entry [OF assms(1,2) this] have "q = ns @ [n]" by simp
  ultimately show ?thesis by simp
qed

text \<open>Lstat says "not found" only when there is no such node.\<close>

lemma sys_lstat_missing:
  assumes "wf_fs s" and "sys_lstat s (abs_path (ns @ [n])) = Inl ENOENT"
    and "valid_names (ns @ [n])"
  shows "node_at s (ns @ [n]) = None"
proof (rule ccontr)
  assume a: "node_at s (ns @ [n]) \<noteq> None"
  then have "is_dir (node_at s ns)" "valid_name n"
    using assms(1) wf_treeD unfolding wf_fs_def by blast+
  then have "real_dir (node_at s) ns" using assms(1) wf_tree_real_dir unfolding wf_fs_def by blast
  from sys_lstat_entry [OF this \<open>valid_name n\<close>] a assms(2) show False
    by (auto split: option.splits)
qed

lemma clear_below_missing:
  assumes "wf_tree m" and "m (b @ [n]) = None" and "clear m b []"
  shows "clear m b (n # ns)"
proof -
  have "m (b @ p) = None" if p: "prefix p (n # ns)" "p \<noteq> []" for p
  proof -
    obtain q where "p = n # q" using prefix_Cons_nonempty [OF p] by blast
    then show ?thesis using wf_tree_below_missing [OF assms(1,2), of q] by simp
  qed
  then show ?thesis by (auto simp: clear_def)
qed

section \<open>ResolveSymlinks returns a path without links\<close>

lemma host_of_candidate:
  assumes "is_abs rootfs" and "valid_names (resolved @ [part])"
  shows "path_in_rootfs rootfs (slash # join_with [slash] (resolved @ [part])) =
    abs_path ((root_of rootfs @ resolved) @ [part])"
  using path_in_rootfs_abs_path [OF assms] by (simp add: abs_path_def)

lemma resolve_loop_clear:
  "root_ok s rootfs \<Longrightarrow> valid_names resolved \<Longrightarrow> valid_names remaining \<Longrightarrow>
   clear (node_at s) (root_of rootfs) resolved \<Longrightarrow>
   resolve_loop s rootfs hops resolved remaining = Inr res \<Longrightarrow>
   valid_names res \<and> clear (node_at s) (root_of rootfs) res"
proof (induction s rootfs hops resolved remaining rule: resolve_loop.induct)
  case (1 s rootfs hops resolved)
  then show ?case by (simp add: resolve_loop.simps)
next
  case (2 s rootfs hops resolved part remaining)
  let ?root = "root_of rootfs" and ?m = "node_at s"
  have abs: "is_abs rootfs" and wf: "wf_fs s" and rd: "real_dir ?m ?root"
    using "2.prems"(1) by (auto simp: root_ok_def)
  have part: "valid_name part" and v1: "valid_names (resolved @ [part])"
    and v2: "valid_names ((?root @ resolved) @ [part])" and vr: "valid_names remaining"
    using "2.prems"(2,3) by auto
  have host: "path_in_rootfs rootfs (slash # join_with [slash] (resolved @ [part])) =
      abs_path ((?root @ resolved) @ [part])"
    by (rule host_of_candidate [OF abs v1])
  have c0: "clear ?m [] (?root @ resolved)"
    using "2.prems"(4) real_dir_clear [OF rd] by (simp add: clear_append)
  note IH = "2.IH" [OF refl refl, unfolded host] and res = "2.prems"(5)
  show ?case
  proof (cases "sys_lstat s (abs_path ((?root @ resolved) @ [part]))")
    case (Inl e)
    then have e: "e = ENOENT" and r: "res = resolved @ part # remaining"
      using res by (auto simp: resolve_loop.simps host split: if_splits)
    have "?m ((?root @ resolved) @ [part]) = None"
      using sys_lstat_missing [OF wf _ v2] Inl e by simp
    then have "clear ?m (?root @ resolved) (part # remaining)"
      using wf by (intro clear_below_missing) (auto simp: wf_fs_def)
    then show ?thesis using "2.prems"(2-4) by (simp add: r clear_append)
  next
    case (Inr fi)
    have node: "?m ((?root @ resolved) @ [part]) = Some fi"
      by (rule sys_lstat_clear [OF c0 v2 Inr])
    show ?thesis
    proof (cases "is_link (Some fi)")
      case False
      have "resolve_loop s rootfs hops (resolved @ [part]) remaining = Inr res"
        using res Inr False by (simp add: resolve_loop.simps host)
      moreover have "clear ?m ?root (resolved @ [part])"
        using "2.prems"(4) node False by (simp add: clear_append clear_Cons)
      ultimately show ?thesis using IH(1) [OF Inr False "2.prems"(1) v1 vr] by blast
    next
      case True
      then have hops: "\<not> max_hops < Suc hops"
        using res Inr by (auto simp: resolve_loop.simps host split: if_splits)
      obtain target where t: "sys_readlink s (abs_path ((?root @ resolved) @ [part])) = Inr target"
        using res Inr True hops by (auto simp: resolve_loop.simps host split: sum.splits)
      let ?tc = "if is_abs target then path_clean target
        else path_clean (path_join [slash # join_with [slash] resolved, target])"
      have "resolve_loop s rootfs (Suc hops) [] (split_container_path ?tc @ remaining) = Inr res"
        using res Inr True hops t by (simp add: resolve_loop.simps host Let_def)
      then show ?thesis
        using IH(2) [OF Inr _ hops t refl refl "2.prems"(1)] True vr by simp
    qed
  qed
qed

lemma resolve_symlinks_Inr:
  assumes "resolve_symlinks s rootfs cp = Inr r"
  obtains res where "resolve_loop s rootfs 0 [] (split_container_path cp) = Inr res"
    and "r = abs_path res"
  using assms by (auto simp: resolve_symlinks_def abs_path_def split: sum.splits if_splits)

text \<open>The contract of \<open>ResolveSymlinks\<close>.\<close>

lemma resolve_clear:
  assumes "root_ok s rootfs" and "resolve_symlinks s rootfs cp = Inr r"
  obtains ns where "r = abs_path ns" and "valid_names ns" and "clear (node_at s) (root_of rootfs) ns"
    and "path_in_rootfs rootfs r = abs_path (root_of rootfs @ ns)"
    and "clear (node_at s) [] (root_of rootfs @ ns)"
proof -
  obtain res where res: "resolve_loop s rootfs 0 [] (split_container_path cp) = Inr res"
    and r: "r = abs_path res" using assms(2) by (rule resolve_symlinks_Inr)
  have v: "valid_names res \<and> clear (node_at s) (root_of rootfs) res"
    by (rule resolve_loop_clear [OF assms(1) _ _ _ res]) simp_all
  have rd: "real_dir (node_at s) (root_of rootfs)" and abs: "is_abs rootfs"
    using assms(1) by (auto simp: root_ok_def)
  show thesis
    using that [OF r] v path_in_rootfs_abs_path [OF abs] real_dir_clear [OF rd] r
    by (simp add: clear_append)
qed

lemma host_walk_resolved:
  assumes "root_ok s rootfs" and "resolve_symlinks s rootfs cp = Inr r"
    and "host_walk s fl (path_in_rootfs rootfs r) = Inr q"
  shows "q = root_of rootfs @ comps r"
proof -
  obtain ns where ns: "r = abs_path ns" "valid_names ns"
    and host: "path_in_rootfs rootfs r = abs_path (root_of rootfs @ ns)"
    and c: "clear (node_at s) [] (root_of rootfs @ ns)"
    using assms(1,2) by (rule resolve_clear)
  have v: "valid_names (root_of rootfs @ ns)" using ns(2) by simp
  have "walk (node_at s) fl max_hops [] (root_of rootfs @ ns) = Inr q"
    using assms(3) unfolding host_walk_def host comps_abs_path [OF v] .
  from walk_clear [OF c v this] show ?thesis using ns by simp
qed

section \<open>Reading\<close>

text \<open>A read returns the whole content of a regular file of at most 16 MiB at its host path.\<close>

lemma read_regular_file_Inr:
  assumes "read_regular_file s host = Inr data"
  obtains q mt where "host_walk s False host = Inr q" and "node_at s q = Some (NReg data mt)"
    and "length data \<le> max_read_size"
proof -
  obtain fi h fi' d where 1: "sys_open_read s True host = Inr h"
    and 2: "sys_fstat s h = Inr fi'" "is_regular (Some fi')"
    and 3: "sys_read s h (Some (max_read_size + 1)) = Inr d"
    and 4: "length d \<le> max_read_size" "d = data"
    using assms by (auto simp: read_regular_file_def split: sum.splits if_splits)
  have w: "host_walk s False host = Inr h"
    using 1 by (auto simp: sys_open_read_def split: option.splits sum.splits node.splits)
  obtain b mt where n: "node_at s h = Some (NReg b mt)"
    using 2 by (auto simp: sys_fstat_def split: option.splits elim: is_regular.elims)
  then have "d = take (max_read_size + 1) b"
    using 3 by (auto simp: sys_read_def split: option.splits)
  with 4 have "data = b" "length data \<le> max_read_size" by (auto simp: min_def split: if_splits)
  with w n show thesis using that by blast
qed

lemma read_file_Inr:
  assumes "root_ok s rootfs" and "read_file s rootfs cp = (Inr data, r)"
  shows "resolve_symlinks s rootfs cp = Inr r \<and> length data \<le> max_read_size \<and>
    (\<exists>mt. node_at s (root_of rootfs @ comps r) = Some (NReg data mt))"
proof -
  have r: "resolve_symlinks s rootfs cp = Inr r"
    and d: "read_regular_file s (path_in_rootfs rootfs r) = Inr data"
    using assms(2) by (auto simp: read_file_def split: sum.splits)
  obtain q mt where "host_walk s False (path_in_rootfs rootfs r) = Inr q"
    "node_at s q = Some (NReg data mt)" "length data \<le> max_read_size"
    using d by (rule read_regular_file_Inr)
  then show ?thesis using host_walk_resolved [OF assms(1) r] r by auto
qed

section \<open>Paths without links\<close>

text \<open>On a path without links \<open>ResolveSymlinks\<close> returns the path itself, cleaned.\<close>

lemma resolve_loop_no_links:
  "root_ok s rootfs \<Longrightarrow> valid_names (resolved @ remaining) \<Longrightarrow>
   clear (node_at s) (root_of rootfs) (resolved @ remaining) \<Longrightarrow>
   resolve_loop s rootfs hops resolved remaining = Inr res \<Longrightarrow> res = resolved @ remaining"
proof (induction remaining arbitrary: resolved)
  case (Cons part remaining)
  have abs: "is_abs rootfs" and rd: "real_dir (node_at s) (root_of rootfs)"
    using Cons.prems(1) by (auto simp: root_ok_def)
  have v1: "valid_names (resolved @ [part])" and v2: "valid_names ((root_of rootfs @ resolved) @ [part])"
    using Cons.prems(2) by auto
  note host = host_of_candidate [OF abs v1]
  have c0: "clear (node_at s) [] (root_of rootfs @ resolved)"
    using Cons.prems(3) real_dir_clear [OF rd] by (simp add: clear_append)
  have nl: "\<not> is_link (node_at s ((root_of rootfs @ resolved) @ [part]))"
    using Cons.prems(3) by (simp add: clear_append clear_Cons)
  show ?case
  proof (cases "sys_lstat s (abs_path ((root_of rootfs @ resolved) @ [part]))")
    case (Inl e)
    then show ?thesis using Cons.prems(4) by (auto simp: resolve_loop.simps host split: if_splits)
  next
    case (Inr fi)
    have "\<not> is_link (Some fi)" using sys_lstat_clear [OF c0 v2 Inr] nl by simp
    then have "resolve_loop s rootfs hops (resolved @ [part]) remaining = Inr res"
      using Cons.prems(4) Inr by (simp add: resolve_loop.simps host)
    then show ?thesis using Cons.IH [of "resolved @ [part]"] Cons.prems by simp
  qed
qed (simp add: resolve_loop.simps)

lemma resolve_symlinks_no_links:
  assumes "root_ok s rootfs" and "clear (node_at s) (root_of rootfs) (split_container_path cp)"
    and "resolve_symlinks s rootfs cp = Inr r"
  shows "r = abs_path (split_container_path cp)"
proof -
  obtain res where "resolve_loop s rootfs 0 [] (split_container_path cp) = Inr res" "r = abs_path res"
    using assms(3) by (rule resolve_symlinks_Inr)
  then show ?thesis
    using resolve_loop_no_links [OF assms(1), of "[]" "split_container_path cp" 0 res] assms(2) by simp
qed

text \<open>A resolved path that no trimming changes stands for itself.\<close>

lemma split_container_path_abs_path:
  assumes "valid_names ns" and "trim_space (abs_path ns) = abs_path ns"
  shows "split_container_path (abs_path ns) = ns"
  using assms by (simp add: split_container_path_comps path_clean_abs_path clean_comps_valid)

text \<open>A file that is reported missing is missing.\<close>

lemma resolve_loop_no_links_error:
  "root_ok s rootfs \<Longrightarrow> valid_names (resolved @ remaining) \<Longrightarrow>
   clear (node_at s) (root_of rootfs) (resolved @ remaining) \<Longrightarrow>
   resolve_loop s rootfs hops resolved remaining = Inl e \<Longrightarrow> \<not> is_not_exist e"
proof (induction remaining arbitrary: resolved)
  case (Cons part remaining)
  have abs: "is_abs rootfs" and rd: "real_dir (node_at s) (root_of rootfs)"
    using Cons.prems(1) by (auto simp: root_ok_def)
  have v1: "valid_names (resolved @ [part])" and v2: "valid_names ((root_of rootfs @ resolved) @ [part])"
    using Cons.prems(2) by auto
  note host = host_of_candidate [OF abs v1]
  have c0: "clear (node_at s) [] (root_of rootfs @ resolved)"
    using Cons.prems(3) real_dir_clear [OF rd] by (simp add: clear_append)
  have nl: "\<not> is_link (node_at s ((root_of rootfs @ resolved) @ [part]))"
    using Cons.prems(3) by (simp add: clear_append clear_Cons)
  show ?case
  proof (cases "sys_lstat s (abs_path ((root_of rootfs @ resolved) @ [part]))")
    case (Inl x)
    then show ?thesis using Cons.prems(4) by (auto simp: resolve_loop.simps host split: if_splits)
  next
    case (Inr fi)
    have "\<not> is_link (Some fi)" using sys_lstat_clear [OF c0 v2 Inr] nl by simp
    then have "resolve_loop s rootfs hops (resolved @ [part]) remaining = Inl e"
      using Cons.prems(4) Inr by (simp add: resolve_loop.simps host)
    then show ?thesis using Cons.IH [of "resolved @ [part]"] Cons.prems by simp
  qed
qed (simp add: resolve_loop.simps)

lemma read_file_missing:
  assumes ok: "root_ok s rootfs" and v: "valid_names (d @ [n])" and cl: "clear (node_at s) (root_of rootfs) (d @ [n])"
    and cp: "split_container_path cp = d @ [n]"
    and run: "fst (read_file s rootfs cp) = Inl e" and e: "is_not_exist e"
  shows "node_at s (root_of rootfs @ d @ [n]) = None"
proof -
  have abs: "is_abs rootfs" and wf: "wf_fs s" using ok by (auto simp: root_ok_def)
  have "\<nexists>x. resolve_symlinks s rootfs cp = Inl x \<and> is_not_exist x"
    using resolve_loop_no_links_error [OF ok, of "[]" "d @ [n]"] v cl
    by (auto simp: resolve_symlinks_def cp split: sum.splits if_splits)
  then obtain r where r: "resolve_symlinks s rootfs cp = Inr r" and rd: "read_regular_file s (path_in_rootfs rootfs r) = Inl e"
    using run e by (auto simp: read_file_def split: sum.splits)
  have r': "r = abs_path (d @ [n])" using resolve_symlinks_no_links [OF ok _ r] cl by (simp add: cp)
  have p: "path_in_rootfs rootfs r = abs_path ((root_of rootfs @ d) @ [n])"
    using path_in_rootfs_abs_path [OF abs v] by (simp add: r')
  have v2: "valid_names ((root_of rootfs @ d) @ [n])" using v by simp
  show ?thesis
  proof (cases "sys_lstat s (abs_path ((root_of rootfs @ d) @ [n]))")
    case (Inl x)
    then have "x = ENOENT" using rd e by (auto simp: read_regular_file_def p)
    then show ?thesis using sys_lstat_missing [OF wf _ v2] Inl by simp
  next
    case (Inr fi)
    obtain q where q: "host_walk s False (abs_path ((root_of rootfs @ d) @ [n])) = Inr q" "node_at s q = Some fi"
      using Inr by (auto simp: sys_lstat_def split: option.splits sum.splits)
    then have False using rd e Inr
      by (auto simp: read_regular_file_def p sys_open_read_def sys_fstat_def sys_read_def
          split: option.splits sum.splits node.splits if_splits)
    then show ?thesis ..
  qed
qed

end
