(* ===== verification/Container_Fs_Writes.thy ===== *)
theory Container_Fs_Writes
  imports Container_Fs_Laws
begin

text \<open>
  The writing half of \<open>containerfs\<close>: directories are only ever added on the way to the
  target, the target is replaced atomically, and nothing outside the rootfs changes as long
  as the target is not the rootfs directory itself.
\<close>

section \<open>Making directories\<close>

definition dirs_added :: "fpath \<Rightarrow> fs \<Rightarrow> fs \<Rightarrow> bool" where
  "dirs_added p s s' =
     (changes_only {q. prefix q p \<and> node_at s q = None} s s' \<and>
      (\<forall>q. is_link (node_at s' q) \<longrightarrow> is_link (node_at s q)))"

lemma dirs_added_refl [simp]: "dirs_added p s s"
  by (simp add: dirs_added_def)

lemma dirs_added_mono: "dirs_added p s s' \<Longrightarrow> prefix p p' \<Longrightarrow> dirs_added p' s s'"
  unfolding dirs_added_def
  by (auto elim!: changes_only_mono intro: prefix_order.trans)

lemma dirs_added_existing: "dirs_added p s s' \<Longrightarrow> node_at s q \<noteq> None \<Longrightarrow> node_at s' q = node_at s q"
  unfolding dirs_added_def by (auto intro: changes_only_node)

lemma dirs_added_missing: "dirs_added p s s' \<Longrightarrow> node_at s' q = None \<Longrightarrow> node_at s q = None"
  using dirs_added_existing by fastforce

lemma dirs_added_trans:
  assumes "dirs_added p s s'" and "dirs_added p s' s''"
  shows "dirs_added p s s''"
proof -
  have "{q. prefix q p \<and> node_at s' q = None} \<subseteq> {q. prefix q p \<and> node_at s q = None}"
    using dirs_added_missing [OF assms(1)] by auto
  then have "changes_only {q. prefix q p \<and> node_at s q = None} s' s''"
    using assms(2) changes_only_mono unfolding dirs_added_def by blast
  then show ?thesis using assms changes_only_trans unfolding dirs_added_def by blast
qed

lemma dirs_added_clear: "dirs_added p s s' \<Longrightarrow> clear (node_at s) b ns \<Longrightarrow> clear (node_at s') b ns"
  by (rule clear_cong) (auto simp: dirs_added_def)

lemma sys_mkdir_spec:
  assumes wf: "wf_fs s" and c: "clear (node_at s) [] p" and v: "valid_names p"
    and run: "sys_mkdir p mode s = (r, s')"
  shows "dirs_added p s s' \<and> wf_fs s' \<and> (r = Inr () \<longrightarrow> is_dir (node_at s' p))"
proof (cases r)
  case (Inl e)
  then have "s' = s" using run by (auto simp: sys_mkdir_def split: option.splits sum.splits if_splits)
  then show ?thesis using wf Inl by simp
next
  case (Inr u)
  then obtain q where q: "walk (node_at s) False max_hops [] p = Inr q" "node_at s q = None"
    and s1: "touch_dir q (stamp q (put_node q (NDir \<lparr>fmode = mode, fuid = 0, fgid = 0\<rparr>) s)) = s'"
    using run by (auto simp: sys_mkdir_def split: option.splits sum.splits if_splits)
  note s' = s1 [symmetric]
  have qp: "q = p" using walk_clear [OF c v q(1)] by simp
  have "comps (abs_path p) = p" using v by simp
  then have "host_walk s False (abs_path p) = Inr p" using q(1) qp by (simp add: host_walk_def)
  from host_walk_result [OF wf this] q(2) qp obtain e n where
    p: "p = e @ [n]" "is_dir (node_at s e)" "valid_name n" by auto
  have "wf_fs s'"
    using wf_tree_put [of "node_at s" e n] wf p qp s' unfolding wf_fs_def by simp
  moreover have "dirs_added p s s'"
    using q(2) s' qp
    by (auto simp: dirs_added_def fun_upd_apply intro!: changes_only_put split: if_splits)
  ultimately show ?thesis using s' qp by simp
qed

lemma sys_stat_clear:
  assumes "clear (node_at s) [] p" and "valid_names p" and "sys_stat s (abs_path p) = Inr x"
  shows "node_at s p = Some x"
proof -
  obtain q where "host_walk s True (abs_path p) = Inr q" "node_at s q = Some x"
    using assms(3) by (auto simp: sys_stat_def split: option.splits sum.splits)
  then show ?thesis
    using walk_clear [OF assms(1,2)] unfolding host_walk_def comps_abs_path [OF assms(2)] by fastforce
qed

lemma mkdir_all_rev_spec:
  "wf_fs s \<Longrightarrow> clear (node_at s) [] (rev rp) \<Longrightarrow> valid_names rp \<Longrightarrow> mkdir_all_rev rp mode s = (r, s') \<Longrightarrow>
   dirs_added (rev rp) s s' \<and> wf_fs s' \<and> (r = Inr () \<longrightarrow> is_dir (node_at s' (rev rp)))"
proof (induction rp arbitrary: s r s')
  case Nil
  show ?case
  proof (cases "sys_stat s (abs_path [])")
    case (Inl e)
    then have "sys_mkdir [] mode s = (r, s')" using Nil.prems(4) by (simp add: mkdir_all_rev.simps)
    from sys_mkdir_spec [OF Nil.prems(1) _ _ this] show ?thesis by simp
  next
    case (Inr n)
    then show ?thesis
      using Nil.prems sys_stat_clear [of s "[]" n] by (auto simp: mkdir_all_rev.simps split: if_splits)
  qed
next
  case (Cons c parent)
  let ?p = "rev (c # parent)"
  have v: "valid_names ?p" and vp: "valid_names parent"
    using Cons.prems(3) by (auto simp: list_all_iff)
  show ?case
  proof (cases "sys_stat s (abs_path ?p)")
    case (Inr n)
    then have n: "node_at s ?p = Some n" using sys_stat_clear [OF Cons.prems(2) v] by simp
    then show ?thesis
      using Cons.prems(1,4) Inr by (auto simp: mkdir_all_rev.simps simp del: rev.simps split: if_splits)
  next
    case (Inl e)
    obtain r1 s1 where m1: "mkdir_all_rev parent mode s = (r1, s1)" by (cases "mkdir_all_rev parent mode s")
    have cp: "clear (node_at s) [] (rev parent)" using Cons.prems(2) by (simp add: clear_append)
    have d1: "dirs_added ?p s s1" and wf1: "wf_fs s1"
      using Cons.IH [OF Cons.prems(1) cp vp m1] dirs_added_mono [of "rev parent" s s1 ?p] by auto
    have c1: "clear (node_at s1) [] ?p" by (rule dirs_added_clear [OF d1 Cons.prems(2)])
    obtain r2 s2 where m2: "sys_mkdir ?p mode s1 = (r2, s2)" by (cases "sys_mkdir ?p mode s1")
    have d2: "dirs_added ?p s s2" and wf2: "wf_fs s2"
      and dir2: "r2 = Inr () \<longrightarrow> is_dir (node_at s2 ?p)"
      using sys_mkdir_spec [OF wf1 c1 v m2] dirs_added_trans [OF d1] by auto
    have c2: "clear (node_at s2) [] (rev parent)"
      using dirs_added_clear [OF d2 cp] .
    have lstat: "node_at s2 ?p = Some x" if "sys_lstat s2 (abs_path ?p) = Inr x" for x
      using sys_lstat_clear [OF c2, of c x] v that by simp
    show ?thesis
      using Cons.prems(4) Inl m1 m2 d1 wf1 d2 wf2 dir2 lstat
      by (auto simp: mkdir_all_rev.simps simp del: rev.simps split: sum.splits if_splits)
  qed
qed

section \<open>WriteFile\<close>

text \<open>A written path: it resolves to an entry \<open>n\<close> of the directory \<open>d\<close> below the rootfs.\<close>

lemma write_file_steps:
  assumes ok: "root_ok s rootfs" and res: "resolve_symlinks s rootfs cp = Inr r" and nr: "r \<noteq> [slash]"
  obtains d n where "root_of rootfs @ comps r = d @ [n]" and "valid_names (d @ [n])"
    and "prefix (root_of rootfs) d" and "\<not> is_link (node_at s (d @ [n]))"
    and "clear (node_at s) [] d"
    and "path_in_rootfs rootfs r = abs_path (d @ [n])" and "path_dir (path_in_rootfs rootfs r) = abs_path d"
proof -
  obtain ns where ns: "r = abs_path ns" "valid_names ns"
    and host: "path_in_rootfs rootfs r = abs_path (root_of rootfs @ ns)"
    and c: "clear (node_at s) [] (root_of rootfs @ ns)"
    using ok res by (rule resolve_clear)
  have "ns \<noteq> []" using ns(1) nr by (auto simp: abs_path_def)
  then obtain e n where e: "ns = e @ [n]" by (cases ns rule: rev_cases) auto
  have v: "valid_names ((root_of rootfs @ e) @ [n])" using ns(2) e by simp
  show thesis
  proof (rule that [of "root_of rootfs @ e" n])
    show "path_dir (path_in_rootfs rootfs r) = abs_path (root_of rootfs @ e)"
      using path_dir_abs_path [OF v] host e by simp
  qed (use v c ns host e in \<open>auto simp: clear_append clear_Cons\<close>)
qed

lemma write_file_mkdir:
  assumes ok: "root_ok s rootfs" and c: "clear (node_at s) [] d" and v: "valid_names d"
    and run: "os_mkdir_all (abs_path d) mode s = (r, s1)"
  shows "dirs_added d s s1" and "wf_fs s1" and "r = Inr () \<Longrightarrow> real_dir (node_at s1) d"
proof -
  have "mkdir_all_rev (rev d) mode s = (r, s1)" using run v by (simp add: os_mkdir_all_def)
  then have *: "dirs_added d s s1 \<and> wf_fs s1 \<and> (r = Inr () \<longrightarrow> is_dir (node_at s1 d))"
    using mkdir_all_rev_spec [of s "rev d"] ok c v by (auto simp: root_ok_def list_all_iff)
  then show "dirs_added d s s1" "wf_fs s1" by simp_all
  show "real_dir (node_at s1) d" if "r = Inr ()"
    using * that wf_tree_real_dir by (auto simp: wf_fs_def)
qed

text \<open>New directories lie strictly below the rootfs, which exists already.\<close>

lemma new_dirs_below:
  assumes "root_ok s rootfs" and "prefix q d" and "prefix (root_of rootfs) d" and "node_at s q = None"
  shows "strict_prefix (root_of rootfs) q"
proof -
  have "\<not> prefix q (root_of rootfs)"
    using assms(1,4) is_dir_not_None by (auto simp: root_ok_def real_dir_def)
  then show ?thesis
    using prefix_same_cases [OF assms(2,3)] by (auto simp: strict_prefix_def)
qed

lemma write_file_changes:
  assumes ok: "root_ok s rootfs" and nr: "resolve_symlinks s rootfs cp \<noteq> Inr [slash]"
  shows "changes_only {q. strict_prefix (root_of rootfs) q} s (snd (write_file rootfs cp data s))"
proof (cases "resolve_symlinks s rootfs cp")
  case (Inr r)
  let ?R = "{q. strict_prefix (root_of rootfs) q}"
  have "r \<noteq> [slash]" using Inr nr by auto
  from write_file_steps [OF ok Inr this] obtain d n where dn: "valid_names (d @ [n])"
    "prefix (root_of rootfs) d" "clear (node_at s) [] d"
    and host: "path_in_rootfs rootfs r = abs_path (d @ [n])" "path_dir (path_in_rootfs rootfs r) = abs_path d"
    by metis
  obtain r1 s1 where m: "os_mkdir_all (abs_path d) 493 s = (r1, s1)" by (cases "os_mkdir_all (abs_path d) 493 s")
  note made = write_file_mkdir [OF ok dn(3) _ m]
  have vd: "valid_names d" "valid_name n" using dn(1) by auto
  have c1: "changes_only ?R s s1"
    using made(1) [OF vd(1)] new_dirs_below [OF ok _ dn(2)] unfolding dirs_added_def
    by (auto elim!: changes_only_mono)
  show ?thesis
  proof (cases r1)
    case (Inl e)
    then show ?thesis using Inr m host c1 by (simp add: write_file_def)
  next
    case (Inr u)
    then have rd: "real_dir (node_at s1) d" using made(3) [OF vd(1)] by simp
    have "changes_only ?R s1 (snd (atomic_write (abs_path (d @ [n])) data rootfs_write_options s1))"
      by (rule changes_only_mono [OF atomic_write_changes [OF rd vd(2)]])
        (use dn(2) in \<open>auto simp: temps_def strict_prefix_def prefix_def\<close>)
    with c1 have "changes_only ?R s (snd (atomic_write (abs_path (d @ [n])) data rootfs_write_options s1))"
      by (rule changes_only_trans)
    then show ?thesis
      using \<open>resolve_symlinks s rootfs cp = Inr r\<close> m host Inr
      by (auto simp: write_file_def split: prod.split sum.split)
  qed
qed (simp add: write_file_def)

text \<open>A successful write: the target holds the data with the kept mode, and every other node that
  existed is as before.\<close>

lemma write_file_Inr:
  assumes ok: "root_ok s rootfs" and run: "write_file rootfs cp data s = (Inr r, s')"
    and nr: "r \<noteq> [slash]" and nt: "\<not> has_prefix (last (comps r)) ''.cainjekt-''"
  shows "resolve_symlinks s rootfs cp = Inr r"
    and "\<exists>mt. node_at s' (root_of rootfs @ comps r) = Some (NReg data mt) \<and>
           fmode mt = new_mode s (root_of rootfs @ comps r) 420"
    and "\<And>q. node_at s q \<noteq> None \<Longrightarrow> q \<noteq> root_of rootfs @ comps r \<Longrightarrow> node_at s' q = node_at s q"
    and "aw_atomic (root_of rootfs @ comps r) data (new_mode s (root_of rootfs @ comps r) 420) s s'"
proof -
  show res: "resolve_symlinks s rootfs cp = Inr r"
    using run by (auto simp: write_file_def Let_def split: sum.splits prod.splits)
  obtain d n where f: "root_of rootfs @ comps r = d @ [n]" and dn: "valid_names (d @ [n])"
    "prefix (root_of rootfs) d" "\<not> is_link (node_at s (d @ [n]))" "clear (node_at s) [] d"
    and host: "path_in_rootfs rootfs r = abs_path (d @ [n])" "path_dir (path_in_rootfs rootfs r) = abs_path d"
    using write_file_steps [OF ok res nr] .
  obtain r1 s1 where m: "os_mkdir_all (abs_path d) 493 s = (r1, s1)" by (cases "os_mkdir_all (abs_path d) 493 s")
  have vd: "valid_names d" "valid_name n" using dn(1) by auto
  note made = write_file_mkdir [OF ok dn(4) vd(1) m]
  have r1: "r1 = Inr ()" and aw: "atomic_write (abs_path (d @ [n])) data rootfs_write_options s1 = (Inr (), s')"
    using run res m host by (auto simp: write_file_def split: sum.splits prod.splits)
  have "comps r \<noteq> []"
  proof
    assume "comps r = []"
    then have "prefix (d @ [n]) d" using f dn(2) by simp
    then show False by (auto simp: prefix_def)
  qed
  then have n: "n = last (comps r)" using arg_cong [OF f, of last] by (simp split: if_splits)
  let ?f = "d @ [n]"
  have chg: "changes_only {q. prefix q d \<and> node_at s q = None} s s1"
    using made(1) by (simp add: dirs_added_def)
  have fR: "?f \<notin> {q. prefix q d \<and> node_at s q = None}" by (auto simp: prefix_def)
  have same: "node_at s1 ?f = node_at s ?f" by (rule changes_only_node [OF chg fR])
  have mode: "new_mode s1 ?f 420 = new_mode s ?f 420"
    unfolding new_mode_def same changes_only_faults [OF chg] ..
  have c: "aw_contract d ?f data (new_mode s ?f 420) s1 (Inr (), s')"
    using atomic_write_contract [OF made(3) [OF r1] vd(2), of data rootfs_write_options] nt n dn(3) same mode aw
    by (simp add: rootfs_write_options_def)
  then obtain mt where mt: "fmode mt = new_mode s ?f 420" "node_at s' = (node_at s1)(?f \<mapsto> NReg data mt)"
    by (auto simp: aw_contract_def)
  then show "\<exists>mt. node_at s' (root_of rootfs @ comps r) = Some (NReg data mt) \<and>
      fmode mt = new_mode s (root_of rootfs @ comps r) 420"
    using f by simp
  show "node_at s' q = node_at s q" if "node_at s q \<noteq> None" "q \<noteq> root_of rootfs @ comps r" for q
    using mt(2) that f dirs_added_existing [OF made(1) that(1)] by simp
  show "aw_atomic (root_of rootfs @ comps r) data (new_mode s (root_of rootfs @ comps r) 420) s s'"
    using aw_atomic_step [OF chg fR] c f by (simp add: aw_contract_def)
qed

section \<open>Writable\<close>

lemma writable_probe:
  assumes "root_ok s rootfs"
  shows "changes_only {root_of rootfs @ [probe_name]} s (snd (writable rootfs s))"
proof -
  let ?R = "{root_of rootfs @ [probe_name]}"
  have v: "valid_name probe_name"
    by (simp add: valid_name_def probe_name_def dot_def dotdot_def slash_def)
  have abs: "is_abs rootfs" and rd: "real_dir (node_at s) (root_of rootfs)"
    using assms by (auto simp: root_ok_def)
  have probe: "path_join [rootfs, probe_name] = abs_path (root_of rootfs @ [probe_name])"
    using path_join_two [OF abs, of "[probe_name]"] v by (simp add: root_of_def)
  have walk: "host_walk u False (abs_path (root_of rootfs @ [probe_name])) = Inr (root_of rootfs @ [probe_name])"
    if "changes_only ?R s u" for u
  proof -
    have "real_dir (node_at u) (root_of rootfs)"
      by (rule real_dir_changes [OF rd that]) (auto simp: prefix_def)
    then show ?thesis using v by (rule host_walk_entry)
  qed
  define c where "c = sys_create (abs_path (root_of rootfs @ [probe_name])) 384 s"
  have c1: "changes_only ?R s (snd c)"
    unfolding c_def using walk [of s] by (intro sys_create_changes) auto
  have "changes_only ?R (snd c) (snd (sys_remove (abs_path (root_of rootfs @ [probe_name])) (snd c)))"
    using walk [OF c1] by (intro sys_remove_changes) auto
  with c1 have "changes_only ?R s (snd (sys_remove (abs_path (root_of rootfs @ [probe_name])) (snd c)))"
    by (rule changes_only_trans)
  then show ?thesis
    using c1 by (auto simp: writable_def probe Let_def c_def split: prod.split sum.split)
qed

lemma writable_changes:
  assumes "root_ok s rootfs"
  shows "changes_only {q. strict_prefix (root_of rootfs) q} s (snd (writable rootfs s))"
  by (rule changes_only_mono [OF writable_probe [OF assms]]) (auto simp: strict_prefix_def)

end
