(* ===== verification/Sample_Fs.thy ===== *)
theory Sample_Fs
  imports Vfs_Laws
begin

text \<open>
  Concrete file systems for the witnesses: a tree given as an association list, on a machine
  where no call fails for a reason of its own. \<open>wf_tree_check\<close> decides well-formedness of
  such a tree by evaluation.
\<close>

definition no_faults :: "syscall \<Rightarrow> fpath \<Rightarrow> fault option" where
  "no_faults c p = None"

definition dir_node :: node where
  "dir_node = NDir \<lparr>fmode = 493, fuid = 0, fgid = 0\<rparr>"

definition file_node :: "bytes \<Rightarrow> node" where
  "file_node b = NReg b \<lparr>fmode = 420, fuid = 0, fgid = 0\<rparr>"

definition fs_of :: "tree \<Rightarrow> fs" where
  "fs_of t = \<lparr>fs_nodes = t, fs_mtimes = (\<lambda>p. 0), fs_faults = no_faults, fs_short = 0,
     fs_rand = (\<lambda>n. n), fs_rand_ix = 0, fs_clock = 1, fs_trace = []\<rparr>"

lemma node_at_fs_of [simp]: "node_at (fs_of t) = map_of t"
  by (simp add: node_at_def [abs_def] fs_of_def)

lemma fs_faults_fs_of [simp]: "fs_faults (fs_of t) c p = None"
  by (simp add: fs_of_def no_faults_def)

definition wf_tree_check :: "tree \<Rightarrow> bool" where
  "wf_tree_check t = (is_dir (map_of t []) \<and>
     list_all (\<lambda>(p, n). p = [] \<or> valid_name (last p) \<and> is_dir (map_of t (butlast p))) t)"

lemma wf_fs_of:
  assumes "wf_tree_check t"
  shows "wf_fs (fs_of t)"
proof -
  have "valid_name n \<and> is_dir (map_of t p)" if "map_of t (p @ [n]) \<noteq> None" for p n
  proof -
    from that obtain x where "map_of t (p @ [n]) = Some x" by blast
    then have "(p @ [n], x) \<in> set t" by (rule map_of_SomeD)
    then show ?thesis using assms by (fastforce simp: wf_tree_check_def list_all_iff)
  qed
  then show ?thesis using assms by (simp add: wf_fs_def wf_tree_def wf_tree_check_def)
qed

lemma real_dir_fs_of:
  assumes "wf_tree_check t" and "is_dir (map_of t d)"
  shows "real_dir (node_at (fs_of t)) d"
  using wf_tree_real_dir [of "map_of t" d] wf_fs_of [OF assms(1)] assms(2) by (simp add: wf_fs_def)

end
