(* ===== verification/Container_Fs_Safety.thy ===== *)
theory Container_Fs_Safety
  imports Container_Fs_Writes Sample_Fs
begin

text \<open>
  The promises of \<open>containerfs\<close> and \<open>fsx\<close> to the hook, for any rootfs content: what a write
  may touch, what a crash may leave behind, what a read may return, and the one path for
  which a write leaves the rootfs.
\<close>

section \<open>A container for the witnesses\<close>

text \<open>A rootfs at \<open>/r\<close> with an absolute link, a relative link that climbs, and a link to the
  root directory itself; \<open>/host\<close> is a file of the host.\<close>

definition sample_tree :: tree where
  "sample_tree = [([], dir_node), ([''r''], dir_node), ([''host''], file_node ''secret''),
     ([''r'', ''etc''], dir_node), ([''r'', ''etc'', ''ca.crt''], file_node ''OLD''),
     ([''r'', ''abs''], NLink ''/etc''), ([''r'', ''etc'', ''up''], NLink ''../../../host''),
     ([''r'', ''top''], NLink ''/''), ([''r'', ''fifo''], NSpecial \<lparr>fmode = 420, fuid = 0, fgid = 0\<rparr>)]"

lemma sample_wf: "wf_tree_check sample_tree"
  by code_simp

lemma sample_root_of: "root_of ''/r'' = [''r'']"
  by code_simp

lemma sample_root_ok: "root_ok (fs_of sample_tree) ''/r''"
proof -
  have "is_dir (map_of sample_tree [''r''])" "is_abs ''/r''" by code_simp+
  then show ?thesis
    using wf_fs_of [OF sample_wf] real_dir_fs_of [OF sample_wf] by (simp add: root_ok_def sample_root_of)
qed

section \<open>Writes\<close>

text \<open>
  C4: whatever links the image holds and whichever system call fails, a write to a container
  path that does not resolve to the root directory changes nothing outside the rootfs: every
  host node outside it is the same afterwards, and was the same in every intermediate tree
  that a crash could have left behind.
\<close>

theorem write_file_confined:
  assumes "root_ok s rootfs" and "resolve_symlinks s rootfs cp \<noteq> Inr [slash]"
    and "\<not> strict_prefix (root_of rootfs) p"
  shows "node_at (snd (write_file rootfs cp data s)) p = node_at s p \<and>
    (\<exists>ts. fs_trace (snd (write_file rootfs cp data s)) = ts @ fs_trace s \<and>
       (\<forall>t \<in> set ts. map_of t p = node_at s p))"
  using write_file_changes [OF assms(1,2), of data] assms(3) unfolding changes_only_def by auto

theorem write_file_confined_witness:
  "node_at (snd (write_file ''/r'' ''/abs/up'' ''NEW'' (fs_of sample_tree))) [''host''] = Some (file_node ''secret'')"
proof -
  have "resolve_symlinks (fs_of sample_tree) ''/r'' ''/abs/up'' = Inr ''/host''" by code_simp
  then have r: "resolve_symlinks (fs_of sample_tree) ''/r'' ''/abs/up'' \<noteq> Inr [slash]"
    by (simp add: slash_def)
  have "\<not> strict_prefix (root_of ''/r'') [''host'']" by (simp add: sample_root_of strict_prefix_def)
  moreover have "map_of sample_tree [''host''] = Some (file_node ''secret'')" by (simp add: sample_tree_def)
  ultimately show ?thesis
    using write_file_confined [OF sample_root_ok r] by simp
qed

text \<open>A write that nothing disturbs, up to the point where the temporary file is complete.\<close>

lemma aw_fill_undisturbed:
  assumes f: "\<forall>c p. fs_faults s c p = None" and n: "node_at s h = Some (NReg [] mt)"
  obtains u where "aw_fill h data mode p ow s = (Inr (), u)" and "changes_only {h} s u"
    and "\<exists>t \<in> set (fs_trace u). map_of t h = Some (NReg data mt)" and "\<exists>mt'. node_at u h = Some (NReg data mt')"
    and "\<forall>c p. fs_faults u c p = None"
proof -
  define s2 where "s2 = put_node h (NReg data mt) s"
  define s3 where "s3 = put_node h (NReg data (mt\<lparr>fmode := mode\<rparr>)) s2"
  have w: "sys_write h data s = (Inr (), s2)" using f n by (simp add: sys_write_def s2_def)
  have m: "sys_chmod h mode s2 = (Inr (), s3)" using f by (simp add: sys_chmod_def s2_def s3_def)
  have f3: "fs_faults s3 c q = None" for c q using f by (simp add: s3_def s2_def)
  obtain u where u: "aw_chown h p ow s3 = (Inr (), u)"
  proof -
    have "node_at s3 h = Some (NReg data (mt\<lparr>fmode := mode\<rparr>))" by (simp add: s3_def)
    then have "fst (aw_chown h p ow s3) = Inr ()"
      using f3 by (simp add: aw_chown_def sys_chown_def split: option.split prod.split)
    then show thesis using that by (metis prod.collapse)
  qed
  have cu: "changes_only {h} s3 u" using aw_chown_changes [of h "{h}" s3 p ow] u by simp
  have fu: "\<forall>c p. fs_faults u c p = None" using changes_only_faults [OF cu] f3 by simp
  have run: "aw_fill h data mode p ow s = (Inr (), u)"
    using w m u fu by (simp add: aw_fill_def io_bind_def sys_check_def)
  obtain ts where "fs_trace u = ts @ fs_trace s3" using cu by (auto simp: changes_only_def)
  then have "AList.update h (NReg data mt) (fs_nodes s) \<in> set (fs_trace u)" by (simp add: s3_def s2_def)
  then have "\<exists>t \<in> set (fs_trace u). map_of t h = Some (NReg data mt)" 
    by (rule bexI [rotated]) (simp add: update_conv')
  moreover have "changes_only {h} s u" using aw_fill_changes [of h s data mode p ow] run by simp
  ultimately show thesis using that [OF run] aw_fill_Inr [OF n run] fu by auto
qed

lemma create_temp_free:
  assumes "\<forall>c p. fs_faults s c p = None" and "real_dir (node_at s) d"
    and "node_at s (d @ [temp_base (fs_rand s (fs_rand_ix s))]) = None"
  shows "\<exists>s1. create_temp n (abs_path d) s =
    (Inr (abs_path (d @ [temp_base (fs_rand s (fs_rand_ix s))]), d @ [temp_base (fs_rand s (fs_rand_ix s))]), s1)"
proof -
  let ?h = "d @ [temp_base (fs_rand s (fs_rand_ix s))]"
  define s0 where "s0 = s\<lparr>fs_rand_ix := Suc (fs_rand_ix s)\<rparr>"
  have "real_dir (node_at s0) d" using assms(2) by (simp add: s0_def)
  from host_walk_entry [OF this temp_base_valid]
  have w: "host_walk s0 False (abs_path ?h) = Inr ?h" .
  have "\<exists>s1. sys_create (abs_path ?h) 384 s0 = (Inr ?h, s1)"
    using assms(1,3) w by (simp add: sys_create_def s0_def)
  then show ?thesis
    using temp_name_abs_path [OF real_dir_names [OF assms(2)]]
    by (subst create_temp.simps) (auto simp: Let_def s0_def)
qed

text \<open>
  C5: the exception. Whenever a container path resolves to the root directory of the
  container, which an image can arrange with a link to \<open>/\<close>, the write creates its temporary
  file in the directory above the rootfs, which belongs to the host, with the whole content:
  there is an intermediate tree, left behind by a crash, that holds it. The write then always
  fails, since a directory cannot be replaced, and removes the file again. No call fails for a
  reason of its own and the name drawn for the temporary file is free.
\<close>

theorem write_file_root_link_leaves_rootfs:
  assumes "root_ok s rootfs" and "root_of rootfs = d @ [n]" and "resolve_symlinks s rootfs cp = Inr [slash]"
    and "\<forall>c p. fs_faults s c p = None" and "node_at s (d @ [temp_base (fs_rand s (fs_rand_ix s))]) = None"
  shows "\<not> prefix (root_of rootfs) (d @ [temp_base (fs_rand s (fs_rand_ix s))]) \<and>
    (\<exists>e s'. write_file rootfs cp data s = (Inl e, s') \<and> node_at s' = node_at s \<and>
       (\<exists>t \<in> set (fs_trace s'). \<exists>mt. map_of t (d @ [temp_base (fs_rand s (fs_rand_ix s))]) = Some (NReg data mt)))"
proof -
  let ?f = "d @ [n]" and ?h = "d @ [temp_base (fs_rand s (fs_rand_ix s))]"
  have abs: "is_abs rootfs" and rdf: "real_dir (node_at s) ?f" using assms(1,2) by (auto simp: root_ok_def)
  have rd: "real_dir (node_at s) d" by (rule real_dir_prefix [OF rdf])
  have v: "valid_names ?f" "valid_name n" using rdf by (auto simp: real_dir_def)
  have dirf: "is_dir (node_at s ?f)" using rdf by (simp add: real_dir_def)
  have hf: "?h \<noteq> ?f" using assms(5) is_dir_not_None [OF dirf] by auto
  have host: "path_in_rootfs rootfs [slash] = abs_path ?f"
    using path_in_rootfs_abs_path [OF abs, of "[]"] assms(2) by (simp add: abs_path_def)
  have dir: "path_dir (abs_path ?f) = abs_path d" by (rule path_dir_abs_path [OF v(1)])
  obtain x where x: "sys_stat s (abs_path d) = Inr x" "is_dir (Some x)"
  proof -
    have "is_dir (node_at s d)" using rd by (simp add: real_dir_def)
    then obtain mt where "node_at s d = Some (NDir mt)" by (cases "node_at s d" rule: is_dir.cases) auto
    then show thesis using that host_walk_self [OF rd, of True] assms(4) by (simp add: sys_stat_def)
  qed
  have mk: "os_mkdir_all (abs_path d) 493 s = (Inr (), s)"
    using x real_dir_names [OF rd] by (simp add: os_mkdir_all_def mkdir_all_rev.simps)
  obtain s1 where tmp: "create_temp max_temp_tries (abs_path d) s = (Inr (abs_path ?h, ?h), s1)"
    using create_temp_free [OF assms(4) rd assms(5)] by blast
  have made: "temp_made d (abs_path ?h) ?h s s1" by (rule create_temp_Inr [OF rd tmp])
  have c1: "changes_only {?h} s s1" using made by (simp add: temp_made_def)
  obtain mt where n1: "node_at s1 ?h = Some (NReg [] mt)" using made by (auto simp: temp_made_def)
  have f1: "\<forall>c p. fs_faults s1 c p = None" using changes_only_faults [OF c1] assms(4) by simp
  let ?opt = rootfs_write_options
  obtain u where fill: "aw_fill ?h data (aw_mode s1 (abs_path ?f) 420) True (aw_owner s1 (abs_path ?f)) s1 = (Inr (), u)"
    and cu: "changes_only {?h} s1 u" and tr: "\<exists>t \<in> set (fs_trace u). map_of t ?h = Some (NReg data mt)"
    and nu: "\<exists>mt'. node_at u ?h = Some (NReg data mt')" and fu: "\<forall>c p. fs_faults u c p = None"
    by (rule aw_fill_undisturbed [OF f1 n1])
  have csu: "changes_only {?h} s u" by (rule changes_only_trans [OF c1 cu])
  have np: "\<not> prefix ?h d" by (auto dest: prefix_length_le)
  have rdu: "real_dir (node_at u) d" using real_dir_changes [OF rd csu] np by blast
  have "is_dir (node_at u ?f)" using changes_only_node [OF csu, of ?f] dirf hf by auto
  then have ren: "sys_rename (abs_path ?h) (abs_path ?f) u = (Inl (Sys EEXIST), u)"
    using rename_entry [OF rdu refl temp_base_valid v(2), of _] nu fu hf by auto
  define s' where "s' = snd (sys_remove (abs_path ?h) u)"
  have "is_regular (node_at u ?h)" using nu by auto
  then have "node_at s' = (node_at u)(?h := None)"
    using remove_temp(3) [OF rdu refl temp_base_valid] fu unfolding s'_def by blast
  then have final: "node_at s' = node_at s"
    using changes_only_node [OF csu] assms(5) by (auto simp: fun_eq_iff)
  obtain ts where "fs_trace s' = ts @ fs_trace u"
    using remove_temp(2) [OF rdu refl temp_base_valid] unfolding s'_def changes_only_def by blast
  then have trace: "\<exists>t \<in> set (fs_trace s'). \<exists>mt. map_of t ?h = Some (NReg data mt)" using tr by auto
  have "\<not> is_link (node_at s ?f)" using dirf is_dir_not_link by blast
  then have nl: "\<not> (case sys_lstat s (abs_path ?f) of Inr n \<Rightarrow> is_link (Some n) | Inl _ \<Rightarrow> False)"
    using assms(4) by (auto simp: sys_lstat_entry [OF rd v(2)] split: option.splits)
  have "atomic_write (abs_path ?f) data ?opt s = (Inl (Sys EEXIST), s')"
    using nl tmp dir fill ren
    by (simp add: atomic_write_def Let_def rootfs_write_options_def io_bind_def s'_def)
  then have "write_file rootfs cp data s = (Inl (Wrapped ''failed to write'' (Sys EEXIST)), s')"
    using assms(3) host dir mk by (simp add: write_file_def)
  moreover have "\<not> prefix (root_of rootfs) ?h" using hf assms(2) by simp
  ultimately show ?thesis using final trace by blast
qed

theorem write_file_root_link_leaves_rootfs_witness:
  "\<exists>e s'. write_file ''/r'' ''/top'' ''NEW'' (fs_of sample_tree) = (Inl e, s') \<and>
     (\<exists>t \<in> set (fs_trace s'). \<exists>mt. map_of t [''.cainjekt-0''] = Some (NReg ''NEW'' mt))"
proof -
  have r: "resolve_symlinks (fs_of sample_tree) ''/r'' ''/top'' = Inr [slash]" by code_simp
  have h: "temp_base (fs_rand (fs_of sample_tree) (fs_rand_ix (fs_of sample_tree))) = ''.cainjekt-0''" by code_simp
  have "root_of ''/r'' = [] @ [''r'']" by (simp add: sample_root_of)
  from write_file_root_link_leaves_rootfs [OF sample_root_ok this r, of "''NEW''", unfolded h]
  have "map_of sample_tree [''.cainjekt-0''] = None \<Longrightarrow> ?thesis" by auto
  moreover have "map_of sample_tree [''.cainjekt-0''] = None" by code_simp
  ultimately show ?thesis by blast
qed

text \<open>
  C6: a write that reports success has replaced exactly one file: the resolved target holds
  the data, with the permission bits the file had (0644 for a new one), every other node that
  existed is unchanged, and at every moment in between the target held its old node or the
  complete new content with its final mode.
\<close>

theorem write_file_replaces_target:
  assumes "root_ok s rootfs" and "write_file rootfs cp data s = (Inr r, s')"
    and "r \<noteq> [slash]" and "\<not> has_prefix (last (comps r)) ''.cainjekt-''"
  shows "resolve_symlinks s rootfs cp = Inr r \<and>
    whole_file data (new_mode s (root_of rootfs @ comps r) 420) (node_at s' (root_of rootfs @ comps r)) \<and>
    (\<forall>q. node_at s q \<noteq> None \<longrightarrow> q \<noteq> root_of rootfs @ comps r \<longrightarrow> node_at s' q = node_at s q) \<and>
    (\<exists>ts. fs_trace s' = ts @ fs_trace s \<and> (\<forall>t \<in> set ts.
       map_of t (root_of rootfs @ comps r) = node_at s (root_of rootfs @ comps r) \<or>
       whole_file data (new_mode s (root_of rootfs @ comps r) 420) (map_of t (root_of rootfs @ comps r))))"
  using write_file_Inr [OF assms] unfolding whole_file_def aw_atomic_def by blast

theorem write_file_replaces_target_witness:
  "whole_file ''NEW'' 420 (node_at (snd (write_file ''/r'' ''/abs/ca.crt'' ''NEW'' (fs_of sample_tree)))
     [''r'', ''etc'', ''ca.crt''])"
proof -
  define out where "out = write_file ''/r'' ''/abs/ca.crt'' ''NEW'' (fs_of sample_tree)"
  have "fst (write_file ''/r'' ''/abs/ca.crt'' ''NEW'' (fs_of sample_tree)) = Inr ''/etc/ca.crt''" by code_simp
  then have run: "write_file ''/r'' ''/abs/ca.crt'' ''NEW'' (fs_of sample_tree) = (Inr ''/etc/ca.crt'', snd out)"
    unfolding out_def by (simp add: prod_eq_iff)
  have c: "comps ''/etc/ca.crt'' = [''etc'', ''ca.crt'']" by code_simp
  have np: "\<not> has_prefix (last (comps ''/etc/ca.crt'')) ''.cainjekt-''" unfolding c by code_simp
  have m: "new_mode (fs_of sample_tree) [''r'', ''etc'', ''ca.crt''] 420 = 420" by code_simp
  show ?thesis
    using write_file_replaces_target [OF sample_root_ok run _ np] m
    by (simp add: c sample_root_of slash_def out_def)
qed

text \<open>
  C7: the atomic write below the container layer, for a target that is not a link: it either
  leaves the target alone or replaces it completely, in every intermediate tree; an error
  leaves the tree exactly as it was when the temporary file can be removed again.
\<close>

theorem atomic_write_all_or_nothing:
  assumes "real_dir (node_at s) d" and "valid_name n" and "\<not> has_prefix n ''.cainjekt-''"
    and "\<not> is_link (node_at s (d @ [n]))" and "wo_fallback_mode opt \<noteq> 0"
    and "atomic_write (abs_path (d @ [n])) data opt s = (r, s')"
  shows "(\<exists>ts. fs_trace s' = ts @ fs_trace s \<and> (\<forall>t \<in> set ts. map_of t (d @ [n]) = node_at s (d @ [n]) \<or>
       whole_file data (new_mode s (d @ [n]) (wo_fallback_mode opt)) (map_of t (d @ [n])))) \<and>
    (r = Inr () \<longrightarrow> (\<exists>mt. fmode mt = new_mode s (d @ [n]) (wo_fallback_mode opt) \<and>
       node_at s' = (node_at s)(d @ [n] \<mapsto> NReg data mt))) \<and>
    (isl r \<longrightarrow> (\<forall>p. fs_faults s Remove p = None) \<longrightarrow> node_at s' = node_at s)"
  using atomic_write_contract [OF assms(1-4), of data opt] assms(5,6)
  by (auto simp: aw_contract_def aw_atomic_def isl_def)

theorem atomic_write_all_or_nothing_witness:
  "node_at (snd (atomic_write ''/r/etc/ca.crt'' ''NEW'' rootfs_write_options (fs_of sample_tree)))
     [''r'', ''etc'', ''ca.crt''] = Some (NReg ''NEW'' \<lparr>fmode = 420, fuid = 0, fgid = 0\<rparr>) \<and>
   (\<exists>mt. node_at (snd (atomic_write ''/r/etc/ca.crt'' ''NEW'' rootfs_write_options (fs_of sample_tree))) =
      (map_of sample_tree)([''r'', ''etc'', ''ca.crt''] \<mapsto> NReg ''NEW'' mt))"
proof (rule conjI)
  show "node_at (snd (atomic_write ''/r/etc/ca.crt'' ''NEW'' rootfs_write_options (fs_of sample_tree)))
     [''r'', ''etc'', ''ca.crt''] = Some (NReg ''NEW'' \<lparr>fmode = 420, fuid = 0, fgid = 0\<rparr>)" by code_simp
  let ?o = "atomic_write ''/r/etc/ca.crt'' ''NEW'' rootfs_write_options (fs_of sample_tree)"
  have p: "abs_path ([''r'', ''etc''] @ [''ca.crt'']) = ''/r/etc/ca.crt''" by code_simp
  have "is_dir (map_of sample_tree [''r'', ''etc''])" by code_simp
  then have rd: "real_dir (node_at (fs_of sample_tree)) [''r'', ''etc'']" by (rule real_dir_fs_of [OF sample_wf])
  have v: "valid_name ''ca.crt''" "\<not> has_prefix ''ca.crt'' ''.cainjekt-''" by code_simp+
  have nl: "\<not> is_link (node_at (fs_of sample_tree) ([''r'', ''etc''] @ [''ca.crt'']))"
    by (simp add: sample_tree_def file_node_def)
  have fb: "wo_fallback_mode rootfs_write_options \<noteq> 0" by (simp add: rootfs_write_options_def)
  have "fst ?o = Inr ()" by code_simp
  then have run: "atomic_write (abs_path ([''r'', ''etc''] @ [''ca.crt''])) ''NEW'' rootfs_write_options
      (fs_of sample_tree) = (Inr (), snd ?o)"
    unfolding p by (simp add: prod_eq_iff)
  show "\<exists>mt. node_at (snd ?o) = (map_of sample_tree)([''r'', ''etc'', ''ca.crt''] \<mapsto> NReg ''NEW'' mt)"
    using atomic_write_all_or_nothing [OF rd v nl fb run] by auto
qed

section \<open>Reads\<close>

text \<open>
  C8: data read from the container is the content of a regular file at most 16 MiB long that
  lies in the rootfs at the resolved path: never a host file behind a link, a device or a
  FIFO, and never a truncated file.
\<close>

theorem read_file_regular_inside:
  assumes "root_ok s rootfs" and "read_file s rootfs cp = (Inr data, r)"
  shows "resolve_symlinks s rootfs cp = Inr r \<and> length data \<le> 16777216 \<and>
    (\<exists>mt. node_at s (root_of rootfs @ comps r) = Some (NReg data mt))"
  using read_file_Inr [OF assms] by (simp add: max_read_size_def)

theorem read_file_regular_inside_witness:
  "read_file (fs_of sample_tree) ''/r'' ''/abs/ca.crt'' = (Inr ''OLD'', ''/etc/ca.crt'') \<and>
   (\<exists>mt. node_at (fs_of sample_tree) [''r'', ''etc'', ''ca.crt''] = Some (NReg ''OLD'' mt)) \<and>
   isl (fst (read_file (fs_of sample_tree) ''/r'' ''/abs/up'')) \<and>
   isl (fst (read_file (fs_of sample_tree) ''/r'' ''/fifo''))"
proof (intro conjI)
  show r: "read_file (fs_of sample_tree) ''/r'' ''/abs/ca.crt'' = (Inr ''OLD'', ''/etc/ca.crt'')" by code_simp
  have c: "comps ''/etc/ca.crt'' = [''etc'', ''ca.crt'']" by code_simp
  show "\<exists>mt. node_at (fs_of sample_tree) [''r'', ''etc'', ''ca.crt''] = Some (NReg ''OLD'' mt)"
    using read_file_regular_inside [OF sample_root_ok r] by (simp add: c sample_root_of)
  show "isl (fst (read_file (fs_of sample_tree) ''/r'' ''/abs/up''))" by code_simp
  show "isl (fst (read_file (fs_of sample_tree) ''/r'' ''/fifo''))" by code_simp
qed

end
