(* ===== verification/Config.thy ===== *)
theory Config
  imports Go_Strings
begin

text \<open>
  \<open>internal/config/constants.go\<close>, \<open>internal/log/level/level.go\<close> and the reading of
  process environment variables. A process environment is a map from names to values;
  \<open>os.Getenv\<close> of an unset variable is the empty string.
\<close>

section \<open>Process environment\<close>

definition getenv :: "strmap \<Rightarrow> string \<Rightarrow> string" where
  "getenv env k = (case map_of env k of None \<Rightarrow> [] | Some v \<Rightarrow> v)"

text \<open>\<open>getenvOr\<close>, which \<open>nri\<close>, \<open>hook\<close> and \<open>app\<close> each define with the same body.\<close>

definition getenv_or :: "strmap \<Rightarrow> string \<Rightarrow> string \<Rightarrow> string" where
  "getenv_or env key fallback =
     (let v = trim_space (getenv env key) in if v \<noteq> [] then v else fallback)"

section \<open>Names and defaults\<close>

definition env_hook_mode :: string where "env_hook_mode = ''HOOK_MODE''"
definition mode_create_rt :: string where "mode_create_rt = ''createruntime''"
definition mode_create_ctr :: string where "mode_create_ctr = ''createcontainer''"

definition env_ca_file :: string where "env_ca_file = ''CAINJEKT_CA_FILE''"
definition env_dynamic_ca_root :: string where "env_dynamic_ca_root = ''CAINJEKT_DYNAMIC_CA_ROOT''"
definition env_fail_policy :: string where "env_fail_policy = ''CAINJEKT_FAIL_POLICY''"
definition env_wrapper_mode :: string where "env_wrapper_mode = ''CAINJEKT_WRAPPER_MODE''"
definition env_hook_context_file :: string where
  "env_hook_context_file = ''CAINJEKT_HOOK_CONTEXT_FILE''"
definition env_plugin_binary_path :: string where
  "env_plugin_binary_path = ''CAINJEKT_PLUGIN_BINARY_PATH''"
definition env_annotation_prefix :: string where
  "env_annotation_prefix = ''CAINJEKT_ANNOTATION_PREFIX''"
definition env_log_level :: string where "env_log_level = ''CAINJEKT_LOG_LEVEL''"
definition env_hook_timeout_sec :: string where
  "env_hook_timeout_sec = ''CAINJEKT_HOOK_TIMEOUT_SEC''"
definition env_breadcrumb_dir :: string where "env_breadcrumb_dir = ''CAINJEKT_BREADCRUMB_DIR''"

definition default_annotation_prefix :: string where
  "default_annotation_prefix = ''cainjekt.natron.io''"

definition fail_policy_open :: string where "fail_policy_open = ''fail-open''"
definition default_ca_file :: string where "default_ca_file = ''/etc/cainjekt/ca-bundle.pem''"
definition default_dynamic_ca_root :: string where
  "default_dynamic_ca_root = ''/run/cainjekt/containers''"
definition wrapper_path :: string where "wrapper_path = ''/cainjekt-entrypoint''"
definition hook_context_file :: string where
  "hook_context_file = ''/etc/cainjekt/hook-context.json''"

definition default_hook_timeout_sec :: int where "default_hook_timeout_sec = 20"

definition breadcrumb_started :: string where "breadcrumb_started = ''hook.started''"
definition breadcrumb_progress :: string where "breadcrumb_progress = ''hook.progress''"
definition breadcrumb_done :: string where "breadcrumb_done = ''hook.done''"

lemmas config_defs = env_hook_mode_def mode_create_rt_def mode_create_ctr_def env_ca_file_def
  env_dynamic_ca_root_def env_fail_policy_def env_wrapper_mode_def env_hook_context_file_def
  env_plugin_binary_path_def env_annotation_prefix_def env_log_level_def
  env_hook_timeout_sec_def env_breadcrumb_dir_def default_annotation_prefix_def
  fail_policy_open_def default_ca_file_def default_dynamic_ca_root_def wrapper_path_def
  hook_context_file_def breadcrumb_started_def breadcrumb_progress_def breadcrumb_done_def

section \<open>Annotation keys\<close>

text \<open>The package variable \<open>annotationPrefix\<close>, computed once from the environment.\<close>

definition annotation_prefix :: "strmap \<Rightarrow> string" where
  "annotation_prefix env =
     (let v = trim_space (getenv env env_annotation_prefix)
      in if v \<noteq> [] then trim_suffix v ''/'' else default_annotation_prefix)"

definition anno_enabled :: "strmap \<Rightarrow> string" where
  "anno_enabled env = annotation_prefix env @ ''/enabled''"

definition anno_processors_include :: "strmap \<Rightarrow> string" where
  "anno_processors_include env = annotation_prefix env @ ''/processors.include''"

definition anno_processors_exclude :: "strmap \<Rightarrow> string" where
  "anno_processors_exclude env = annotation_prefix env @ ''/processors.exclude''"

definition anno_exclude_containers :: "strmap \<Rightarrow> string" where
  "anno_exclude_containers env = annotation_prefix env @ ''/exclude-containers''"

lemma anno_keys_distinct:
  "distinct [anno_enabled env, anno_processors_include env, anno_processors_exclude env,
     anno_exclude_containers env]"
  by (simp add: anno_enabled_def anno_processors_include_def anno_processors_exclude_def
      anno_exclude_containers_def)

section \<open>Log level\<close>

datatype log_level = LevelDebug | LevelInfo | LevelWarn | LevelError

definition parse_level :: "string \<Rightarrow> log_level" where
  "parse_level s = (let l = to_lower (trim_space s) in
     if l = ''debug'' then LevelDebug
     else if l = ''warn'' \<or> l = ''warning'' then LevelWarn
     else if l = ''error'' then LevelError
     else LevelInfo)"

section \<open>Laws\<close>

lemma getenv_update: "getenv (AList.update k v env) k' = (if k = k' then v else getenv env k')"
  by (simp add: getenv_def)

lemma getenv_or_nonempty: "fallback \<noteq> [] \<Longrightarrow> getenv_or env k fallback \<noteq> []"
  by (simp add: getenv_or_def Let_def)

lemma getenv_or_unset: "getenv env k = [] \<Longrightarrow> getenv_or env k fallback = fallback"
  by (simp add: getenv_or_def)

end
