(* ===== verification/Env_Util.thy ===== *)
theory Env_Util
  imports Config
begin

text \<open>
  \<open>internal/util/envutil/envutil.go\<close>: environment slices, lists of \<open>KEY=VALUE\<close> entries.
  The wrapper processors only read and write the environment through \<open>GetValue\<close> and
  \<open>Upsert\<close>; the locale \<open>env_store\<close> is the contract they rely on.
\<close>

definition env_entry :: "string \<Rightarrow> string \<Rightarrow> string" where
  "env_entry k v = k @ ''='' @ v"

fun get_value :: "string list \<Rightarrow> string \<Rightarrow> string" where
  "get_value [] key = []"
| "get_value (e # es) key =
     (if has_prefix e (key @ ''='') then trim_prefix e (key @ ''='') else get_value es key)"

fun upsert :: "string list \<Rightarrow> string \<Rightarrow> string \<Rightarrow> string list" where
  "upsert [] key v = [env_entry key v]"
| "upsert (e # es) key v =
     (if has_prefix e (key @ ''='') then env_entry key v # es else e # upsert es key v)"

text \<open>\<open>hasEnv\<close> of \<open>internal/nri/helpers.go\<close>.\<close>

fun has_env :: "string list \<Rightarrow> string \<Rightarrow> bool" where
  "has_env [] key = False"
| "has_env (e # es) key = (has_prefix e (key @ ''='') \<or> has_env es key)"

section \<open>The contract of an environment store\<close>

text \<open>
  A variable reads back what was last written to it, other variables keep their value,
  and writing the value a variable has just been given changes nothing.
\<close>

locale env_store =
  fixes get :: "'e \<Rightarrow> string \<Rightarrow> string"
    and put :: "'e \<Rightarrow> string \<Rightarrow> string \<Rightarrow> 'e"
    and ok_key :: "string \<Rightarrow> bool"
  assumes get_put_same: "get (put e k v) k = v"
    and get_put_other: "ok_key k \<Longrightarrow> ok_key k' \<Longrightarrow> k \<noteq> k' \<Longrightarrow> get (put e k v) k' = get e k'"
    and put_put_same: "put (put e k v) k w = put e k w"
begin

lemma put_idem: "put (put e k v) k v = put e k v"
  by (rule put_put_same)

text \<open>Two variables written one after the other are both visible (the Python processor).\<close>

lemma get_put_two:
  "ok_key k \<Longrightarrow> ok_key k' \<Longrightarrow> k \<noteq> k' \<Longrightarrow>
   get (put (put e k v) k' w) k = v \<and> get (put (put e k v) k' w) k' = w"
  using get_put_other [of k' k] by (simp add: get_put_same)

lemma get_put_two_other:
  "ok_key k \<Longrightarrow> ok_key k' \<Longrightarrow> ok_key q \<Longrightarrow> q \<noteq> k \<Longrightarrow> q \<noteq> k' \<Longrightarrow>
   get (put (put e k v) k' w) q = get e q"
  using get_put_other [of k q] get_put_other [of k' q] by simp

end

text \<open>A variable name holds no equals sign.\<close>

definition env_key :: "string \<Rightarrow> bool" where
  "env_key k = (CHR ''='' \<notin> set k)"

lemma env_keys_differ:
  assumes "env_key k" and "env_key k'" and "has_prefix e (k @ ''='')" and "has_prefix e (k' @ ''='')"
  shows "k = k'"
proof -
  have key: "\<exists>s. cut (CHR ''='') e = Some (k, s)" if "env_key k" "has_prefix e (k @ ''='')" for k
    using that by (auto simp: has_prefix_prefix prefix_def cut_Some env_key_def)
  show ?thesis using key [OF assms(1,3)] key [OF assms(2,4)] by auto
qed

lemma env_entry_prefix [simp]: "has_prefix (env_entry k v) (k @ ''='')"
  using has_prefix_append [of "k @ ''=''" v] by (simp add: env_entry_def)

lemma env_entry_value [simp]: "trim_prefix (env_entry k v) (k @ ''='') = v"
  using trim_prefix_append [of "k @ ''=''" v] by (simp add: env_entry_def)

lemma get_upsert_same: "get_value (upsert env k v) k = v"
  by (induction env) auto

lemma get_upsert_other:
  assumes "env_key k" and "env_key k'" and "k \<noteq> k'"
  shows "get_value (upsert env k v) k' = get_value env k'"
proof -
  have "\<not> has_prefix (env_entry k v) (k' @ ''='')"
    using assms(3) env_keys_differ [OF assms(1,2) env_entry_prefix] by blast
  then show ?thesis
    using assms env_keys_differ [OF assms(1,2)] by (induction env) auto
qed

lemma upsert_upsert: "upsert (upsert env k v) k w = upsert env k w"
  by (induction env) auto

interpretation env_slice: env_store get_value upsert env_key
  by unfold_locales (auto intro: get_upsert_same get_upsert_other upsert_upsert)

lemma has_env_upsert: "has_env (upsert env k v) k"
  by (induction env) auto

lemma upsert_length: "length (upsert env k v) = (if has_env env k then length env else Suc (length env))"
  by (induction env) auto

text \<open>Entries of other variables stay where they are.\<close>

lemma upsert_entries:
  "e \<in> set (upsert env k v) \<Longrightarrow> e = env_entry k v \<or> e \<in> set env"
  by (induction env) (auto split: if_splits)

end
