(* ===== verification/Test_Helpers.thy ===== *)
theory Test_Helpers
  imports Container_Fs_Writes Env_Util
begin

text \<open>
  \<open>internal/testutil/helpers.go\<close>: what the tests of the processors use to lay out a rootfs and
  to look at an environment. A fatal test failure is an error here.
\<close>

section \<open>Laying out a rootfs\<close>

text \<open>\<open>os.Symlink\<close>: a new link with the target as given.\<close>

definition sys_symlink :: "string \<Rightarrow> string \<Rightarrow> unit io" where
  "sys_symlink target path s = (case fs_faults s Create (comps path) of
     Some f \<Rightarrow> (Inl (Sys (Fault f)), s) | None \<Rightarrow>
     (case host_walk s False path of Inl e \<Rightarrow> (Inl (Sys e), s)
      | Inr q \<Rightarrow> if node_at s q \<noteq> None then (Inl (Sys EEXIST), s)
          else (Inr (), touch_dir q (put_node q (NLink target) s))))"

definition write_executable_in_rootfs :: "string \<Rightarrow> string \<Rightarrow> unit io" where
  "write_executable_in_rootfs rootfs cp =
     (let host = path_in_rootfs rootfs cp in
      io_bind (io_wrap ''MkdirAll'' (os_mkdir_all (path_dir host) 493)) (\<lambda>_.
        io_wrap ''WriteFile'' (os_write_file host (''#!/bin/sh'' @ [CHR 0x0A]) 493)))"

definition symlink_in_rootfs :: "string \<Rightarrow> string \<Rightarrow> string \<Rightarrow> unit io" where
  "symlink_in_rootfs rootfs cp target =
     (let host = path_in_rootfs rootfs cp in
      io_bind (io_wrap ''MkdirAll'' (os_mkdir_all (path_dir host) 493)) (\<lambda>_.
        io_wrap ''Symlink'' (sys_symlink target host)))"

text \<open>After the directories are made, the last component lies in a real directory.\<close>

lemma rootfs_parent:
  assumes ok: "root_ok s rootfs" and v: "valid_names (d @ [n])" and c: "clear (node_at s) (root_of rootfs) d"
    and run: "io_bind (io_wrap msg (os_mkdir_all (path_dir (path_in_rootfs rootfs (abs_path (d @ [n])))) 493)) k s = (Inr x, s')"
  obtains s1 where "k () s1 = (Inr x, s')" and "real_dir (node_at s1) (root_of rootfs @ d)"
    and "path_in_rootfs rootfs (abs_path (d @ [n])) = abs_path ((root_of rootfs @ d) @ [n])"
    and "dirs_added (root_of rootfs @ d) s s1"
proof -
  let ?p = "root_of rootfs @ d"
  have abs: "is_abs rootfs" and rd: "real_dir (node_at s) (root_of rootfs)" using ok by (auto simp: root_ok_def)
  have host: "path_in_rootfs rootfs (abs_path (d @ [n])) = abs_path (?p @ [n])"
    using path_in_rootfs_abs_path [OF abs v] by simp
  have vp: "valid_names (?p @ [n])" using v by simp
  have cl: "clear (node_at s) [] ?p" using c real_dir_clear [OF rd] by (simp add: clear_append)
  obtain r s1 where mk: "os_mkdir_all (abs_path ?p) 493 s = (r, s1)" by (cases "os_mkdir_all (abs_path ?p) 493 s")
  have "r = Inr ()" "k () s1 = (Inr x, s')"
    using run mk path_dir_abs_path [OF vp] by (auto simp: host io_bind_def io_wrap_def split: sum.splits)
  then show thesis using that host write_file_mkdir [OF ok cl _ mk] vp by simp
qed

text \<open>What the helpers leave: the script, or the link with the very target given.\<close>

lemma write_executable_node:
  assumes "root_ok s rootfs" and "valid_names (d @ [n])" and "clear (node_at s) (root_of rootfs) (d @ [n])"
    and "write_executable_in_rootfs rootfs (abs_path (d @ [n])) s = (Inr (), s')"
    and "\<And>mt. node_at s (root_of rootfs @ d @ [n]) \<noteq> Some (NSpecial mt)"
  shows "\<exists>mt. node_at s' (root_of rootfs @ d @ [n]) = Some (NReg (''#!/bin/sh'' @ [CHR 0x0A]) mt)"
proof -
  let ?q = "(root_of rootfs @ d) @ [n]" and ?data = "''#!/bin/sh'' @ [CHR 0x0A]"
  have cl: "clear (node_at s) (root_of rootfs) d" using assms(3) by (simp add: clear_append)
  obtain s1 where k: "io_wrap ''WriteFile'' (os_write_file (path_in_rootfs rootfs (abs_path (d @ [n]))) ?data 493) s1 = (Inr (), s')"
    and rd: "real_dir (node_at s1) (root_of rootfs @ d)"
    and host: "path_in_rootfs rootfs (abs_path (d @ [n])) = abs_path ?q"
    and added: "dirs_added (root_of rootfs @ d) s s1"
    using assms(4) by (auto simp: write_executable_in_rootfs_def Let_def intro: rootfs_parent [OF assms(1,2) cl])
  have v: "valid_names ?q" using assms(2) by simp
  have nl: "\<not> is_link (node_at s1 ?q)"
    using added assms(3) by (auto simp: dirs_added_def clear_append clear_Cons)
  have ns: "node_at s1 ?q \<noteq> Some (NSpecial mt)" for mt
  proof -
    have "?q \<notin> {q. prefix q (root_of rootfs @ d) \<and> node_at s q = None}" by (auto dest: prefix_length_le)
    then have "node_at s1 ?q = node_at s ?q" using added changes_only_node unfolding dirs_added_def by blast
    then show ?thesis using assms(5) by simp
  qed
  have "clear (node_at s1) [] ?q" using real_dir_clear [OF rd] nl by (simp add: clear_append clear_Cons)
  then have w: "host_walk s1 True (abs_path ?q) = Inr q \<Longrightarrow> q = ?q" for q
    using walk_clear [of "node_at s1" "[]" ?q True max_hops q] v by (simp add: host_walk_def)
  show ?thesis
    using k w nl ns
    by (auto simp: host io_wrap_def os_write_file_def sys_write_def split: option.splits sum.splits node.splits)
qed

lemma symlink_node:
  assumes "root_ok s rootfs" and "valid_names (d @ [n])" and "clear (node_at s) (root_of rootfs) d"
    and "symlink_in_rootfs rootfs (abs_path (d @ [n])) target s = (Inr (), s')"
  shows "node_at s' (root_of rootfs @ d @ [n]) = Some (NLink target)"
proof -
  obtain s1 where k: "io_wrap ''Symlink'' (sys_symlink target (path_in_rootfs rootfs (abs_path (d @ [n])))) s1 = (Inr (), s')"
    and rd: "real_dir (node_at s1) (root_of rootfs @ d)"
    and host: "path_in_rootfs rootfs (abs_path (d @ [n])) = abs_path ((root_of rootfs @ d) @ [n])"
    using assms(4) by (auto simp: symlink_in_rootfs_def Let_def intro: rootfs_parent [OF assms(1-3)])
  have "valid_name n" using assms(2) by simp
  from host_walk_entry [OF rd this] k show ?thesis
    by (auto simp: host io_wrap_def sys_symlink_def split: option.splits if_splits)
qed

section \<open>Looking at an environment\<close>

fun env_value :: "string list \<Rightarrow> string \<Rightarrow> string" where
  "env_value [] key = []"
| "env_value (e # es) key =
     (let p = key @ ''='' in
      if length e > length p \<and> take (length p) e = p then drop (length p) e else env_value es key)"

text \<open>Unlike \<open>GetValue\<close> of the program it looks past an entry with an empty value.\<close>

lemma env_value_skips_empty: "env_value env key = get_value (filter (\<lambda>e. e \<noteq> key @ ''='') env) key"
  by (induction env) (auto simp: Let_def has_prefix_def trim_prefix_def)

end
