(* ===== verification/Chroot_Walk.thy ===== *)
theory Chroot_Walk
  imports Container_Fs_Laws Sample_Fs
begin

text \<open>
  \<open>ResolveSymlinks\<close> against its specification: the walk the kernel would do for a process whose
  root directory is the rootfs. The code cleans link targets as text and trims white space, so
  the two agree on a rootfs whose links climb only at their start and whose names do not end
  in white space.
\<close>

section \<open>The specification\<close>

definition chroot_view :: "fs \<Rightarrow> string \<Rightarrow> fpath \<Rightarrow> node option" where
  "chroot_view s rootfs p = node_at s (root_of rootfs @ p)"

definition chroot_walk :: "fs \<Rightarrow> string \<Rightarrow> string list \<Rightarrow> errno + fpath" where
  "chroot_walk s rootfs cs = walk (chroot_view s rootfs) True max_hops [] cs"

text \<open>A name that ends in no white space, and a link target that climbs only at its start.\<close>

definition tidy_name :: "string \<Rightarrow> bool" where
  "tidy_name n = (strip_one (map rev space_seqs) (rev n) = None)"

definition climbs :: "string \<Rightarrow> bool" where "climbs c = (c = dot \<or> c = dotdot)"

definition tidy_target :: "string \<Rightarrow> bool" where
  "tidy_target t = list_all (\<lambda>c. valid_name c \<and> tidy_name c) (dropWhile climbs (comps t))"

definition tidy_rootfs :: "fs \<Rightarrow> string \<Rightarrow> bool" where
  "tidy_rootfs s rootfs = ((\<forall>p n. node_at s (root_of rootfs @ p @ [n]) \<noteq> None \<longrightarrow> tidy_name n) \<and>
     (\<forall>p t. node_at s (root_of rootfs @ p) = Some (NLink t) \<longrightarrow> tidy_target t))"

section \<open>Trimming\<close>

lemma space_seqs_no_slash: "w \<in> set space_seqs \<Longrightarrow> slash \<notin> set w"
proof -
  have "list_all (\<lambda>w. slash \<notin> set w) space_seqs" by code_simp
  then show "w \<in> set space_seqs \<Longrightarrow> slash \<notin> set w" by (auto simp: list_all_iff)
qed

lemma strip_one_no_slash:
  assumes "\<forall>w \<in> set ws. slash \<notin> set w" and "strip_one ws n = None"
  shows "strip_one ws (n @ slash # r) = None"
proof -
  have "has_prefix n w" if w: "w \<in> set ws" and p: "has_prefix (n @ slash # r) w" for w
  proof -
    obtain z where z: "n @ slash # r = w @ z"
      using p unfolding has_prefix_def by (metis append_take_drop_id)
    have "slash \<notin> set w" using assms(1) w by blast
    then have "length w \<le> length n"
      using z by (auto simp: append_eq_append_conv2 Cons_eq_append_conv)
    then show ?thesis using p by (simp add: has_prefix_def)
  qed
  then show ?thesis using assms(2) by (auto simp: strip_one_def find_None_iff split: option.splits)
qed

lemma trim_tidy_path:
  assumes "ns = [] \<or> tidy_name (last ns)"
  shows "trim_space (abs_path ns) = abs_path ns"
proof (rule trim_space_fixed)
  have front: "strip_one space_seqs (slash # r) = None" for r
    using strip_one_no_slash [of space_seqs "[]" r] space_seqs_no_slash
    by (simp add: strip_one_def find_None_iff has_prefix_def space_seqs_def)
  show "strip_one space_seqs (abs_path ns) = None" by (simp add: abs_path_def front)
  have rev_no: "\<forall>w \<in> set (map rev space_seqs). slash \<notin> set w" using space_seqs_no_slash by auto
  show "strip_one (map rev space_seqs) (rev (abs_path ns)) = None"
  proof (cases ns rule: rev_exhaust)
    case Nil
    have "strip_one (map rev space_seqs) [] = None"
      by (simp add: strip_one_def find_None_iff has_prefix_def space_seqs_def)
    from strip_one_no_slash [OF rev_no this, of "[]"] show ?thesis by (simp add: Nil abs_path_def)
  next
    case (snoc ms n)
    have "\<exists>r. rev (abs_path (ms @ [n])) = rev n @ slash # r"
      by (cases "ms = []") (simp_all add: abs_path_single abs_path_snoc)
    then show ?thesis using strip_one_no_slash [OF rev_no] assms snoc by (auto simp: tidy_name_def)
  qed
qed

section \<open>Climbing\<close>

fun climb :: "fpath \<Rightarrow> string list \<Rightarrow> fpath" where
  "climb cur [] = cur"
| "climb cur (u # us) = climb (if u = dotdot then butlast cur else cur) us"

lemma climb_prefix: "prefix (climb cur us) cur"
  by (induction cur us rule: climb.induct) (auto simp: prefixeq_butlast intro: prefix_order.trans)

lemma walk_climb: "list_all climbs us \<Longrightarrow> walk m fl h cur (us @ cs) = walk m fl h (climb cur us) cs"
  by (induction cur us rule: climb.induct) (auto simp: walk.simps climbs_def)

lemma clean_climb:
  "list_all climbs us \<Longrightarrow> valid_names cur \<Longrightarrow> valid_names ns \<Longrightarrow>
   clean_comps True (rev cur) (us @ ns) = climb cur us @ ns"
proof (induction cur us rule: climb.induct)
  case (2 cur u us)
  show ?case
  proof (cases "u = dotdot")
    case True
    show ?thesis
    proof (cases cur rule: rev_exhaust)
      case (snoc c' x)
      then have "x \<noteq> dotdot" "valid_names (butlast cur)" using "2.prems"(2) by auto
      then show ?thesis using 2 True snoc by simp
    qed (use 2 True in simp)
  next
    case False
    then show ?thesis using 2 by (auto simp: climbs_def)
  qed
qed (simp add: clean_comps_valid)

text \<open>The target as the code rewrites it, and as the kernel walks it.\<close>

lemma link_target:
  assumes "tidy_target t" and "valid_names cur" and "is_abs t \<Longrightarrow> cur = []" and "\<forall>n \<in> set cur. tidy_name n"
    and "tc = (if is_abs t then path_clean t else path_clean (path_join [abs_path cur, t]))"
  obtains u ns where "split_container_path tc = u @ ns" and "prefix u cur" and "valid_names ns"
    and "\<And>m fl h cs. walk m fl h cur (comps t @ cs) = walk m fl h u (ns @ cs)"
proof -
  define us ns where "us = takeWhile climbs (comps t)" and "ns = dropWhile climbs (comps t)"
  have t: "comps t = us @ ns" and us: "list_all climbs us"
    by (auto simp: us_def ns_def list_all_iff dest: set_takeWhileD)
  have ns: "valid_names ns" "\<forall>n \<in> set ns. tidy_name n"
    using assms(1) by (auto simp: tidy_target_def ns_def list_all_iff)
  let ?u = "climb cur us"
  have u: "prefix ?u cur" by (rule climb_prefix)
  then obtain zs where "cur = ?u @ zs" by (auto simp: prefix_def)
  then have "valid_names ?u" "set ?u \<subseteq> set cur"
    using assms(2) list_all_append [of valid_name ?u zs] set_append [of ?u zs] by (metis, metis Un_upper1)
  then have v: "valid_names (?u @ ns)" and tidy: "\<forall>n \<in> set (?u @ ns). tidy_name n"
    using ns assms(4) by auto
  have clean: "clean_comps True (rev cur) (comps t) = ?u @ ns"
    unfolding t by (rule clean_climb [OF us assms(2) ns(1)])
  have "tc = abs_path (?u @ ns)"
  proof (cases "is_abs t")
    case True
    then show ?thesis using clean assms(3,5) by (simp add: path_clean_abs_path)
  next
    case False
    have "path_join [abs_path cur, t] = path_clean (abs_path cur @ slash # t)"
      by (simp add: path_join_def abs_path_def)
    also have "\<dots> = abs_path (clean_comps True [] (cur @ comps t))"
      using assms(2) by (simp add: path_clean_abs_path comps_append)
    also have "\<dots> = abs_path (?u @ ns)"
      using clean_comps_append_valid [OF assms(2), of True "[]" "comps t"] clean by simp
    finally show ?thesis using False assms(5) v by simp
  qed
  moreover have "trim_space (abs_path (?u @ ns)) = abs_path (?u @ ns)"
    using tidy by (intro trim_tidy_path) (meson last_in_set)
  ultimately have "split_container_path tc = ?u @ ns"
    using split_container_path_abs_path [OF v] by simp
  then show thesis using that [OF _ u ns(1)] walk_climb [OF us] t by simp
qed

section \<open>Simulation\<close>

definition agrees :: "fs \<Rightarrow> string \<Rightarrow> string list res \<Rightarrow> errno + fpath \<Rightarrow> bool" where
  "agrees s rootfs r w = (case w of
     Inr q \<Rightarrow> r = Inr q
   | Inl e \<Rightarrow> if e = ENOENT then \<exists>q. r = Inr q \<and> node_at s (root_of rootfs @ q) = None else isl r)"

lemma tidy_rootfsD:
  assumes "tidy_rootfs s rootfs"
  shows "node_at s (root_of rootfs @ p @ [n]) \<noteq> None \<Longrightarrow> tidy_name n"
    and "node_at s (root_of rootfs @ p) = Some (NLink t) \<Longrightarrow> tidy_target t"
  using assms by (auto simp: tidy_rootfs_def)

lemma tidy_below:
  assumes "tidy_rootfs s rootfs" and "root_ok s rootfs" and "is_dir (node_at s (root_of rootfs @ cur))"
  shows "\<forall>n \<in> set cur. tidy_name n"
proof
  fix n assume "n \<in> set cur"
  then obtain p r where cur: "cur = p @ n # r" by (auto simp: in_set_conv_decomp)
  have rd: "real_dir (node_at s) (root_of rootfs @ cur)"
    using wf_tree_real_dir assms(2,3) by (auto simp: root_ok_def wf_fs_def)
  have "prefix (root_of rootfs @ p @ [n]) (root_of rootfs @ cur)" by (simp add: cur)
  then have "is_dir (node_at s (root_of rootfs @ p @ [n]))" using rd unfolding real_dir_def by blast
  then show "tidy_name n" using tidy_rootfsD(1) [OF assms(1)] is_dir_not_None by blast
qed

lemma lstat_below_file:
  assumes "real_dir (node_at s) d" and "valid_name n" and "valid_name c" and "fs_faults s Lstat (d @ [n, c]) = None"
    and "node_at s (d @ [n]) = Some x" and "\<not> is_dir (Some x)" and "\<not> is_link (Some x)"
  shows "sys_lstat s (abs_path ((d @ [n]) @ [c])) = Inl ENOTDIR"
proof -
  have v: "valid_names (d @ [n, c])" using assms(1-3) by (auto simp: real_dir_def)
  have n: "n \<noteq> []" "n \<noteq> dot" "n \<noteq> dotdot" using assms(2) by (auto simp: valid_name_def)
  have "walk (node_at s) False max_hops [] (d @ [n, c]) = walk (node_at s) False max_hops ([] @ d) [n, c]"
    using assms(1) by (intro walk_real_dirs) (auto simp: real_dir_def)
  also have "\<dots> = Inl ENOTDIR"
    using n assms(5-7) by (cases x) (simp_all add: walk.simps)
  finally show ?thesis using v assms(4) by (simp add: sys_lstat_def host_walk_def)
qed

lemma resolve_loop_chroot:
  "root_ok s rootfs \<Longrightarrow> tidy_rootfs s rootfs \<Longrightarrow> (\<And>p. fs_faults s Lstat p = None \<and> fs_faults s Readlink p = None) \<Longrightarrow>
   valid_names resolved \<Longrightarrow> valid_names remaining \<Longrightarrow> is_dir (node_at s (root_of rootfs @ resolved)) \<Longrightarrow>
   hops \<le> max_hops \<Longrightarrow>
   agrees s rootfs (resolve_loop s rootfs hops resolved remaining)
     (walk (chroot_view s rootfs) True (max_hops - hops) resolved remaining)"
proof (induction s rootfs hops resolved remaining rule: resolve_loop.induct)
  case (1 s rootfs hops resolved)
  then show ?case by (simp add: resolve_loop.simps walk.simps agrees_def)
next
  case (2 s rootfs hops resolved part remaining)
  let ?root = "root_of rootfs" and ?view = "chroot_view s rootfs"
  note ok = "2.prems"(1) and tidy = "2.prems"(2) and faults = "2.prems"(3) and hops = "2.prems"(7)
  have abs: "is_abs rootfs" and wf: "wf_tree (node_at s)" using ok by (auto simp: root_ok_def wf_fs_def)
  have rd: "real_dir (node_at s) (?root @ resolved)" using wf_tree_real_dir [OF wf] "2.prems"(6) by blast
  have part: "valid_name part" and vr: "valid_names remaining" and v1: "valid_names (resolved @ [part])"
    using "2.prems"(4,5) by auto
  have p: "part \<noteq> []" "part \<noteq> dot" "part \<noteq> dotdot" using part by (auto simp: valid_name_def)
  note host = host_of_candidate [OF abs v1]
  have lstat: "sys_lstat s (abs_path ((?root @ resolved) @ [part])) =
      (case node_at s ((?root @ resolved) @ [part]) of None \<Rightarrow> Inl ENOENT | Some x \<Rightarrow> Inr x)"
    using sys_lstat_entry [OF rd part] faults by simp
  note IH = "2.IH" [OF refl refl, unfolded host]
  have view: "?view (resolved @ [part]) = node_at s ((?root @ resolved) @ [part])" by (simp add: chroot_view_def)
  show ?case
  proof (cases "node_at s ((?root @ resolved) @ [part])")
    case None
    have "node_at s (((?root @ resolved) @ [part]) @ remaining) = None" by (rule wf_tree_below_missing [OF wf None])
    then show ?thesis using None lstat p view by (simp add: resolve_loop.simps host walk.simps agrees_def)
  next
    case (Some x)
    then have ls: "sys_lstat s (abs_path ((?root @ resolved) @ [part])) = Inr x" using lstat by simp
    have plain: ?thesis if nd: "\<not> is_dir (Some x)" and nl: "\<not> is_link (Some x)"
    proof (cases remaining)
      case Nil
      then show ?thesis using ls nl nd p view Some
        by (cases x) (simp_all add: resolve_loop.simps host walk.simps agrees_def)
    next
      case (Cons c cs)
      have v2: "valid_names ((resolved @ [part]) @ [c])" using v1 vr Cons by simp
      have "sys_lstat s (abs_path (((?root @ resolved) @ [part]) @ [c])) = Inl ENOTDIR"
        using lstat_below_file [OF rd part _ _ _ nd nl] v2 faults Some by simp
      then have "isl (resolve_loop s rootfs hops (resolved @ [part]) (c # cs))"
        using host_of_candidate [OF abs v2] by (simp add: resolve_loop.simps)
      then show ?thesis using ls nl nd p view Some Cons
        by (cases x) (simp_all add: resolve_loop.simps [of s rootfs hops resolved] host walk.simps agrees_def)
    qed
    show ?thesis
    proof (cases x)
      case (NDir mt)
      have "agrees s rootfs (resolve_loop s rootfs hops (resolved @ [part]) remaining)
          (walk ?view True (max_hops - hops) (resolved @ [part]) remaining)"
        using IH(1) [OF ls _ ok tidy faults v1 vr _ hops] NDir Some by simp
      then show ?thesis using ls NDir p view Some by (simp add: resolve_loop.simps host walk.simps)
    next
      case (NLink t)
      show ?thesis
      proof (cases "max_hops < Suc hops")
        case True
        then show ?thesis using ls NLink p view Some hops
          by (simp add: resolve_loop.simps host walk.simps agrees_def)
      next
        case False
        let ?cur = "if is_abs t then [] else resolved"
        define tc where "tc = (if is_abs t then path_clean t else path_clean (path_join [abs_path resolved, t]))"
        have rl: "sys_readlink s (abs_path ((?root @ resolved) @ [part])) = Inr t"
          using host_walk_entry [OF rd part] rd part faults Some NLink by (simp add: sys_readlink_def)
        have tt: "tidy_target t" using tidy_rootfsD(2) [OF tidy] Some NLink by simp
        obtain u ns where split: "split_container_path tc = u @ ns" and u: "prefix u ?cur" and ns: "valid_names ns"
          and walk_t: "\<And>m fl h cs. walk m fl h ?cur (comps t @ cs) = walk m fl h u (ns @ cs)"
        proof (rule link_target [of t ?cur tc])
          show "\<forall>n \<in> set ?cur. tidy_name n" using tidy_below [OF tidy ok "2.prems"(6)] by simp
        qed (use tt "2.prems"(4) tc_def in auto)
        have u_res: "prefix u resolved" using u by (cases "is_abs t") simp_all
        have dirs: "is_dir (?view ([] @ q))" if "prefix q u" for q
        proof -
          have "prefix (?root @ q) (?root @ resolved)" using that u_res by (simp add: prefix_order.trans)
          then show ?thesis using rd by (simp add: real_dir_def chroot_view_def)
        qed
        have vu: "valid_names u" using u_res "2.prems"(4) by (auto simp: prefix_def)
        have "agrees s rootfs (resolve_loop s rootfs (Suc hops) [] (split_container_path tc @ remaining))
            (walk ?view True (max_hops - Suc hops) [] (split_container_path tc @ remaining))"
          unfolding tc_def
          using IH(2) [OF ls _ False rl refl refl ok tidy faults _ _ _, folded abs_path_def] False NLink vr ok
          by (simp add: root_ok_def real_dir_def)
        moreover have "walk ?view True h [] (split_container_path tc @ remaining) = walk ?view True h ?cur (comps t @ remaining)" for h
          using walk_real_dirs [of u ?view "[]" True h "ns @ remaining"] dirs vu by (simp add: split walk_t)
        ultimately show ?thesis using ls rl NLink False p view Some
          by (cases "is_abs t") (simp_all add: resolve_loop.simps host walk.simps Let_def tc_def abs_path_def)
      qed
    qed (use plain Some in auto)
  qed
qed

text \<open>
  C38: on a rootfs whose link targets climb only at their start and where no name ends in
  white space, \<open>ResolveSymlinks\<close> resolves as the kernel does for a process whose root
  directory is the rootfs, with the same bound of forty links: where that walk ends, it returns
  that path; where the walk finds nothing, it returns the path of something that does not
  exist; where the walk fails because of a loop of links or of a file in place of a directory,
  it fails.
\<close>

theorem resolve_symlinks_chroot:
  assumes "root_ok s rootfs" and "tidy_rootfs s rootfs"
    and "\<And>p. fs_faults s Lstat p = None \<and> fs_faults s Readlink p = None"
  shows "case chroot_walk s rootfs (split_container_path cp) of
      Inr q \<Rightarrow> resolve_symlinks s rootfs cp = Inr (abs_path q)
    | Inl e \<Rightarrow> (if e = ENOENT
        then \<exists>q. resolve_symlinks s rootfs cp = Inr (abs_path q) \<and> node_at s (root_of rootfs @ q) = None
        else isl (resolve_symlinks s rootfs cp))"
proof -
  have "agrees s rootfs (resolve_loop s rootfs 0 [] (split_container_path cp))
      (walk (chroot_view s rootfs) True (max_hops - 0) [] (split_container_path cp))"
    using assms by (intro resolve_loop_chroot) (simp_all add: root_ok_def real_dir_def)
  moreover have "resolve_symlinks s rootfs cp =
      (case resolve_loop s rootfs 0 [] (split_container_path cp) of Inl e \<Rightarrow> Inl e | Inr q \<Rightarrow> Inr (abs_path q))"
    by (simp add: resolve_symlinks_def abs_path_def split: sum.split)
  ultimately show ?thesis
    by (auto simp: agrees_def chroot_walk_def split: sum.splits if_splits)
qed

text \<open>A rootfs with an absolute link, one that climbs, and a loop.\<close>

definition linked_tree :: tree where
  "linked_tree = [([], dir_node), ([''r''], dir_node), ([''r'', ''etc''], dir_node), ([''r'', ''usr''], dir_node),
     ([''r'', ''usr'', ''ca.pem''], file_node ''A''), ([''r'', ''etc'', ''ca.pem''], NLink ''../usr/ca.pem''),
     ([''r'', ''ssl''], NLink ''/etc''), ([''r'', ''loop''], NLink ''loop'')]"

theorem resolve_symlinks_chroot_witness:
  "resolve_symlinks (fs_of linked_tree) ''/r'' ''/ssl/ca.pem'' = Inr ''/usr/ca.pem'' \<and>
   (\<exists>q. resolve_symlinks (fs_of linked_tree) ''/r'' ''/ssl/none/x'' = Inr (abs_path q) \<and>
      node_at (fs_of linked_tree) ([''r''] @ q) = None) \<and>
   isl (resolve_symlinks (fs_of linked_tree) ''/r'' ''/loop'')"
proof -
  let ?s = "fs_of linked_tree"
  have wf: "wf_tree_check linked_tree" and root: "root_of ''/r'' = [''r'']" "is_abs ''/r''" "is_dir (map_of linked_tree [''r''])"
    by code_simp+
  have ok: "root_ok ?s ''/r''"
    using root wf_fs_of [OF wf] real_dir_fs_of [OF wf] by (simp add: root_ok_def)
  have tidy: "list_all (\<lambda>(p, x). p = [] \<or> tidy_name (last p)) linked_tree"
    "list_all (\<lambda>(p, x). case x of NLink t \<Rightarrow> tidy_target t | _ \<Rightarrow> True) linked_tree"
    by code_simp+
  have "tidy_rootfs ?s ''/r''"
    using tidy by (fastforce simp: tidy_rootfs_def list_all_iff dest: map_of_SomeD)
  note r = resolve_symlinks_chroot [OF ok this]
  have w: "chroot_walk ?s ''/r'' (split_container_path ''/ssl/ca.pem'') = Inr [''usr'', ''ca.pem'']"
    "chroot_walk ?s ''/r'' (split_container_path ''/ssl/none/x'') = Inl ENOENT"
    "chroot_walk ?s ''/r'' (split_container_path ''/loop'') = Inl ELOOP"
    by code_simp+
  have "abs_path [''usr'', ''ca.pem''] = ''/usr/ca.pem''" by code_simp
  then show ?thesis
    using r [of "''/ssl/ca.pem''"] r [of "''/ssl/none/x''"] r [of "''/loop''"] w root(1) by simp
qed

section \<open>Where the code differs from the kernel\<close>

text \<open>A target that climbs after a link, and one that ends in a space.\<close>

definition untidy_tree :: tree where
  "untidy_tree = [([], dir_node), ([''r''], dir_node), ([''r'', ''x''], dir_node), ([''r'', ''x'', ''y''], dir_node),
     ([''r'', ''x'', ''b''], file_node ''B''), ([''r'', ''d''], NLink ''/x/y''), ([''r'', ''l''], NLink ''d/../b''),
     ([''r'', ''x'', ''c ''], file_node ''C''), ([''r'', ''m''], NLink ''x/c '')]"

lemma resolve_symlinks_differs:
  "chroot_walk (fs_of untidy_tree) ''/r'' (split_container_path ''/l'') = Inr [''x'', ''b''] \<and>
   resolve_symlinks (fs_of untidy_tree) ''/r'' ''/l'' = Inr ''/b'' \<and>
   chroot_walk (fs_of untidy_tree) ''/r'' (split_container_path ''/m'') = Inr [''x'', ''c ''] \<and>
   resolve_symlinks (fs_of untidy_tree) ''/r'' ''/m'' = Inr ''/x/c''"
  by (intro conjI; code_simp)

end
