(* ===== verification/Certs.thy ===== *)
theory Certs
  imports Go_Strings
begin

text \<open>
  \<open>pkg/certs/merge.go\<close>: read the certificates of a PEM bundle, validate a bundle, and merge
  one bundle into another without duplicates.

  The packages outside the repository are a parameter of the model: a record of the functions the
  code calls. \<open>pem_next data\<close> is \<open>pem.Decode\<close>: the next block and where the remainder starts,
  counted from the second byte of \<open>data\<close>, since a block takes at least one byte. The trust
  store codec for PKCS#12 is a third-party package; \<open>unicode_lower\<close> is \<open>strings.ToLower\<close> on
  text that need not be ASCII.
\<close>

section \<open>The packages the code calls\<close>

record pem_block =
  pb_type :: string
  pb_bytes :: bytes

record cert =
  cert_raw :: bytes
  cert_cn :: string
  cert_subject :: string

record packages =
  x509_parse :: "bytes \<Rightarrow> cert res"
  sha256 :: "bytes \<Rightarrow> bytes"
  sha1 :: "bytes \<Rightarrow> bytes"
  pem_next :: "bytes \<Rightarrow> (pem_block \<times> nat) option"
  pem_encode :: "pem_block \<Rightarrow> bytes"
  pkcs12_decode :: "bytes \<Rightarrow> string \<Rightarrow> cert list res"
  pkcs12_encode :: "(cert \<times> string) list \<Rightarrow> bytes res"
  unicode_lower :: "string \<Rightarrow> string"

definition pem_decode :: "packages \<Rightarrow> bytes \<Rightarrow> (pem_block \<times> bytes) option" where
  "pem_decode C data = (if data = [] then None else
     (case pem_next C data of None \<Rightarrow> None | Some (b, n) \<Rightarrow> Some (b, drop (Suc n) data)))"

lemma pem_decode_shorter: "pem_decode C data = Some (b, r) \<Longrightarrow> length r < length data"
  by (auto simp: pem_decode_def split: if_splits option.splits)

lemma pem_decode_Nil [simp]: "pem_decode C [] = None"
  by (simp add: pem_decode_def)

text \<open>Lowercase hexadecimal, as \<open>hex.EncodeToString\<close> and \<open>%x\<close> print bytes.\<close>

definition hex_digit :: "nat \<Rightarrow> char" where
  "hex_digit n = char_of (if n < 10 then 48 + n else 87 + n)"

definition hex_encode :: "bytes \<Rightarrow> string" where
  "hex_encode b = concat (map (\<lambda>c. [hex_digit (of_char c div 16), hex_digit (of_char c mod 16)]) b)"

definition certificate_type :: string where "certificate_type = ''CERTIFICATE''"

section \<open>The operations\<close>

function parse_cert_pem_blocks :: "packages \<Rightarrow> bytes \<Rightarrow> pem_block list" where
  "parse_cert_pem_blocks C rest = (case pem_decode C rest of
     None \<Rightarrow> []
   | Some (block, r) \<Rightarrow>
       (if pb_type block = certificate_type then [block] else []) @ parse_cert_pem_blocks C r)"
  by pat_completeness auto
termination
  by (relation "measure (\<lambda>(C, d). length d)") (auto dest: pem_decode_shorter)

declare parse_cert_pem_blocks.simps [simp del]

definition fingerprint_of :: "packages \<Rightarrow> cert \<Rightarrow> bytes" where
  "fingerprint_of C c = sha256 C (cert_raw c)"

text \<open>The fingerprints of the existing bundle; a block that does not parse is skipped.\<close>

fun existing_hashes :: "packages \<Rightarrow> pem_block list \<Rightarrow> bytes list" where
  "existing_hashes C [] = []"
| "existing_hashes C (b # bs) = (case x509_parse C (pb_bytes b) of
     Inl _ \<Rightarrow> existing_hashes C bs
   | Inr c \<Rightarrow> fingerprint_of C c # existing_hashes C bs)"

fun collect_additions :: "packages \<Rightarrow> pem_block list \<Rightarrow> bytes list \<Rightarrow> bytes list res" where
  "collect_additions C [] seen = Inr []"
| "collect_additions C (b # bs) seen = (case x509_parse C (pb_bytes b) of
     Inl e \<Rightarrow> Inl (Wrapped ''failed to parse certificate from CA bundle'' e)
   | Inr c \<Rightarrow>
      (let fp = fingerprint_of C c in
       if fp \<in> set seen then collect_additions C bs seen
       else (case collect_additions C bs (fp # seen) of
           Inl e \<Rightarrow> Inl e
         | Inr ps \<Rightarrow> Inr (pem_encode C \<lparr>pb_type = certificate_type, pb_bytes = cert_raw c\<rparr> # ps))))"

fun append_pems :: "bytes \<Rightarrow> bytes list \<Rightarrow> bytes" where
  "append_pems out [] = out"
| "append_pems out (p # ps) =
     append_pems ((if out = [] then [] else out @ [CHR 0x0A]) @ trim_space p @ [CHR 0x0A]) ps"

record merge_result =
  mr_merged :: bytes
  mr_added :: nat

definition merge_pem :: "packages \<Rightarrow> bytes \<Rightarrow> bytes \<Rightarrow> merge_result res" where
  "merge_pem C existing addition =
     (case collect_additions C (parse_cert_pem_blocks C addition)
             (existing_hashes C (parse_cert_pem_blocks C existing)) of
        Inl e \<Rightarrow> Inl e
      | Inr additions \<Rightarrow>
          if length additions = 0 then Inr \<lparr>mr_merged = existing, mr_added = 0\<rparr>
          else Inr \<lparr>mr_merged = append_pems (trim_right_nl existing) additions,
                    mr_added = length additions\<rparr>)"

fun validate_blocks :: "packages \<Rightarrow> pem_block list \<Rightarrow> unit res" where
  "validate_blocks C [] = Inr ()"
| "validate_blocks C (b # bs) = (case x509_parse C (pb_bytes b) of
     Inl e \<Rightarrow> Inl (Wrapped ''certificate is invalid'' e)
   | Inr _ \<Rightarrow> validate_blocks C bs)"

definition validate_pem :: "packages \<Rightarrow> bytes \<Rightarrow> unit res" where
  "validate_pem C data = (let blocks = parse_cert_pem_blocks C data in
     if length blocks = 0 then Inl (Msg ''no PEM certificate blocks found'')
     else validate_blocks C blocks)"

section \<open>What a bundle trusts\<close>

text \<open>The parsable certificates of a list of blocks, the reference the merge is measured against.\<close>

definition bundle_certs :: "packages \<Rightarrow> pem_block list \<Rightarrow> cert list" where
  "bundle_certs C bs = concat (map (\<lambda>b. case x509_parse C (pb_bytes b) of Inl _ \<Rightarrow> [] | Inr c \<Rightarrow> [c]) bs)"

definition trusted :: "packages \<Rightarrow> bytes \<Rightarrow> bytes set" where
  "trusted C data = fingerprint_of C ` set (bundle_certs C (parse_cert_pem_blocks C data))"

lemma existing_hashes_certs: "existing_hashes C bs = map (fingerprint_of C) (bundle_certs C bs)"
  by (induction bs) (auto simp: bundle_certs_def split: sum.splits)

lemma validate_blocks_iff:
  "validate_blocks C bs = Inr () \<longleftrightarrow> (\<forall>b \<in> set bs. \<exists>c. x509_parse C (pb_bytes b) = Inr c)"
  by (induction bs) (auto split: sum.splits)

text \<open>The certificates of the additions, kept as certificates: the part of
  \<open>collect_additions\<close> before the encoding.\<close>

fun new_certs :: "packages \<Rightarrow> cert list \<Rightarrow> bytes list \<Rightarrow> cert list" where
  "new_certs C [] seen = []"
| "new_certs C (c # cs) seen =
     (if fingerprint_of C c \<in> set seen then new_certs C cs seen
      else c # new_certs C cs (fingerprint_of C c # seen))"

definition cert_block :: "cert \<Rightarrow> pem_block" where
  "cert_block c = \<lparr>pb_type = certificate_type, pb_bytes = cert_raw c\<rparr>"

lemma collect_additions_Inr:
  "collect_additions C bs seen = Inr ps \<longleftrightarrow>
     (\<forall>b \<in> set bs. \<exists>c. x509_parse C (pb_bytes b) = Inr c) \<and>
     ps = map (pem_encode C \<circ> cert_block) (new_certs C (bundle_certs C bs) seen)"
proof (induction bs arbitrary: seen ps)
  case (Cons b bs)
  show ?case
  proof (cases "x509_parse C (pb_bytes b)")
    case (Inr c)
    then have bc: "bundle_certs C (b # bs) = c # bundle_certs C bs" by (simp add: bundle_certs_def)
    show ?thesis
    proof (cases "fingerprint_of C c \<in> set seen")
      case True
      then show ?thesis using Cons.IH [of seen ps] Inr bc by simp
    next
      case False
      have step: "collect_additions C (b # bs) seen = Inr ps \<longleftrightarrow>
          (\<exists>qs. collect_additions C bs (fingerprint_of C c # seen) = Inr qs \<and>
             ps = pem_encode C (cert_block c) # qs)"
        using Inr False by (auto simp: cert_block_def split: sum.splits)
      show ?thesis unfolding step Cons.IH using Inr False bc by auto
    qed
  qed simp
qed (auto simp: bundle_certs_def)

lemma collect_additions_parse:
  "collect_additions C bs seen = Inr ps \<Longrightarrow> \<forall>b \<in> set bs. \<exists>c. x509_parse C (pb_bytes b) = Inr c"
  using collect_additions_Inr [of C bs seen ps] by blast

lemma collect_additions_total:
  "\<forall>b \<in> set bs. \<exists>c. x509_parse C (pb_bytes b) = Inr c \<Longrightarrow> \<exists>ps. collect_additions C bs seen = Inr ps"
  using collect_additions_Inr [of C bs seen] by blast

lemma new_certs_fingerprints:
  "fingerprint_of C ` set (new_certs C cs seen) = fingerprint_of C ` set cs - set seen"
  by (induction cs arbitrary: seen) auto

lemma new_certs_distinct: "distinct (map (fingerprint_of C) (new_certs C cs seen))"
proof (induction cs arbitrary: seen)
  case (Cons c cs)
  then show ?case using new_certs_fingerprints [of C cs "fingerprint_of C c # seen"] by auto
qed simp

lemma new_certs_subset: "set (new_certs C cs seen) \<subseteq> set cs"
  by (induction cs arbitrary: seen) (auto split: if_splits)

lemma new_certs_none: "fingerprint_of C ` set cs \<subseteq> set seen \<Longrightarrow> new_certs C cs seen = []"
  by (induction cs arbitrary: seen) auto

lemma new_certs_none_iff: "new_certs C cs seen = [] \<longleftrightarrow> fingerprint_of C ` set cs \<subseteq> set seen"
  by (induction cs arbitrary: seen) auto

lemma append_pems_prefix: "prefix out (append_pems out ps)"
proof (induction ps arbitrary: out)
  case (Cons p ps)
  have "prefix out ((if out = [] then [] else out @ [CHR 0x0A]) @ trim_space p @ [CHR 0x0A])" by simp
  then show ?case using Cons prefix_order.trans by fastforce
qed simp

section \<open>The merged bundle read back\<close>

text \<open>
  What the merge relies on when its output is parsed again. \<open>closed_bundle\<close>: the bundle has
  no dangling start of a block, so what is appended on a new line is read on its own.
  \<open>encodes_back\<close>: an encoded certificate on a line of its own is the next block. Both are
  what the documentation of \<open>encoding/pem\<close> says of complete bundles.
\<close>

definition closed_bundle :: "packages \<Rightarrow> bytes \<Rightarrow> bool" where
  "closed_bundle C e = (\<forall>y. parse_cert_pem_blocks C (trim_right_nl e @ CHR 0x0A # y) =
     parse_cert_pem_blocks C e @ parse_cert_pem_blocks C y)"

definition encodes_back :: "packages \<Rightarrow> cert \<Rightarrow> bool" where
  "encodes_back C c = (\<forall>y. parse_cert_pem_blocks C (trim_space (pem_encode C (cert_block c)) @ CHR 0x0A # y)
     = cert_block c # parse_cert_pem_blocks C y \<and>
     parse_cert_pem_blocks C (CHR 0x0A # y) = parse_cert_pem_blocks C y)"

text \<open>The bytes \<open>append_pems\<close> puts after a nonempty start.\<close>

fun pem_tail :: "packages \<Rightarrow> cert list \<Rightarrow> bytes" where
  "pem_tail C [] = []"
| "pem_tail C [c] = trim_space (pem_encode C (cert_block c)) @ [CHR 0x0A]"
| "pem_tail C (c # cs) = trim_space (pem_encode C (cert_block c)) @ CHR 0x0A # CHR 0x0A # pem_tail C cs"

lemma append_pems_tail:
  "out \<noteq> [] \<Longrightarrow> cs \<noteq> [] \<Longrightarrow>
   append_pems out (map (pem_encode C \<circ> cert_block) cs) = out @ CHR 0x0A # pem_tail C cs"
proof (induction cs arbitrary: out)
  case (Cons c cs)
  show ?case
  proof (cases cs)
    case Nil
    then show ?thesis using Cons.prems by simp
  next
    case (Cons d ds)
    then show ?thesis using Cons.IH [of "out @ CHR 0x0A # trim_space (pem_encode C (cert_block c)) @ [CHR 0x0A]"]
      Cons.prems by simp
  qed
qed simp

lemma append_pems_tail_empty:
  assumes "cs \<noteq> []"
  shows "append_pems [] (map (pem_encode C \<circ> cert_block) cs) = pem_tail C cs"
proof (cases cs)
  case (Cons c ds)
  then show ?thesis
  proof (cases "ds = []")
    case False
    then obtain d es where "ds = d # es" by (cases ds) auto
    then show ?thesis
      using append_pems_tail [of "trim_space (pem_encode C (cert_block c)) @ [CHR 0x0A]" ds C] Cons by simp
  qed simp
qed (use assms in simp)

lemma parse_cert_pem_blocks_Nil [simp]: "parse_cert_pem_blocks C [] = []"
  by (simp add: parse_cert_pem_blocks.simps)

lemma pem_tail_blocks:
  "\<forall>c \<in> set cs. encodes_back C c \<Longrightarrow> parse_cert_pem_blocks C (pem_tail C cs) = map cert_block cs"
proof (induction C cs rule: pem_tail.induct)
  case (2 C c)
  then have "parse_cert_pem_blocks C (pem_tail C [c]) = cert_block c # parse_cert_pem_blocks C []"
    unfolding pem_tail.simps encodes_back_def by auto
  then show ?case by simp
next
  case (3 C c d cs)
  then have c: "encodes_back C c" by simp
  have "parse_cert_pem_blocks C (pem_tail C (c # d # cs)) =
      cert_block c # parse_cert_pem_blocks C (CHR 0x0A # pem_tail C (d # cs))"
    using c unfolding pem_tail.simps encodes_back_def by simp
  also have "\<dots> = cert_block c # parse_cert_pem_blocks C (pem_tail C (d # cs))"
    using c unfolding encodes_back_def by blast
  finally show ?case using 3 by simp
qed simp

text \<open>The blocks of a merged bundle: those of the old one, then the new certificates.\<close>

lemma merge_pem_blocks:
  assumes run: "merge_pem C existing addition = Inr m"
    and closed: "closed_bundle C existing"
    and enc: "\<forall>c \<in> set (bundle_certs C (parse_cert_pem_blocks C addition)). encodes_back C c"
  shows "parse_cert_pem_blocks C (mr_merged m) = parse_cert_pem_blocks C existing @
     map cert_block (new_certs C (bundle_certs C (parse_cert_pem_blocks C addition))
       (existing_hashes C (parse_cert_pem_blocks C existing)))"
proof -
  let ?new = "new_certs C (bundle_certs C (parse_cert_pem_blocks C addition))
       (existing_hashes C (parse_cert_pem_blocks C existing))"
  obtain ps where ps: "collect_additions C (parse_cert_pem_blocks C addition)
       (existing_hashes C (parse_cert_pem_blocks C existing)) = Inr ps"
    and m: "m = (if ps = [] then \<lparr>mr_merged = existing, mr_added = 0\<rparr>
       else \<lparr>mr_merged = append_pems (trim_right_nl existing) ps, mr_added = length ps\<rparr>)"
    using run by (auto simp: merge_pem_def split: sum.splits if_splits)
  have p: "ps = map (pem_encode C \<circ> cert_block) ?new" using ps by (simp only: collect_additions_Inr)
  have new: "\<forall>c \<in> set ?new. encodes_back C c" using enc new_certs_subset by blast
  show ?thesis
  proof (cases "?new = []")
    case True
    then show ?thesis using m p by simp
  next
    case ne: False
    then have merged: "mr_merged m = append_pems (trim_right_nl existing) (map (pem_encode C \<circ> cert_block) ?new)"
      using m p by simp
    show ?thesis
    proof (cases "trim_right_nl existing = []")
      case True
      obtain c where c: "encodes_back C c" using new ne by (cases ?new) auto
      have nl: "parse_cert_pem_blocks C (CHR 0x0A # y) = parse_cert_pem_blocks C y" for y
        using c unfolding encodes_back_def by blast
      have "parse_cert_pem_blocks C existing @ parse_cert_pem_blocks C [] = parse_cert_pem_blocks C [CHR 0x0A]"
        using closed True unfolding closed_bundle_def by (metis append_Nil)
      then have "parse_cert_pem_blocks C existing = []" using nl [of "[]"] by simp
      then show ?thesis
        using merged True append_pems_tail_empty [OF ne] pem_tail_blocks [OF new] by simp
    next
      case False
      then show ?thesis
        using merged append_pems_tail [OF False ne] pem_tail_blocks [OF new] closed
        by (simp add: closed_bundle_def)
    qed
  qed
qed

end
