(* ===== verification/Engine_Api.thy ===== *)
theory Engine_Api
  imports Container_Fs_Writes Env_Util Certs
begin

text \<open>
  \<open>internal/engine/api/types.go\<close>: the context that flows through the processors, the fact
  store they talk through, and the two host-side helpers of the context. A processor step
  takes the context and the file system and returns its error, the context and the file
  system. A nil fact store is \<open>None\<close>.
\<close>

section \<open>Facts\<close>

type_synonym fact_key = string

definition fact_trust_store_path :: fact_key where "fact_trust_store_path = ''trust_store_path''"
definition fact_trust_store_kind :: fact_key where "fact_trust_store_kind = ''trust_store_kind''"
definition fact_distro :: fact_key where "fact_distro = ''distro''"
definition fact_individual_ca_path :: fact_key where "fact_individual_ca_path = ''individual_ca_path''"
definition fact_merged_ca_path :: fact_key where "fact_merged_ca_path = ''merged_ca_path''"
definition fact_rootfs_read_only :: fact_key where "fact_rootfs_read_only = ''rootfs_read_only''"
definition fact_java_trust_store_path :: fact_key where
  "fact_java_trust_store_path = ''java_trust_store_path''"
definition fact_java_trust_store_type :: fact_key where
  "fact_java_trust_store_type = ''java_trust_store_type''"

lemmas fact_defs = fact_trust_store_path_def fact_trust_store_kind_def fact_distro_def
  fact_individual_ca_path_def fact_merged_ca_path_def fact_rootfs_read_only_def
  fact_java_trust_store_path_def fact_java_trust_store_type_def

lemma fact_keys_distinct:
  "distinct [fact_trust_store_path, fact_trust_store_kind, fact_distro, fact_individual_ca_path,
     fact_merged_ca_path, fact_rootfs_read_only, fact_java_trust_store_path, fact_java_trust_store_type]"
  by (simp add: fact_defs)

lemmas fact_keys_neq [simp] = fact_keys_distinct [simplified]

text \<open>\<open>MapFactStore\<close>.\<close>

definition facts_new :: strmap where "facts_new = []"

definition facts_set :: "strmap \<Rightarrow> fact_key \<Rightarrow> string \<Rightarrow> strmap" where
  "facts_set m k v = AList.update k v m"

definition facts_get :: "strmap \<Rightarrow> fact_key \<Rightarrow> string option" where
  "facts_get m k = map_of m k"

text \<open>The copy loops of \<open>Snapshot\<close> and \<open>NewMapFactStoreFromSnapshot\<close>.\<close>

fun copy_into :: "strmap \<Rightarrow> strmap \<Rightarrow> strmap" where
  "copy_into out [] = out"
| "copy_into out ((k, v) # m) = copy_into (AList.update k v out) m"

definition facts_snapshot :: "strmap \<Rightarrow> strmap" where
  "facts_snapshot m = copy_into [] (rev m)"

definition facts_from_snapshot :: "strmap \<Rightarrow> strmap" where
  "facts_from_snapshot vs = copy_into facts_new (rev vs)"

lemma map_of_copy_into: "map_of (copy_into out m) = map_of out ++ map_of (rev m)"
  by (induction out m rule: copy_into.induct) (auto simp: map_add_def fun_eq_iff split: option.splits)

text \<open>What the processors rely on: the contract of the \<open>FactStore\<close> interface.\<close>

locale fact_store =
  fixes set_fact :: "'s \<Rightarrow> fact_key \<Rightarrow> string \<Rightarrow> 's"
    and get_fact :: "'s \<Rightarrow> fact_key \<Rightarrow> string option"
    and snapshot :: "'s \<Rightarrow> strmap"
    and restore :: "strmap \<Rightarrow> 's"
  assumes get_set: "get_fact (set_fact m k v) k' = (if k' = k then Some v else get_fact m k')"
    and get_restore: "get_fact (restore vs) k = map_of vs k"
    and snapshot_get: "map_of (snapshot m) k = get_fact m k"
begin

lemma get_set_same [simp]: "get_fact (set_fact m k v) k = Some v"
  by (simp add: get_set)

lemma get_set_other [simp]: "k' \<noteq> k \<Longrightarrow> get_fact (set_fact m k v) k' = get_fact m k'"
  by (simp add: get_set)

text \<open>What the hook saved is what the wrapper restores.\<close>

lemma restore_snapshot: "get_fact (restore (snapshot m)) k = get_fact m k"
  by (simp add: get_restore snapshot_get)

end

interpretation facts: fact_store facts_set facts_get facts_snapshot facts_from_snapshot
proof
  show "facts_get (facts_set m k v) k' = (if k' = k then Some v else facts_get m k')" for m k v k'
    by (simp add: facts_set_def facts_get_def)
  show "facts_get (facts_from_snapshot vs) k = map_of vs k" for vs k
    by (simp add: facts_get_def facts_from_snapshot_def facts_new_def map_of_copy_into)
  show "map_of (facts_snapshot m) k = facts_get m k" for m k
    by (simp add: facts_get_def facts_snapshot_def map_of_copy_into)
qed

section \<open>Context\<close>

record detect_result =
  dr_applicable :: bool
  dr_reason :: string
  dr_priority :: int

record processor_result =
  pr_name :: string
  pr_category :: string
  pr_applied :: bool
  pr_skipped :: bool
  pr_err :: "goerr option"
  pr_reason :: string

record hctx =
  cx_mode :: string
  cx_bundle :: string
  cx_annotations :: strmap
  cx_rootfs :: string
  cx_ca_file :: string
  cx_fail_policy :: string
  cx_env :: "string list"
  cx_facts :: "strmap option"
  cx_results :: "processor_result list"

text \<open>A processor step on a context.\<close>

type_synonym 'a step = "hctx \<Rightarrow> fs \<Rightarrow> 'a res \<times> hctx \<times> fs"

text \<open>
  The interface \<open>Processor\<close>, with the method of \<open>WrapperProcessor\<close> for those that have it:
  an interface value is the record of its methods. \<open>ApplyWrapper\<close> sees no file system.
\<close>

record processor =
  p_name :: string
  p_category :: string
  p_detect :: "hctx option \<Rightarrow> fs \<Rightarrow> detect_result"
  p_apply :: "unit step"
  p_apply_wrapper :: "(hctx \<Rightarrow> unit res \<times> hctx) option"

text \<open>\<open>ctx.Facts.Set\<close> and \<open>ctx.Facts.Get\<close>.\<close>

definition set_fact :: "fact_key \<Rightarrow> string \<Rightarrow> hctx \<Rightarrow> hctx" where
  "set_fact k v ctx = ctx\<lparr>cx_facts := map_option (\<lambda>m. facts_set m k v) (cx_facts ctx)\<rparr>"

definition get_fact :: "hctx \<Rightarrow> fact_key \<Rightarrow> string option" where
  "get_fact ctx k = (case cx_facts ctx of None \<Rightarrow> None | Some m \<Rightarrow> facts_get m k)"

definition fact_or_empty :: "strmap \<Rightarrow> fact_key \<Rightarrow> string" where
  "fact_or_empty m k = (case facts_get m k of None \<Rightarrow> [] | Some v \<Rightarrow> v)"

definition preferred_ca_bundle_path :: "strmap option \<Rightarrow> string" where
  "preferred_ca_bundle_path fs =
     (case fs of None \<Rightarrow> []
      | Some m \<Rightarrow>
        (let merged = (case facts_get m fact_merged_ca_path of None \<Rightarrow> [] | Some v \<Rightarrow> trim_space v)
         in if merged \<noteq> [] then merged else trim_space (fact_or_empty m fact_individual_ca_path)))"

definition add_result :: "processor_result \<Rightarrow> hctx \<Rightarrow> hctx" where
  "add_result r ctx = ctx\<lparr>cx_results := cx_results ctx @ [r]\<rparr>"

definition read_ca_bundle :: "hctx \<Rightarrow> fs \<Rightarrow> bytes res" where
  "read_ca_bundle ctx s = (case os_read_file s (cx_ca_file ctx) of
     Inl e \<Rightarrow> Inl (Wrapped ''failed to read CA bundle file'' e) | Inr b \<Rightarrow> Inr b)"

definition stage_options :: write_options where
  "stage_options = \<lparr>wo_fallback_mode = 420, wo_refuse_symlink = True, wo_preserve_owner = True\<rparr>"

definition stage_file :: "hctx \<Rightarrow> string \<Rightarrow> bytes \<Rightarrow> string io" where
  "stage_file ctx name data s =
     (if trim_space (cx_ca_file ctx) = [] then (Inl (Msg ''cannot stage: no CA file path''), s)
      else if name \<noteq> path_base name then (Inl (Msg ''cannot stage: not a plain file name''), s)
      else
       (let target = path_join [path_dir (cx_ca_file ctx), name] in
        (case atomic_write target data stage_options s of
           (Inl e, s1) \<Rightarrow> (Inl (Wrapped ''failed to stage'' e), s1)
         | (Inr _, s1) \<Rightarrow> (Inr target, s1))))"

section \<open>Laws\<close>

lemma set_fact_simps [simp]:
  "cx_mode (set_fact k v ctx) = cx_mode ctx" "cx_bundle (set_fact k v ctx) = cx_bundle ctx"
  "cx_annotations (set_fact k v ctx) = cx_annotations ctx"
  "cx_rootfs (set_fact k v ctx) = cx_rootfs ctx" "cx_ca_file (set_fact k v ctx) = cx_ca_file ctx"
  "cx_fail_policy (set_fact k v ctx) = cx_fail_policy ctx" "cx_env (set_fact k v ctx) = cx_env ctx"
  "cx_results (set_fact k v ctx) = cx_results ctx"
  by (simp_all add: set_fact_def)

lemma cx_facts_set_fact [simp]: "cx_facts (set_fact k v ctx) = None \<longleftrightarrow> cx_facts ctx = None"
  by (simp add: set_fact_def)

lemma get_set_fact:
  "cx_facts ctx \<noteq> None \<Longrightarrow> get_fact (set_fact k v ctx) k' = (if k' = k then Some v else get_fact ctx k')"
  by (auto simp: get_fact_def set_fact_def facts.get_set)

text \<open>The preferred bundle is the merged one whenever there is one.\<close>

lemma preferred_merged:
  "facts_get m fact_merged_ca_path = Some v \<Longrightarrow> trim_space v \<noteq> [] \<Longrightarrow>
   preferred_ca_bundle_path (Some m) = trim_space v"
  by (simp add: preferred_ca_bundle_path_def)

lemma preferred_individual:
  "trim_space (fact_or_empty m fact_merged_ca_path) = [] \<Longrightarrow>
   preferred_ca_bundle_path (Some m) = trim_space (fact_or_empty m fact_individual_ca_path)"
  by (simp add: preferred_ca_bundle_path_def fact_or_empty_def split: option.splits)

end
