(* ===== verification/Lang_Processors.thy ===== *)
theory Lang_Processors
  imports Engine_Api
begin

text \<open>
  The language processors that only set environment variables:
  \<open>internal/engine/processors/{dotnet,golang,ruby,nodejs,python}\<close>. Detection looks for the
  runtime's launcher in the rootfs; \<open>Apply\<close> does nothing; \<open>ApplyWrapper\<close> points the
  runtime's variable at a CA bundle. Trust-replacing variables get the merged bundle,
  Node.js's additive one the CA alone.
\<close>

definition lang_priority :: int where "lang_priority = 100"
definition missing_context_reason :: string where "missing_context_reason = ''missing context''"
definition env_ssl_cert_file :: string where "env_ssl_cert_file = ''SSL_CERT_FILE''"
definition env_requests_ca_bundle :: string where "env_requests_ca_bundle = ''REQUESTS_CA_BUNDLE''"
definition env_node_extra_ca_certs :: string where "env_node_extra_ca_certs = ''NODE_EXTRA_CA_CERTS''"

text \<open>The body the five \<open>Detect\<close> methods share: candidates and reason differ.\<close>

definition lang_detect :: "string list \<Rightarrow> string \<Rightarrow> hctx option \<Rightarrow> fs \<Rightarrow> detect_result" where
  "lang_detect candidates reason ctx s =
     (case ctx of
        None \<Rightarrow> \<lparr>dr_applicable = False, dr_reason = missing_context_reason, dr_priority = lang_priority\<rparr>
      | Some cx \<Rightarrow>
          if has_any_regular_file s (cx_rootfs cx) candidates
          then \<lparr>dr_applicable = True, dr_reason = [], dr_priority = lang_priority\<rparr>
          else \<lparr>dr_applicable = False, dr_reason = reason, dr_priority = lang_priority\<rparr>)"

definition lang_apply :: "unit step" where
  "lang_apply ctx s = (Inr (), ctx, s)"

text \<open>\<open>ApplyWrapper\<close> of the .NET, Go and Ruby processors.\<close>

definition ssl_cert_file_wrapper :: "hctx \<Rightarrow> unit res \<times> hctx" where
  "ssl_cert_file_wrapper ctx =
     (let ca_path = preferred_ca_bundle_path (cx_facts ctx) in
      if ca_path = [] then (Inr (), ctx)
      else (Inr (), ctx\<lparr>cx_env := upsert (cx_env ctx) env_ssl_cert_file ca_path\<rparr>))"

definition python_apply_wrapper :: "hctx \<Rightarrow> unit res \<times> hctx" where
  "python_apply_wrapper ctx =
     (let ca_path = preferred_ca_bundle_path (cx_facts ctx) in
      if ca_path = [] then (Inr (), ctx)
      else (Inr (), ctx\<lparr>cx_env := upsert (upsert (cx_env ctx) env_ssl_cert_file ca_path)
              env_requests_ca_bundle ca_path\<rparr>))"

definition nodejs_apply_wrapper :: "hctx \<Rightarrow> unit res \<times> hctx" where
  "nodejs_apply_wrapper ctx =
     (case cx_facts ctx of None \<Rightarrow> (Inr (), ctx)
      | Some m \<Rightarrow> (case facts_get m fact_individual_ca_path of None \<Rightarrow> (Inr (), ctx)
          | Some v \<Rightarrow>
             (let p = trim_space v in
              if p = [] then (Inr (), ctx)
              else (Inr (), ctx\<lparr>cx_env := upsert (cx_env ctx) env_node_extra_ca_certs p\<rparr>))))"

definition dotnet_host_candidates :: "string list" where
  "dotnet_host_candidates = [''/usr/share/dotnet/dotnet'', ''/usr/lib/dotnet/dotnet'', ''/usr/bin/dotnet'']"

definition new_dotnet :: processor where
  "new_dotnet = \<lparr>p_name = ''lang-dotnet'', p_category = ''language'',
     p_detect = lang_detect dotnet_host_candidates ''dotnet host not found'',
     p_apply = lang_apply, p_apply_wrapper = Some ssl_cert_file_wrapper\<rparr>"

definition go_binary_candidates :: "string list" where
  "go_binary_candidates = [''/usr/local/go/bin/go'', ''/usr/bin/go'', ''/usr/local/bin/go'']"

definition new_golang :: processor where
  "new_golang = \<lparr>p_name = ''lang-go'', p_category = ''language'',
     p_detect = lang_detect go_binary_candidates ''go binary not found'',
     p_apply = lang_apply, p_apply_wrapper = Some ssl_cert_file_wrapper\<rparr>"

definition ruby_binary_candidates :: "string list" where
  "ruby_binary_candidates = [''/usr/bin/ruby'', ''/usr/local/bin/ruby'', ''/bin/ruby'']"

definition new_ruby :: processor where
  "new_ruby = \<lparr>p_name = ''lang-ruby'', p_category = ''language'',
     p_detect = lang_detect ruby_binary_candidates ''ruby binary not found'',
     p_apply = lang_apply, p_apply_wrapper = Some ssl_cert_file_wrapper\<rparr>"

definition node_binary_candidates :: "string list" where
  "node_binary_candidates = [''/usr/bin/node'', ''/usr/local/bin/node'', ''/bin/node'',
     ''/usr/bin/nodejs'']"

definition new_nodejs :: processor where
  "new_nodejs = \<lparr>p_name = ''lang-nodejs'', p_category = ''language'',
     p_detect = lang_detect node_binary_candidates ''node binary not found'',
     p_apply = lang_apply, p_apply_wrapper = Some nodejs_apply_wrapper\<rparr>"

definition python_binary_candidates :: "string list" where
  "python_binary_candidates = [''/usr/bin/python3'', ''/usr/local/bin/python3'', ''/bin/python3'',
     ''/usr/bin/python'', ''/usr/local/bin/python'', ''/bin/python'']"

definition new_python :: processor where
  "new_python = \<lparr>p_name = ''lang-python'', p_category = ''language'',
     p_detect = lang_detect python_binary_candidates ''python binary not found'',
     p_apply = lang_apply, p_apply_wrapper = Some python_apply_wrapper\<rparr>"

section \<open>Laws\<close>

lemma lang_env_distinct:
  "distinct [env_ssl_cert_file, env_requests_ca_bundle, env_node_extra_ca_certs]"
  by (simp add: env_ssl_cert_file_def env_requests_ca_bundle_def env_node_extra_ca_certs_def)

lemma ok_lang_keys [simp]:
  "env_key env_ssl_cert_file" "env_key env_requests_ca_bundle" "env_key env_node_extra_ca_certs"
  by (simp_all add: env_key_def env_ssl_cert_file_def env_requests_ca_bundle_def env_node_extra_ca_certs_def)

end
