(* ===== verification/Java_Keystore.thy ===== *)
theory Java_Keystore
  imports Certs "HOL-Library.Word"
begin

text \<open>
  \<open>pkg/javakeystore/javakeystore.go\<close>: reading and writing Java trust stores. The JKS format
  is modelled byte by byte with its bounds-checked reader and its writer; PKCS#12 goes
  through the third-party codec, a parameter. Field widths are those of the code: 32-bit
  counts, tags and lengths, 64-bit times, 16-bit string lengths.
\<close>

section \<open>Formats and entries\<close>

datatype format = FormatUnknown | FormatJKS | FormatPKCS12

fun format_string :: "format \<Rightarrow> string" where
  "format_string FormatJKS = ''JKS''"
| "format_string FormatPKCS12 = ''PKCS12''"
| "format_string FormatUnknown = ''unknown''"

text \<open>A \<open>time.Time\<close> matters only through its Unix milliseconds; the zero time is year 1.\<close>

record entry =
  e_alias :: string
  e_time :: int
  e_cert :: "cert option"

definition zero_time :: int where "zero_time = -62135596800000"

definition jks_magic :: "32 word" where "jks_magic = 0xFEEDFEED"
definition jks_version :: "32 word" where "jks_version = 2"
definition tag_private_key :: "32 word" where "tag_private_key = 1"
definition tag_trusted_cert :: "32 word" where "tag_trusted_cert = 2"
definition digest_salt :: string where "digest_salt = ''Mighty Aphrodite''"
definition cert_type_x509 :: string where "cert_type_x509 = ''X.509''"
definition jks_password :: string where "jks_password = ''changeit''"
definition max_entries :: "32 word" where "max_entries = 65536"
definition max_cert_len :: "32 word" where "max_cert_len = 1048576"
definition sha1_size :: nat where "sha1_size = 20"

definition err_private_key_entry :: goerr where
  "err_private_key_entry = Msg ''keystore contains private key entries''"

section \<open>Big-endian numbers\<close>

definition be_nat :: "bytes \<Rightarrow> nat" where
  "be_nat b = foldl (\<lambda>a c. a * 256 + of_char c) 0 b"

fun be_bytes :: "nat \<Rightarrow> nat \<Rightarrow> bytes" where
  "be_bytes 0 v = []"
| "be_bytes (Suc k) v = be_bytes k (v div 256) @ [char_of (v mod 256)]"

section \<open>The reader\<close>

record reader =
  rd_b :: bytes
  rd_i :: nat
  rd_err :: "goerr option"

text \<open>\<open>take\<close>: \<open>None\<close> is Go's nil slice; the first error is kept.\<close>

definition rd_take :: "nat \<Rightarrow> reader \<Rightarrow> bytes option \<times> reader" where
  "rd_take n r =
     (if rd_err r \<noteq> None then (None, r)
      else if rd_i r + n > length (rd_b r)
        then (None, r\<lparr>rd_err := Some (Msg ''jks: truncated keystore'')\<rparr>)
      else (Some (take n (drop (rd_i r) (rd_b r))), r\<lparr>rd_i := rd_i r + n\<rparr>))"

definition rd_skip :: "nat \<Rightarrow> reader \<Rightarrow> reader" where
  "rd_skip n r = snd (rd_take n r)"

definition rd_u4 :: "reader \<Rightarrow> 32 word \<times> reader" where
  "rd_u4 r = (case rd_take 4 r of (None, r') \<Rightarrow> (0, r') | (Some b, r') \<Rightarrow> (of_nat (be_nat b), r'))"

definition rd_u8 :: "reader \<Rightarrow> 64 word \<times> reader" where
  "rd_u8 r = (case rd_take 8 r of (None, r') \<Rightarrow> (0, r') | (Some b, r') \<Rightarrow> (of_nat (be_nat b), r'))"

definition rd_utf :: "reader \<Rightarrow> string \<times> reader" where
  "rd_utf r = (case rd_take 2 r of (None, r') \<Rightarrow> ([], r')
     | (Some b, r') \<Rightarrow> (case rd_take (be_nat b) r' of (None, r'') \<Rightarrow> ([], r'') | (Some s, r'') \<Rightarrow> (s, r'')))"

definition rd_blob :: "reader \<Rightarrow> bytes option \<times> reader" where
  "rd_blob r = (case rd_u4 r of (n, r') \<Rightarrow>
     if rd_err r' \<noteq> None then (None, r')
     else if n > max_cert_len
       then (None, r'\<lparr>rd_err := Some (Msg ''jks: certificate length exceeds limit'')\<rparr>)
     else rd_take (unat n) r')"

section \<open>Reading a store\<close>

definition blob_bytes :: "bytes option \<Rightarrow> bytes" where
  "blob_bytes b = (case b of None \<Rightarrow> [] | Some x \<Rightarrow> x)"

text \<open>The loop over the entries; \<open>n\<close> entries are left.\<close>

fun jks_entries :: "packages \<Rightarrow> 32 word \<Rightarrow> nat \<Rightarrow> reader \<Rightarrow> entry list res" where
  "jks_entries C version 0 r = (case rd_err r of Some e \<Rightarrow> Inl e | None \<Rightarrow> Inr [])"
| "jks_entries C version (Suc n) r =
     (let (tag, r1) = rd_u4 r; (al, r2) = rd_utf r1; (millis, r3) = rd_u8 r2 in
      case rd_err r3 of Some e \<Rightarrow> Inl e | None \<Rightarrow>
      if tag = tag_private_key then Inl err_private_key_entry
      else if tag \<noteq> tag_trusted_cert then Inl (Msg ''jks: unknown entry tag'')
      else
       (let r4 = (if version = 2 then snd (rd_utf r3) else r3); (der, r5) = rd_blob r4 in
        case rd_err r5 of Some e \<Rightarrow> Inl e | None \<Rightarrow>
        (case x509_parse C (blob_bytes der) of
           Inl e \<Rightarrow> Inl (Wrapped ''jks: entry'' e)
         | Inr c \<Rightarrow>
            (case jks_entries C version n r5 of Inl e \<Rightarrow> Inl e
             | Inr es \<Rightarrow> Inr (\<lparr>e_alias = al, e_time = sint millis, e_cert = Some c\<rparr> # es)))))"

definition parse_jks :: "packages \<Rightarrow> bytes \<Rightarrow> entry list res" where
  "parse_jks C data =
     (if length data < 12 + sha1_size then Inl (Msg ''jks: file too short'')
      else
       (let r0 = rd_skip 4 \<lparr>rd_b = take (length data - sha1_size) data, rd_i = 0, rd_err = None\<rparr>;
            (version, r1) = rd_u4 r0 in
        if version \<noteq> 1 \<and> version \<noteq> 2 then Inl (Msg ''jks: unsupported version'')
        else
         (let (count, r2) = rd_u4 r1 in
          case rd_err r2 of Some e \<Rightarrow> Inl e | None \<Rightarrow>
          if count > max_entries then Inl (Msg ''jks: entry count exceeds limit'')
          else jks_entries C version (unat count) r2)))"

definition alias_for :: "packages \<Rightarrow> cert \<Rightarrow> string" where
  "alias_for C c = (if cert_cn c \<noteq> [] then unicode_lower C (cert_cn c)
     else unicode_lower C (cert_subject c))"

text \<open>The passwords are tried in turn; the last error is the one reported.\<close>

fun try_passwords :: "packages \<Rightarrow> bytes \<Rightarrow> goerr \<Rightarrow> string list \<Rightarrow> entry list res" where
  "try_passwords C data last_err [] = Inl (Wrapped ''pkcs12'' last_err)"
| "try_passwords C data last_err (pw # pws) = (case pkcs12_decode C data pw of
     Inl e \<Rightarrow> try_passwords C data e pws
   | Inr certs \<Rightarrow>
       Inr (map (\<lambda>c. \<lparr>e_alias = alias_for C c, e_time = zero_time, e_cert = Some c\<rparr>) certs))"

definition parse_pkcs12 :: "packages \<Rightarrow> bytes \<Rightarrow> entry list res" where
  "parse_pkcs12 C data = try_passwords C data (Msg []) [[], jks_password]"

definition parse_store :: "packages \<Rightarrow> bytes \<Rightarrow> format \<times> entry list res" where
  "parse_store C data =
     (if length data \<ge> 4 \<and> (of_nat (be_nat (take 4 data)) :: 32 word) = jks_magic
      then (FormatJKS, parse_jks C data)
      else if length data > 0 \<and> hd data = CHR 0x30 then (FormatPKCS12, parse_pkcs12 C data)
      else (FormatUnknown, Inl (Msg ''unrecognised keystore format'')))"

section \<open>Unique aliases\<close>

definition numbered :: "string \<Rightarrow> nat \<Rightarrow> string" where
  "numbered base n = base @ ''-'' @ show_nat n"

lemma numbered_inject [simp]: "numbered base m = numbered base n \<longleftrightarrow> m = n"
  by (simp add: numbered_def)

lemma finite_numbered: "finite {k. n \<le> k \<and> numbered base k \<in> set seen}"
proof (rule finite_subset)
  show "{k. n \<le> k \<and> numbered base k \<in> set seen} \<subseteq> numbered base -` set seen" by auto
  show "finite (numbered base -` set seen)" by (rule finite_vimageI) (auto intro: injI)
qed

text \<open>The inner loop: number the alias until it is free. It ends because the taken aliases
  are finitely many.\<close>

function free_alias :: "string \<Rightarrow> string list \<Rightarrow> string \<Rightarrow> nat \<Rightarrow> string" where
  "free_alias base seen al n =
     (if al \<notin> set seen then al else free_alias base seen (numbered base n) (n + 1))"
  by pat_completeness auto
termination
proof (relation "measure (\<lambda>(base, seen, al, n). if al \<in> set seen
    then Suc (card {k. n \<le> k \<and> numbered base k \<in> set seen}) else 0)", goal_cases)
  case (2 base seen al n)
  let ?K = "\<lambda>n. {k. n \<le> k \<and> numbered base k \<in> set seen}"
  show ?case
  proof (cases "numbered base n \<in> set seen")
    case True
    then have "n \<in> ?K n" by simp
    moreover have "n \<notin> ?K (n + 1)" "?K (n + 1) \<subseteq> ?K n" by auto
    ultimately have "?K (n + 1) \<subset> ?K n" by blast
    then have "card (?K (n + 1)) < card (?K n)"
      using finite_numbered [of n base seen] by (rule psubset_card_mono [rotated])
    then show ?thesis using 2 True by simp
  qed (use 2 in simp)
qed simp

declare free_alias.simps [simp del]

fun dedupe_loop :: "string list \<Rightarrow> entry list \<Rightarrow> entry list" where
  "dedupe_loop seen [] = []"
| "dedupe_loop seen (e # es) =
     (let base = (if e_alias e = [] then ''cert'' else e_alias e);
          al = free_alias base seen base 2
      in e\<lparr>e_alias := al\<rparr> # dedupe_loop (al # seen) es)"

definition dedupe_aliases :: "entry list \<Rightarrow> entry list" where
  "dedupe_aliases entries = dedupe_loop [] entries"

section \<open>Writing a store\<close>

record writer =
  wr_buf :: bytes
  wr_err :: "goerr option"

definition wr_raw :: "bytes \<Rightarrow> writer \<Rightarrow> writer" where
  "wr_raw b w = (if wr_err w = None then w\<lparr>wr_buf := wr_buf w @ b\<rparr> else w)"

definition wr_u4 :: "32 word \<Rightarrow> writer \<Rightarrow> writer" where
  "wr_u4 v w = wr_raw (be_bytes 4 (unat v)) w"

definition wr_u8 :: "64 word \<Rightarrow> writer \<Rightarrow> writer" where
  "wr_u8 v w = wr_raw (be_bytes 8 (unat v)) w"

definition wr_utf :: "string \<Rightarrow> writer \<Rightarrow> writer" where
  "wr_utf s w = (if length s > 0xFFFF then w\<lparr>wr_err := Some (Msg ''jks: string too long'')\<rparr>
     else wr_raw s (wr_raw (be_bytes 2 (length s)) w))"

text \<open>\<open>entryTime\<close>: entries without a time get the current one; \<open>now\<close> gives the clock's reading
  at each call.\<close>

definition entry_time :: "int \<Rightarrow> entry \<Rightarrow> int" where
  "entry_time now e = (if e_time e = zero_time then now else e_time e)"

fun jks_write :: "(nat \<Rightarrow> int) \<Rightarrow> nat \<Rightarrow> entry list \<Rightarrow> writer \<Rightarrow> writer res" where
  "jks_write now i [] w = Inr w"
| "jks_write now i (e # es) w = (case e_cert e of
     None \<Rightarrow> Inl (Msg ''jks: entry has no certificate'')
   | Some c \<Rightarrow> jks_write now (Suc i) es
       (wr_raw (cert_raw c)
       (wr_u4 (of_nat (length (cert_raw c)))
       (wr_utf cert_type_x509
       (wr_u8 (of_int (entry_time (now i) e))
       (wr_utf (e_alias e)
       (wr_u4 tag_trusted_cert w)))))))"

text \<open>The digest is keyed with the password in UTF-16; the password is ASCII.\<close>

definition jks_digest :: "packages \<Rightarrow> bytes \<Rightarrow> bytes" where
  "jks_digest C data =
     sha1 C (concat (map (\<lambda>c. [CHR 0x00, c]) jks_password) @ digest_salt @ data)"

definition encode_jks :: "packages \<Rightarrow> (nat \<Rightarrow> int) \<Rightarrow> entry list \<Rightarrow> bytes res" where
  "encode_jks C now entries =
     (let es = dedupe_aliases entries;
          w0 = wr_u4 (of_nat (length es)) (wr_u4 jks_version (wr_u4 jks_magic \<lparr>wr_buf = [], wr_err = None\<rparr>))
      in (case jks_write now 0 es w0 of
            Inl e \<Rightarrow> Inl e
          | Inr w \<Rightarrow> (case wr_err w of Some e \<Rightarrow> Inl e
              | None \<Rightarrow> Inr (wr_buf w @ jks_digest C (wr_buf w)))))"

fun trust_store_entries :: "entry list \<Rightarrow> (cert \<times> string) list res" where
  "trust_store_entries [] = Inr []"
| "trust_store_entries (e # es) = (case e_cert e of
     None \<Rightarrow> Inl (Msg ''pkcs12: entry has no certificate'')
   | Some c \<Rightarrow> (case trust_store_entries es of Inl x \<Rightarrow> Inl x | Inr ts \<Rightarrow> Inr ((c, e_alias e) # ts)))"

definition encode_pkcs12 :: "packages \<Rightarrow> entry list \<Rightarrow> bytes res" where
  "encode_pkcs12 C entries = (case trust_store_entries (dedupe_aliases entries) of
     Inl e \<Rightarrow> Inl e | Inr ts \<Rightarrow> pkcs12_encode C ts)"

definition encode_store :: "packages \<Rightarrow> (nat \<Rightarrow> int) \<Rightarrow> format \<Rightarrow> entry list \<Rightarrow> bytes res" where
  "encode_store C now f entries = (case f of
     FormatJKS \<Rightarrow> encode_jks C now entries
   | FormatPKCS12 \<Rightarrow> encode_pkcs12 C entries
   | FormatUnknown \<Rightarrow> Inl (Msg ''cannot encode keystore format''))"

end
