(* ===== verification/Java_Processor.thy ===== *)
theory Java_Processor
  imports Lang_Processors Java_Keystore
begin

text \<open>
  \<open>internal/engine/processors/java\<close>: find every \<open>cacerts\<close> key store in the rootfs, add the
  CA's certificates to each, and when none can be rewritten stage one merged store on the
  host for the wrapper to point the JVM at.
\<close>

section \<open>Discovery (discover.go)\<close>

definition env_java_home :: string where "env_java_home = ''JAVA_HOME''"

definition java_binary_candidates :: "string list" where
  "java_binary_candidates = [''/usr/bin/java'', ''/usr/local/bin/java'',
     ''/usr/lib/jvm/default/bin/java'', ''/usr/lib/jvm/default-java/bin/java'',
     ''/opt/java/bin/java'', ''/opt/java/openjdk/bin/java'']"

text \<open>The patterns, split at their slashes.\<close>

definition trust_store_globs :: "glob_part list list" where
  "trust_store_globs =
     [[GName ''usr'', GName ''lib'', GName ''jvm'', GStar, GName ''lib'', GName ''security'', GName ''cacerts''],
      [GName ''usr'', GName ''lib'', GName ''jvm'', GStar, GName ''jre'', GName ''lib'', GName ''security'', GName ''cacerts''],
      [GName ''opt'', GName ''java'', GStar, GName ''lib'', GName ''security'', GName ''cacerts''],
      [GName ''opt'', GStar, GName ''lib'', GName ''security'', GName ''cacerts''],
      [GName ''opt'', GStar, GName ''jre'', GName ''lib'', GName ''security'', GName ''cacerts'']]"

definition distro_trust_stores :: "string list" where
  "distro_trust_stores = [''/etc/pki/java/cacerts'', ''/etc/ssl/certs/java/cacerts'']"

fun launcher_homes :: "fs \<Rightarrow> string \<Rightarrow> string list \<Rightarrow> string list" where
  "launcher_homes s rootfs [] = []"
| "launcher_homes s rootfs (bin # bins) =
     (let (resolved, ok) = regular_file s rootfs bin in
      if \<not> ok then launcher_homes s rootfs bins
      else path_dir (path_dir resolved) # launcher_homes s rootfs bins)"

definition java_homes :: "fs \<Rightarrow> string \<Rightarrow> string list \<Rightarrow> string list" where
  "java_homes s rootfs env =
     (let home = trim_space (get_value env env_java_home) in
      (if home \<noteq> [] \<and> is_abs home then [path_clean home] else []) @
      launcher_homes s rootfs java_binary_candidates)"

definition trust_store_candidates :: "fs \<Rightarrow> string \<Rightarrow> string list \<Rightarrow> string list" where
  "trust_store_candidates s rootfs env =
     concat (map (\<lambda>home. [path_join [home, ''lib/security/cacerts''],
         path_join [home, ''jre/lib/security/cacerts'']]) (java_homes s rootfs env)) @
     distro_trust_stores @ concat (map (glob s rootfs) trust_store_globs)"

fun dedup_regular :: "fs \<Rightarrow> string \<Rightarrow> string list \<Rightarrow> string list \<Rightarrow> string list" where
  "dedup_regular s rootfs seen [] = []"
| "dedup_regular s rootfs seen (c # cs) =
     (let (resolved, ok) = regular_file s rootfs c in
      if \<not> ok then dedup_regular s rootfs seen cs
      else if resolved \<in> set seen then dedup_regular s rootfs seen cs
      else resolved # dedup_regular s rootfs (resolved # seen) cs)"

definition discover_trust_stores :: "fs \<Rightarrow> string \<Rightarrow> string list \<Rightarrow> string list" where
  "discover_trust_stores s rootfs env = dedup_regular s rootfs [] (trust_store_candidates s rootfs env)"

section \<open>Certificates (java.go)\<close>

definition java_name :: string where "java_name = ''lang-java''"
definition env_java_tool_options :: string where "env_java_tool_options = ''JAVA_TOOL_OPTIONS''"
definition alias_prefix :: string where "alias_prefix = ''cainjekt-''"
definition staged_store_name :: string where "staged_store_name = ''cacerts''"
definition java_not_found_reason :: string where "java_not_found_reason = ''no java runtime found''"

text \<open>The decoding loop of \<open>readPEMCerts\<close>.\<close>

function pem_certs :: "packages \<Rightarrow> bytes \<Rightarrow> cert list res" where
  "pem_certs C rest = (case pem_decode C rest of
     None \<Rightarrow> Inr []
   | Some (block, r) \<Rightarrow>
       if pb_type block \<noteq> certificate_type then pem_certs C r
       else (case x509_parse C (pb_bytes block) of
           Inl e \<Rightarrow> Inl (Wrapped ''failed to parse certificate'' e)
         | Inr c \<Rightarrow> (case pem_certs C r of Inl e \<Rightarrow> Inl e | Inr cs \<Rightarrow> Inr (c # cs))))"
  by pat_completeness auto
termination
  by (relation "measure (\<lambda>(C, d). length d)") (auto dest: pem_decode_shorter)

declare pem_certs.simps [simp del]

definition read_pem_certs :: "packages \<Rightarrow> hctx \<Rightarrow> fs \<Rightarrow> cert list res" where
  "read_pem_certs C ctx s = (case read_ca_bundle ctx s of Inl e \<Rightarrow> Inl e | Inr data \<Rightarrow> pem_certs C data)"

definition java_fingerprint :: "packages \<Rightarrow> cert option \<Rightarrow> string" where
  "java_fingerprint C c = (case c of None \<Rightarrow> [] | Some x \<Rightarrow> hex_encode (sha256 C (cert_raw x)))"

section \<open>Merging a store\<close>

text \<open>The loop that appends the missing certificates; the entries to append, in order.\<close>

fun missing_entries :: "packages \<Rightarrow> string list \<Rightarrow> cert list \<Rightarrow> entry list" where
  "missing_entries C present [] = []"
| "missing_entries C present (c # cs) =
     (let fp = java_fingerprint C (Some c) in
      if fp \<in> set present then missing_entries C present cs
      else \<lparr>e_alias = alias_prefix @ take 16 fp, e_time = zero_time, e_cert = Some c\<rparr> #
        missing_entries C (fp # present) cs)"

text \<open>The time that \<open>time.Now\<close> reads while the store is written, in milliseconds.\<close>

definition now_millis :: "fs \<Rightarrow> nat \<Rightarrow> int" where
  "now_millis s i = int (fs_clock s)"

text \<open>\<open>None\<close> stands for the nil slice: every certificate is trusted already.\<close>

definition merge_entries :: "packages \<Rightarrow> (nat \<Rightarrow> int) \<Rightarrow> bytes \<Rightarrow> cert list \<Rightarrow> (bytes option \<times> format) res" where
  "merge_entries C now data add =
     (case parse_store C data of
        (f, Inl e) \<Rightarrow> Inl e
      | (f, Inr entries) \<Rightarrow>
         (let new = missing_entries C (map (\<lambda>e. java_fingerprint C (e_cert e)) entries) add in
          if length new = 0 then Inr (None, f)
          else (case encode_store C now f (entries @ new) of
              Inl e \<Rightarrow> Inl e | Inr out \<Rightarrow> Inr (Some out, f))))"

definition merge_store :: "packages \<Rightarrow> fs \<Rightarrow> string \<Rightarrow> string \<Rightarrow> cert list \<Rightarrow> (bytes option \<times> format) res" where
  "merge_store C s rootfs store add =
     (case fst (read_file s rootfs store) of
        Inl e \<Rightarrow> Inl (Wrapped ''failed to read trust store'' e)
      | Inr data \<Rightarrow> merge_entries C (now_millis s) data add)"

section \<open>The processor\<close>

definition java_detect :: "hctx option \<Rightarrow> fs \<Rightarrow> detect_result" where
  "java_detect ctx s =
     (case ctx of
        None \<Rightarrow> \<lparr>dr_applicable = False, dr_reason = missing_context_reason, dr_priority = lang_priority\<rparr>
      | Some cx \<Rightarrow>
         if length (java_homes s (cx_rootfs cx) (cx_env cx)) > 0 \<or>
            length (discover_trust_stores s (cx_rootfs cx) (cx_env cx)) > 0
         then \<lparr>dr_applicable = True, dr_reason = [], dr_priority = lang_priority\<rparr>
         else \<lparr>dr_applicable = False, dr_reason = java_not_found_reason, dr_priority = lang_priority\<rparr>)"

text \<open>What the loop over the stores has achieved so far.\<close>

record patch_state =
  ps_patched :: nat
  ps_pending :: "(bytes \<times> format) option"
  ps_last_err :: "goerr option"

definition patch_store :: "packages \<Rightarrow> string \<Rightarrow> cert list \<Rightarrow> string \<Rightarrow> patch_state \<Rightarrow> fs \<Rightarrow> patch_state \<times> fs" where
  "patch_store C rootfs orgs store ps s =
     (case merge_store C s rootfs store orgs of
        Inl e \<Rightarrow> (ps\<lparr>ps_last_err := Some (Wrapped ''trust store'' e)\<rparr>, s)
      | Inr (None, f) \<Rightarrow> (ps\<lparr>ps_patched := Suc (ps_patched ps)\<rparr>, s)
      | Inr (Some merged, f) \<Rightarrow>
         (case write_file rootfs store merged s of
            (Inl e, s1) \<Rightarrow> (ps\<lparr>ps_last_err := Some (Wrapped ''trust store'' e),
                ps_pending := (if ps_pending ps = None then Some (merged, f) else ps_pending ps)\<rparr>, s1)
          | (Inr _, s1) \<Rightarrow> (ps\<lparr>ps_patched := Suc (ps_patched ps)\<rparr>, s1)))"

fun patch_stores :: "packages \<Rightarrow> string \<Rightarrow> cert list \<Rightarrow> string list \<Rightarrow> patch_state \<Rightarrow> fs \<Rightarrow> patch_state \<times> fs" where
  "patch_stores C rootfs orgs [] ps s = (ps, s)"
| "patch_stores C rootfs orgs (store # stores) ps s =
     (case patch_store C rootfs orgs store ps s of (ps1, s1) \<Rightarrow> patch_stores C rootfs orgs stores ps1 s1)"

definition stage_trust_store :: "hctx \<Rightarrow> bytes \<Rightarrow> string io" where
  "stage_trust_store ctx data = io_wrap ''failed to stage java trust store'' (stage_file ctx staged_store_name data)"

definition java_apply :: "packages \<Rightarrow> unit step" where
  "java_apply C ctx s =
     (case read_pem_certs C ctx s of
        Inl e \<Rightarrow> (Inl e, ctx, s)
      | Inr orgs \<Rightarrow>
        if length orgs = 0 then (Inr (), ctx, s)
        else
         (let stores = discover_trust_stores s (cx_rootfs ctx) (cx_env ctx) in
          if length stores = 0 then (Inr (), ctx, s)
          else
           (case patch_stores C (cx_rootfs ctx) orgs stores
                \<lparr>ps_patched = 0, ps_pending = None, ps_last_err = None\<rparr> s of
              (ps, s1) \<Rightarrow>
                if ps_patched ps > 0 then (Inr (), ctx, s1)
                else (case ps_pending ps of
                    None \<Rightarrow> (case ps_last_err ps of None \<Rightarrow> Inr () | Some e \<Rightarrow> Inl e, ctx, s1)
                  | Some (pending, kind) \<Rightarrow>
                     (case stage_trust_store ctx pending s1 of
                        (Inl e, s2) \<Rightarrow> (Inl e, ctx, s2)
                      | (Inr staged, s2) \<Rightarrow>
                          (Inr (), set_fact fact_java_trust_store_type (format_string kind)
                             (set_fact fact_java_trust_store_path staged ctx), s2))))))"

definition java_flags :: "string \<Rightarrow> string \<Rightarrow> string" where
  "java_flags store ty = ''-Djavax.net.ssl.trustStore='' @ store @ '' -Djavax.net.ssl.trustStoreType='' @ ty"

definition java_apply_wrapper :: "hctx \<Rightarrow> unit res \<times> hctx" where
  "java_apply_wrapper ctx =
     (case cx_facts ctx of None \<Rightarrow> (Inr (), ctx)
      | Some m \<Rightarrow>
        (let store = fact_or_empty m fact_java_trust_store_path in
         if trim_space store = [] then (Inr (), ctx)
         else
          (let ty0 = fact_or_empty m fact_java_trust_store_type;
               ty = (if trim_space ty0 = [] then format_string FormatJKS else ty0);
               existing = get_value (cx_env ctx) env_java_tool_options;
               flags = (if existing \<noteq> [] then existing @ '' '' @ java_flags store ty else java_flags store ty)
           in (Inr (), ctx\<lparr>cx_env := upsert (cx_env ctx) env_java_tool_options flags\<rparr>))))"

definition new_java :: "packages \<Rightarrow> processor" where
  "new_java C = \<lparr>p_name = java_name, p_category = ''language'', p_detect = java_detect,
     p_apply = java_apply C, p_apply_wrapper = Some java_apply_wrapper\<rparr>"

end
