(* ===== verification/Java_Keystore_Laws.thy ===== *)
theory Java_Keystore_Laws
  imports Java_Keystore
begin

text \<open>
  Laws of the trust store codec: the reader undoes the writer field by field and entry by
  entry, and alias numbering makes the aliases distinct without touching the certificates.
\<close>

section \<open>Numbers\<close>

lemma be_nat_snoc: "be_nat (b @ [c]) = be_nat b * 256 + of_char c"
  by (simp add: be_nat_def)

lemma length_be_bytes [simp]: "length (be_bytes k v) = k"
  by (induction k arbitrary: v) auto

lemma be_nat_be_bytes: "be_nat (be_bytes k v) = v mod 256 ^ k"
proof (induction k arbitrary: v)
  case 0
  show ?case by (simp add: be_nat_def)
next
  case (Suc k)
  have "be_nat (be_bytes (Suc k) v) = (v div 256 mod 256 ^ k) * 256 + v mod 256"
    by (simp add: be_nat_snoc Suc)
  also have "\<dots> = v mod (256 * 256 ^ k)"
    by (simp add: mod_mult2_eq algebra_simps)
  finally show ?case by simp
qed

lemma be_nat_unat4 [simp]: "(of_nat (be_nat (be_bytes 4 (unat v))) :: 32 word) = v"
proof -
  have "unat v < 2 ^ LENGTH(32)" by (rule unsigned_less)
  then show ?thesis by (simp add: be_nat_be_bytes)
qed

lemma be_nat_unat8 [simp]: "(of_nat (be_nat (be_bytes 8 (unat v))) :: 64 word) = v"
proof -
  have "unat v < 2 ^ LENGTH(64)" by (rule unsigned_less)
  then show ?thesis by (simp add: be_nat_be_bytes)
qed

section \<open>The reader\<close>

text \<open>A reader without error, at the border of what it has read and what is left.\<close>

definition rd_at :: "bytes \<Rightarrow> bytes \<Rightarrow> reader" where
  "rd_at pre rest = \<lparr>rd_b = pre @ rest, rd_i = length pre, rd_err = None\<rparr>"

lemma rd_err_at [simp]: "rd_err (rd_at pre rest) = None"
  by (simp add: rd_at_def)

lemma rd_take_at: "length xs = n \<Longrightarrow> rd_take n (rd_at pre (xs @ rest)) = (Some xs, rd_at (pre @ xs) rest)"
  by (auto simp: rd_take_def rd_at_def)

lemma rd_skip_at: "length xs = n \<Longrightarrow> rd_skip n (rd_at pre (xs @ rest)) = rd_at (pre @ xs) rest"
  by (simp add: rd_skip_def rd_take_at)

lemma rd_u4_at:
  "rd_u4 (rd_at pre (be_bytes 4 (unat v) @ rest)) = (v, rd_at (pre @ be_bytes 4 (unat v)) rest)"
  by (simp add: rd_u4_def rd_take_at)

lemma rd_u8_at:
  "rd_u8 (rd_at pre (be_bytes 8 (unat v) @ rest)) = (v, rd_at (pre @ be_bytes 8 (unat v)) rest)"
  by (simp add: rd_u8_def rd_take_at)

lemma rd_utf_at:
  assumes "length s \<le> 0xFFFF"
  shows "rd_utf (rd_at pre (be_bytes 2 (length s) @ s @ rest)) =
    (s, rd_at (pre @ be_bytes 2 (length s) @ s) rest)"
proof -
  have "be_nat (be_bytes 2 (length s)) = length s" using assms by (simp add: be_nat_be_bytes)
  then show ?thesis by (simp add: rd_utf_def rd_take_at)
qed

lemma rd_blob_at:
  assumes "length b \<le> unat max_cert_len"
  shows "rd_blob (rd_at pre (be_bytes 4 (unat (of_nat (length b) :: 32 word)) @ b @ rest)) =
    (Some b, rd_at (pre @ be_bytes 4 (unat (of_nat (length b) :: 32 word)) @ b) rest)"
proof -
  have l: "length b \<le> 1048576" using assms by (simp add: max_cert_len_def)
  then have u: "unat (of_nat (length b) :: 32 word) = length b" by (simp add: unat_of_nat)
  then have lim: "\<not> (of_nat (length b) :: 32 word) > max_cert_len"
    using assms by (simp add: word_less_nat_alt)
  have rd: "rd_u4 (rd_at pre (be_bytes 4 (unat (of_nat (length b) :: 32 word)) @ b @ rest)) =
      (of_nat (length b), rd_at (pre @ be_bytes 4 (unat (of_nat (length b) :: 32 word))) (b @ rest))"
    by (rule rd_u4_at)
  have tk: "rd_take (unat (of_nat (length b) :: 32 word)) (rd_at p (b @ rest)) = (Some b, rd_at (p @ b) rest)" for p
    by (rule rd_take_at) (simp only: u)
  show ?thesis unfolding rd_blob_def rd using lim by (simp add: tk del: u)
qed

section \<open>The writer\<close>

lemma wr_err_raw [simp]: "wr_err (wr_raw b w) = wr_err w"
  by (simp add: wr_raw_def)

lemma wr_err_u4 [simp]: "wr_err (wr_u4 v w) = wr_err w"
  by (simp add: wr_u4_def)

lemma wr_err_u8 [simp]: "wr_err (wr_u8 v w) = wr_err w"
  by (simp add: wr_u8_def)

lemma wr_err_utf: "wr_err (wr_utf s w) = None \<longleftrightarrow> wr_err w = None \<and> length s \<le> 0xFFFF"
  by (auto simp: wr_utf_def)

lemma wr_buf_raw: "wr_err w = None \<Longrightarrow> wr_buf (wr_raw b w) = wr_buf w @ b"
  by (simp add: wr_raw_def)

lemma wr_buf_utf:
  "wr_err w = None \<Longrightarrow> length s \<le> 0xFFFF \<Longrightarrow> wr_buf (wr_utf s w) = wr_buf w @ be_bytes 2 (length s) @ s"
  by (simp add: wr_utf_def wr_buf_raw)

text \<open>What the writer appends for an entry.\<close>

definition entry_bytes :: "int \<Rightarrow> entry \<Rightarrow> cert \<Rightarrow> bytes" where
  "entry_bytes now e c =
     be_bytes 4 (unat tag_trusted_cert) @ be_bytes 2 (length (e_alias e)) @ e_alias e @
     be_bytes 8 (unat (of_int (entry_time now e) :: 64 word)) @
     be_bytes 2 (length cert_type_x509) @ cert_type_x509 @
     be_bytes 4 (unat (of_nat (length (cert_raw c)) :: 32 word)) @ cert_raw c"

fun entries_bytes :: "(nat \<Rightarrow> int) \<Rightarrow> nat \<Rightarrow> entry list \<Rightarrow> bytes" where
  "entries_bytes now i [] = []"
| "entries_bytes now i (e # es) = (case e_cert e of None \<Rightarrow> [] | Some c \<Rightarrow> entry_bytes (now i) e c) @
     entries_bytes now (Suc i) es"

lemma jks_write_err: "jks_write now i es w = Inr w' \<Longrightarrow> wr_err w' = None \<Longrightarrow> wr_err w = None"
  by (induction now i es w rule: jks_write.induct)
    (auto split: option.splits simp: wr_err_utf)

lemma jks_write_Inr:
  "jks_write now i es w = Inr w' \<Longrightarrow> wr_err w' = None \<Longrightarrow>
   wr_buf w' = wr_buf w @ entries_bytes now i es \<and>
   (\<forall>e \<in> set es. e_cert e \<noteq> None \<and> length (e_alias e) \<le> 0xFFFF)"
proof (induction now i es w rule: jks_write.induct)
  case (2 now i e es w)
  obtain c where c: "e_cert e = Some c" using 2(2) by (auto split: option.splits)
  define v where "v = wr_raw (cert_raw c) (wr_u4 (of_nat (length (cert_raw c))) (wr_utf cert_type_x509
    (wr_u8 (of_int (entry_time (now i) e)) (wr_utf (e_alias e) (wr_u4 tag_trusted_cert w)))))"
  have run: "jks_write now (Suc i) es v = Inr w'" using 2(2) c by (simp add: v_def)
  have rest: "wr_buf w' = wr_buf v @ entries_bytes now (Suc i) es"
    "\<forall>e \<in> set es. e_cert e \<noteq> None \<and> length (e_alias e) \<le> 0xFFFF"
    using 2(1) [OF c] run 2(3) unfolding v_def by blast+
  have "wr_err v = None" using jks_write_err [OF run 2(3)] .
  then have e: "wr_err w = None" "length (e_alias e) \<le> 0xFFFF"
    unfolding v_def by (simp_all add: wr_err_utf)
  have t: "length cert_type_x509 \<le> 0xFFFF" by (simp add: cert_type_x509_def)
  have "wr_buf v = wr_buf w @ entry_bytes (now i) e c"
    using e t by (simp add: v_def wr_buf_raw wr_buf_utf wr_err_utf wr_u4_def wr_u8_def entry_bytes_def)
  then show ?case using rest c e(2) by simp
qed simp

text \<open>The entries as they come back: the times are those written.\<close>

fun stamped :: "(nat \<Rightarrow> int) \<Rightarrow> nat \<Rightarrow> entry list \<Rightarrow> entry list" where
  "stamped now i [] = []"
| "stamped now i (e # es) =
     e\<lparr>e_time := sint (of_int (entry_time (now i) e) :: 64 word)\<rparr> # stamped now (Suc i) es"

definition storable :: "packages \<Rightarrow> entry \<Rightarrow> bool" where
  "storable C e = (case e_cert e of None \<Rightarrow> True
     | Some c \<Rightarrow> length (cert_raw c) \<le> unat max_cert_len \<and> x509_parse C (cert_raw c) = Inr c)"

lemma jks_entries_write:
  "\<forall>e \<in> set es. e_cert e \<noteq> None \<and> length (e_alias e) \<le> 0xFFFF \<and> storable C e \<Longrightarrow>
   jks_entries C 2 (length es) (rd_at pre (entries_bytes now i es)) = Inr (stamped now i es)"
proof (induction es arbitrary: pre i)
  case (Cons e es)
  then obtain c where c: "e_cert e = Some c" by auto
  have e: "length (e_alias e) \<le> 0xFFFF" "length (cert_raw c) \<le> unat max_cert_len"
    "x509_parse C (cert_raw c) = Inr c"
    using Cons.prems c by (auto simp: storable_def)
  have t: "length cert_type_x509 \<le> 0xFFFF" by (simp add: cert_type_x509_def)
  have tags: "tag_trusted_cert \<noteq> tag_private_key" by (simp add: tag_trusted_cert_def tag_private_key_def)
  have ent: "\<lparr>e_alias = e_alias e, e_time = x, e_cert = Some c\<rparr> = e\<lparr>e_time := x\<rparr>" for x
    using c by (cases e) simp
  have rest: "jks_entries C 2 (length es) (rd_at p (entries_bytes now (Suc i) es)) =
      Inr (stamped now (Suc i) es)" for p
    using Cons by simp
  show ?case
    by (simp add: c entry_bytes_def rd_u4_at rd_utf_at [OF e(1)] rd_u8_at rd_utf_at [OF t]
        rd_blob_at [OF e(2)] e(3) blob_bytes_def tags rest ent)
qed simp

section \<open>Aliases\<close>

lemma free_alias_fresh: "free_alias base seen al n \<notin> set seen"
  by (induction base seen al n rule: free_alias.induct) (subst free_alias.simps, auto)

lemma free_alias_free [simp]: "al \<notin> set seen \<Longrightarrow> free_alias base seen al n = al"
  by (simp add: free_alias.simps)

lemma free_alias_nonempty: "al \<noteq> [] \<Longrightarrow> free_alias base seen al n \<noteq> []"
proof (induction base seen al n rule: free_alias.induct)
  case (1 base seen al n)
  then show ?case by (subst free_alias.simps) (auto simp: numbered_def)
qed

lemma dedupe_loop_aliases:
  "distinct (map e_alias (dedupe_loop seen es)) \<and> set (map e_alias (dedupe_loop seen es)) \<inter> set seen = {} \<and>
   [] \<notin> set (map e_alias (dedupe_loop seen es))"
proof (induction es arbitrary: seen)
  case (Cons e es)
  let ?base = "if e_alias e = [] then ''cert'' else e_alias e"
  let ?al = "free_alias ?base seen ?base 2"
  have "?al \<notin> set seen" by (rule free_alias_fresh)
  moreover have "?al \<noteq> []" by (rule free_alias_nonempty) simp
  ultimately show ?case using Cons.IH [of "?al # seen"] by (auto simp: Let_def)
qed simp

lemma dedupe_loop_certs:
  "map e_cert (dedupe_loop seen es) = map e_cert es \<and> map e_time (dedupe_loop seen es) = map e_time es"
  by (induction es arbitrary: seen) (auto simp: Let_def)

lemma dedupe_loop_fixed:
  "distinct (map e_alias es) \<Longrightarrow> [] \<notin> set (map e_alias es) \<Longrightarrow> set (map e_alias es) \<inter> set seen = {} \<Longrightarrow>
   dedupe_loop seen es = es"
  by (induction es arbitrary: seen) (auto simp: Let_def)

lemma length_dedupe [simp]: "length (dedupe_aliases es) = length es"
proof -
  have "length (map e_cert (dedupe_loop [] es)) = length (map e_cert es)"
    using dedupe_loop_certs [of "[]" es] by (simp only:)
  then show ?thesis by (simp add: dedupe_aliases_def)
qed

lemma dedupe_certs: "map e_cert (dedupe_aliases es) = map e_cert es"
  using dedupe_loop_certs by (simp add: dedupe_aliases_def)

lemma dedupe_storable: "\<forall>e \<in> set es. storable C e \<Longrightarrow> \<forall>e \<in> set (dedupe_aliases es). storable C e"
proof
  fix e assume all: "\<forall>e \<in> set es. storable C e" and e: "e \<in> set (dedupe_aliases es)"
  have "set (map e_cert (dedupe_aliases es)) = set (map e_cert es)" by (simp only: dedupe_certs)
  with e have "e_cert e \<in> e_cert ` set es" by auto
  then show "storable C e" using all by (auto simp: storable_def)
qed

section \<open>The whole store\<close>

lemma encode_jks_Inr:
  assumes "encode_jks C now es = Inr out"
  obtains body where "body = be_bytes 4 (unat jks_magic) @ be_bytes 4 (unat jks_version) @
      be_bytes 4 (unat (of_nat (length es) :: 32 word)) @ entries_bytes now 0 (dedupe_aliases es)"
    and "out = body @ jks_digest C body"
    and "\<forall>e \<in> set (dedupe_aliases es). e_cert e \<noteq> None \<and> length (e_alias e) \<le> 0xFFFF"
proof -
  define w0 where "w0 = wr_u4 (of_nat (length (dedupe_aliases es))) (wr_u4 jks_version
    (wr_u4 jks_magic \<lparr>wr_buf = [], wr_err = None\<rparr>))"
  obtain w where w: "jks_write now 0 (dedupe_aliases es) w0 = Inr w" "wr_err w = None"
    "out = wr_buf w @ jks_digest C (wr_buf w)"
    using assms by (auto simp: encode_jks_def Let_def w0_def [symmetric] simp del: length_dedupe
        split: sum.splits option.splits)
  have "wr_buf w0 = be_bytes 4 (unat jks_magic) @ be_bytes 4 (unat jks_version) @
      be_bytes 4 (unat (of_nat (length es) :: 32 word))"
    by (simp add: w0_def wr_u4_def wr_buf_raw)
  then show thesis using that [of "wr_buf w"] jks_write_Inr [OF w(1,2)] w(3) by simp
qed

lemma parse_encode_jks:
  assumes enc: "encode_jks C now es = Inr out" and n: "length es \<le> 65536"
    and st: "\<forall>e \<in> set es. storable C e" and sha: "\<And>d. length (sha1 C d) = 20"
  shows "parse_store C out = (FormatJKS, Inr (stamped now 0 (dedupe_aliases es)))"
proof -
  let ?es = "dedupe_aliases es"
  let ?n = "of_nat (length es) :: 32 word"
  obtain body where body: "body = be_bytes 4 (unat jks_magic) @ be_bytes 4 (unat jks_version) @
      be_bytes 4 (unat ?n) @ entries_bytes now 0 ?es" and out: "out = body @ jks_digest C body"
    and ok: "\<forall>e \<in> set ?es. e_cert e \<noteq> None \<and> length (e_alias e) \<le> 0xFFFF"
    using enc by (rule encode_jks_Inr)
  have d: "length (jks_digest C body) = sha1_size" using sha by (simp add: jks_digest_def sha1_size_def)
  have un: "unat ?n = length es" using n by (simp add: unat_of_nat)
  have ln: "\<not> ?n > max_entries" using n un by (simp add: word_less_nat_alt max_entries_def)
  have magic: "(of_nat (be_nat (take 4 out)) :: 32 word) = jks_magic"
  proof -
    have "take 4 out = be_bytes 4 (unat jks_magic)" by (simp add: out body)
    then show ?thesis by simp
  qed
  have len: "12 + sha1_size \<le> length out" using d by (simp add: out body)
  have r0: "\<lparr>rd_b = take (length out - sha1_size) out, rd_i = 0, rd_err = None\<rparr> = rd_at [] body"
    using d by (simp add: out rd_at_def)
  have "jks_entries C 2 (length ?es) (rd_at pre (entries_bytes now 0 ?es)) = Inr (stamped now 0 ?es)" for pre
    using ok dedupe_storable [OF st] by (intro jks_entries_write) blast
  then have e: "jks_entries C jks_version (length es) (rd_at pre (entries_bytes now 0 ?es)) =
      Inr (stamped now 0 ?es)" for pre
    by (simp add: jks_version_def)
  have v: "jks_version = 2" by (simp add: jks_version_def)
  have rd: "rd_skip 4 (rd_at [] body) = rd_at (be_bytes 4 (unat jks_magic))
      (be_bytes 4 (unat jks_version) @ be_bytes 4 (unat ?n) @ entries_bytes now 0 ?es)"
    using rd_skip_at [of "be_bytes 4 (unat jks_magic)" 4 "[]"] by (simp add: body)
  have "parse_jks C out = Inr (stamped now 0 ?es)"
    unfolding parse_jks_def r0 rd Let_def rd_u4_at prod.case
    using len ln by (simp add: un e) (simp add: v)
  then show ?thesis using magic len by (simp add: parse_store_def)
qed

end
