(* ===== verification/Certs_Correct.thy ===== *)
theory Certs_Correct
  imports Certs
begin

text \<open>
  The promises of \<open>pkg/certs\<close>: merging trusts exactly the union of the two bundles, keeps the
  old bundle's bytes, adds nothing twice and is idempotent; validation accepts exactly the
  bundles all of whose certificates parse.
\<close>

section \<open>A concrete codec for the witnesses\<close>

text \<open>A block is \<open>P\<close>, the bytes, and a full stop; anything before the \<open>P\<close> is skipped.\<close>

fun toy_next :: "bytes \<Rightarrow> (pem_block \<times> nat) option" where
  "toy_next [] = None"
| "toy_next (c # cs) = (if c = CHR ''P'' then
       (case cut (CHR ''.'') cs of None \<Rightarrow> None
        | Some (b, _) \<Rightarrow> Some (\<lparr>pb_type = certificate_type, pb_bytes = b\<rparr>, Suc (length b)))
     else map_option (\<lambda>(b, n). (b, Suc n)) (toy_next cs))"

definition toy_crypto :: packages where
  "toy_crypto = \<lparr>
     x509_parse = (\<lambda>b. if b = ''bad'' then Inl (Msg ''not a certificate'')
        else Inr \<lparr>cert_raw = b, cert_cn = b, cert_subject = b\<rparr>),
     sha256 = (\<lambda>b. b),
     sha1 = (\<lambda>b. replicate 20 (CHR 0x00)),
     pem_next = toy_next,
     pem_encode = (\<lambda>b. ''P'' @ pb_bytes b @ ''.''),
     pkcs12_decode = (\<lambda>d pw. Inl (Msg ''not a trust store'')),
     pkcs12_encode = (\<lambda>es. Inl (Msg ''not supported'')),
     unicode_lower = to_lower\<rparr>"

lemma toy_crypto_simps [simp]:
  "x509_parse toy_crypto b = (if b = ''bad'' then Inl (Msg ''not a certificate'')
     else Inr \<lparr>cert_raw = b, cert_cn = b, cert_subject = b\<rparr>)"
  "sha256 toy_crypto b = b" "pem_next toy_crypto = toy_next"
  "pem_encode toy_crypto bl = ''P'' @ pb_bytes bl @ ''.''"
  by (simp_all add: toy_crypto_def)

lemma toy_parse_skip: "parse_cert_pem_blocks toy_crypto (CHR 0x0A # y) = parse_cert_pem_blocks toy_crypto y"
proof (cases y)
  case (Cons a list)
  have "pem_decode toy_crypto (CHR 0x0A # y) = pem_decode toy_crypto y"
    using Cons by (auto simp: pem_decode_def split: option.splits)
  then show ?thesis by (simp add: parse_cert_pem_blocks.simps)
qed (simp add: parse_cert_pem_blocks.simps pem_decode_def)

lemma toy_parse_block:
  "parse_cert_pem_blocks toy_crypto (CHR ''P'' # CHR ''A'' # CHR ''.'' # y) =
     \<lparr>pb_type = certificate_type, pb_bytes = ''A''\<rparr> # parse_cert_pem_blocks toy_crypto y"
  "parse_cert_pem_blocks toy_crypto (CHR ''P'' # CHR ''B'' # CHR ''.'' # y) =
     \<lparr>pb_type = certificate_type, pb_bytes = ''B''\<rparr> # parse_cert_pem_blocks toy_crypto y"
  by (subst parse_cert_pem_blocks.simps; simp add: pem_decode_def)+

lemma toy_closed: "closed_bundle toy_crypto (''PB.'' @ [CHR 0x0A])"
proof -
  have "trim_right_nl (''PB.'' @ [CHR 0x0A]) = ''PB.''" by code_simp
  then show ?thesis by (simp add: closed_bundle_def toy_parse_skip toy_parse_block)
qed

lemma toy_encodes_back: "encodes_back toy_crypto \<lparr>cert_raw = ''A'', cert_cn = ''A'', cert_subject = ''A''\<rparr>"
proof -
  have "trim_space ''PA.'' = ''PA.''" by code_simp
  then show ?thesis
    by (simp add: encodes_back_def cert_block_def toy_parse_skip toy_parse_block)
qed

section \<open>Merging\<close>

text \<open>The parser reports the bytes it was given as the certificate's raw form.\<close>

definition raw_reparses :: "packages \<Rightarrow> cert \<Rightarrow> bool" where
  "raw_reparses C c = (x509_parse C (cert_raw c) = Inr c)"

lemma bundle_certs_append [simp]: "bundle_certs C (xs @ ys) = bundle_certs C xs @ bundle_certs C ys"
  by (simp add: bundle_certs_def)

lemma bundle_certs_blocks:
  "\<forall>c \<in> set cs. raw_reparses C c \<Longrightarrow> bundle_certs C (map cert_block cs) = cs"
  by (induction cs) (auto simp: bundle_certs_def raw_reparses_def cert_block_def)

lemma merge_pem_trusted:
  assumes run: "merge_pem C existing addition = Inr m" and closed: "closed_bundle C existing"
    and codec: "\<forall>c \<in> set (bundle_certs C (parse_cert_pem_blocks C addition)).
      encodes_back C c \<and> raw_reparses C c"
  shows "trusted C (mr_merged m) = trusted C existing \<union> trusted C addition"
proof -
  let ?add = "bundle_certs C (parse_cert_pem_blocks C addition)"
  let ?new = "new_certs C ?add (existing_hashes C (parse_cert_pem_blocks C existing))"
  have blocks: "parse_cert_pem_blocks C (mr_merged m) =
      parse_cert_pem_blocks C existing @ map cert_block ?new"
    using merge_pem_blocks [OF run closed] codec by blast
  have "bundle_certs C (map cert_block ?new) = ?new"
    using codec new_certs_subset by (intro bundle_certs_blocks) blast
  then have "trusted C (mr_merged m) = trusted C existing \<union> fingerprint_of C ` set ?new"
    by (simp add: trusted_def blocks image_Un)
  then show ?thesis
    by (auto simp: new_certs_fingerprints existing_hashes_certs trusted_def)
qed

text \<open>
  C1: the merged bundle trusts exactly the certificates of the old bundle and of the CA
  bundle, and merging the same CA bundle into it again adds nothing and returns it byte for
  byte. So a hook that runs twice leaves the trust store as one run does.
\<close>

theorem merge_pem_union_and_idempotent:
  assumes "merge_pem C existing addition = Inr m" and "closed_bundle C existing"
    and "\<forall>c \<in> set (bundle_certs C (parse_cert_pem_blocks C addition)).
      encodes_back C c \<and> raw_reparses C c"
  shows "trusted C (mr_merged m) = trusted C existing \<union> trusted C addition \<and>
    merge_pem C (mr_merged m) addition = Inr \<lparr>mr_merged = mr_merged m, mr_added = 0\<rparr>"
proof -
  have t: "trusted C (mr_merged m) = trusted C existing \<union> trusted C addition"
    using assms by (rule merge_pem_trusted)
  obtain ps where "collect_additions C (parse_cert_pem_blocks C addition)
      (existing_hashes C (parse_cert_pem_blocks C existing)) = Inr ps"
    using assms(1) by (auto simp: merge_pem_def split: sum.splits)
  then have parse: "\<forall>b \<in> set (parse_cert_pem_blocks C addition). \<exists>c. x509_parse C (pb_bytes b) = Inr c"
    by (rule collect_additions_parse)
  have "new_certs C (bundle_certs C (parse_cert_pem_blocks C addition))
      (existing_hashes C (parse_cert_pem_blocks C (mr_merged m))) = []"
    using t by (intro new_certs_none) (auto simp: trusted_def existing_hashes_certs)
  then have "collect_additions C (parse_cert_pem_blocks C addition)
      (existing_hashes C (parse_cert_pem_blocks C (mr_merged m))) = Inr []"
    using parse by (simp add: collect_additions_Inr)
  then show ?thesis using t by (simp add: merge_pem_def)
qed

theorem merge_pem_union_and_idempotent_witness:
  "trusted toy_crypto (''PB.'' @ [CHR 0x0A] @ ''PA.'' @ [CHR 0x0A]) =
     trusted toy_crypto (''PB.'' @ [CHR 0x0A]) \<union> trusted toy_crypto ''PA.''"
proof -
  have run: "merge_pem toy_crypto (''PB.'' @ [CHR 0x0A]) ''PA.'' =
      Inr \<lparr>mr_merged = ''PB.'' @ [CHR 0x0A] @ ''PA.'' @ [CHR 0x0A], mr_added = 1\<rparr>"
    by code_simp
  have certs: "bundle_certs toy_crypto (parse_cert_pem_blocks toy_crypto ''PA.'') =
      [\<lparr>cert_raw = ''A'', cert_cn = ''A'', cert_subject = ''A''\<rparr>]"
    by code_simp
  show ?thesis
    using merge_pem_union_and_idempotent [OF run toy_closed] toy_encodes_back
    by (simp add: certs raw_reparses_def)
qed

text \<open>The error of a merge is that of the first certificate that does not parse.\<close>

lemma collect_additions_Inl:
  "collect_additions C bs seen = Inl err \<Longrightarrow>
   \<exists>pre b post e. bs = pre @ b # post \<and> (\<forall>x \<in> set pre. \<exists>c. x509_parse C (pb_bytes x) = Inr c) \<and>
     x509_parse C (pb_bytes b) = Inl e \<and> err = Wrapped ''failed to parse certificate from CA bundle'' e"
proof (induction C bs seen rule: collect_additions.induct)
  case (2 C b bs seen)
  show ?case
  proof (cases "x509_parse C (pb_bytes b)")
    case (Inl e)
    then show ?thesis using "2.prems" by (intro exI [of _ "[]"]) auto
  next
    case (Inr c)
    then have "\<exists>pre b' post e. bs = pre @ b' # post \<and> (\<forall>x \<in> set pre. \<exists>c. x509_parse C (pb_bytes x) = Inr c) \<and>
        x509_parse C (pb_bytes b') = Inl e \<and> err = Wrapped ''failed to parse certificate from CA bundle'' e"
      using 2 by (auto simp: Let_def split: if_splits sum.splits)
    then obtain pre b' post e where "bs = pre @ b' # post" "\<forall>x \<in> set pre. \<exists>c. x509_parse C (pb_bytes x) = Inr c"
        "x509_parse C (pb_bytes b') = Inl e" "err = Wrapped ''failed to parse certificate from CA bundle'' e"
      by blast
    then show ?thesis using Inr by (intro exI [of _ "b # pre"] exI [of _ b'] exI [of _ post] exI [of _ e]) simp
  qed
qed simp

text \<open>
  C2: a merge fails exactly when some certificate block of the CA bundle does not parse, with
  the error of the first such block. Otherwise every byte of the old bundle but its final
  newlines is kept in front, \<open>Added\<close> counts the distinct certificates that were not trusted
  before, and exactly with none of those the old bundle comes back with nothing added.
\<close>

theorem merge_pem_result:
  "(isl (merge_pem C existing addition) \<longleftrightarrow>
      (\<exists>b \<in> set (parse_cert_pem_blocks C addition). isl (x509_parse C (pb_bytes b)))) \<and>
   (case merge_pem C existing addition of
     Inl err \<Rightarrow> \<exists>pre b post e. parse_cert_pem_blocks C addition = pre @ b # post \<and>
       (\<forall>x \<in> set pre. \<not> isl (x509_parse C (pb_bytes x))) \<and> x509_parse C (pb_bytes b) = Inl e \<and>
       err = Wrapped ''failed to parse certificate from CA bundle'' e
   | Inr m \<Rightarrow> mr_added m = card (trusted C addition - trusted C existing) \<and>
       prefix (trim_right_nl existing) (mr_merged m) \<and>
       (mr_added m = 0 \<longleftrightarrow> trusted C addition \<subseteq> trusted C existing) \<and>
       (mr_added m = 0 \<longrightarrow> mr_merged m = existing))"
proof -
  let ?add = "parse_cert_pem_blocks C addition"
  let ?seen = "existing_hashes C (parse_cert_pem_blocks C existing)"
  have isl_iff: "\<not> isl x \<longleftrightarrow> (\<exists>c. x = Inr c)" for x :: "cert res" by (cases x) auto
  show ?thesis
  proof (cases "collect_additions C ?add ?seen")
    case (Inl err)
    obtain pre b post e where *: "?add = pre @ b # post" "\<forall>x \<in> set pre. \<exists>c. x509_parse C (pb_bytes x) = Inr c"
        "x509_parse C (pb_bytes b) = Inl e" "err = Wrapped ''failed to parse certificate from CA bundle'' e"
      using collect_additions_Inl [OF Inl] by blast
    then have "\<exists>b \<in> set ?add. isl (x509_parse C (pb_bytes b))" by (intro bexI [of _ b]) simp_all
    then show ?thesis using * Inl unfolding isl_iff by (auto simp: merge_pem_def)
  next
    case (Inr ps)
    let ?new = "new_certs C (bundle_certs C ?add) ?seen"
    have ps: "ps = map (pem_encode C \<circ> cert_block) ?new" using Inr by (simp only: collect_additions_Inr)
    have "length ps = card (fingerprint_of C ` set ?new)"
      using distinct_card [OF new_certs_distinct, of C "bundle_certs C ?add" ?seen] ps by simp
    also have "fingerprint_of C ` set ?new = trusted C addition - trusted C existing"
      by (simp add: new_certs_fingerprints existing_hashes_certs trusted_def)
    finally have n: "length ps = card (trusted C addition - trusted C existing)" .
    have "finite (trusted C addition)" by (simp add: trusted_def)
    then have z: "length ps = 0 \<longleftrightarrow> trusted C addition \<subseteq> trusted C existing" using n by auto
    have "prefix (trim_right_nl existing) existing"
      using trim_right_nl_prefix by (metis prefixI)
    moreover have "\<forall>b \<in> set ?add. \<not> isl (x509_parse C (pb_bytes b))"
      using collect_additions_parse [OF Inr] unfolding isl_iff .
    ultimately show ?thesis using Inr n z append_pems_prefix [of "trim_right_nl existing" ps]
      by (simp add: merge_pem_def)
  qed
qed

theorem merge_pem_result_witness:
  "merge_pem toy_crypto ''PB.'' ''PA.PA.PB.'' = Inr \<lparr>mr_merged = ''PB.'' @ [CHR 0x0A] @ ''PA.'' @ [CHR 0x0A], mr_added = 1\<rparr> \<and>
   card (trusted toy_crypto ''PA.PA.PB.'' - trusted toy_crypto ''PB.'') = 1 \<and>
   isl (merge_pem toy_crypto ''PB.'' ''PA.Pbad.'')"
proof -
  have run: "merge_pem toy_crypto ''PB.'' ''PA.PA.PB.'' =
      Inr \<lparr>mr_merged = ''PB.'' @ [CHR 0x0A] @ ''PA.'' @ [CHR 0x0A], mr_added = 1\<rparr>"
    by code_simp
  have bad: "list_ex (\<lambda>b. isl (x509_parse toy_crypto (pb_bytes b))) (parse_cert_pem_blocks toy_crypto ''PA.Pbad.'')"
    by code_simp
  show ?thesis
    using merge_pem_result [where C = toy_crypto and existing = "''PB.''" and addition = "''PA.PA.PB.''"] run
      merge_pem_result [where C = toy_crypto and existing = "''PB.''" and addition = "''PA.Pbad.''"] bad
    by (simp add: list_ex_iff)
qed

text \<open>
  C3: validation accepts a bundle exactly when it holds at least one certificate block and
  every certificate block parses.
\<close>

theorem validate_pem_iff:
  "validate_pem C data = Inr () \<longleftrightarrow> parse_cert_pem_blocks C data \<noteq> [] \<and>
     (\<forall>b \<in> set (parse_cert_pem_blocks C data). \<exists>c. x509_parse C (pb_bytes b) = Inr c)"
  by (simp add: validate_pem_def validate_blocks_iff Let_def)

theorem validate_pem_iff_witness:
  "validate_pem toy_crypto ''PA.'' = Inr () \<and> validate_pem toy_crypto ''PA.Pbad.'' \<noteq> Inr () \<and>
   (\<exists>c. x509_parse toy_crypto ''A'' = Inr c)"
proof -
  have b: "parse_cert_pem_blocks toy_crypto ''PA.'' = [\<lparr>pb_type = certificate_type, pb_bytes = ''A''\<rparr>]"
    by code_simp
  have v: "validate_pem toy_crypto ''PA.'' = Inr ()" "\<not> isl (validate_pem toy_crypto ''PA.'')"
    "isl (validate_pem toy_crypto ''PA.Pbad.'')" by code_simp+
  show ?thesis using validate_pem_iff [of toy_crypto "''PA.''"] v b by auto
qed

end
