(* ===== verification/Java_Keystore_Correct.thy ===== *)
theory Java_Keystore_Correct
  imports Java_Keystore_Laws Certs_Correct
begin

text \<open>
  The promises of \<open>pkg/javakeystore\<close>: a written store reads back entry by entry, alias
  numbering loses nothing, and a store from an untrusted image is read within bounds.
\<close>

section \<open>Bounds of the reader\<close>

definition within :: "bytes \<Rightarrow> reader \<Rightarrow> bool" where
  "within b r = (rd_b r = b \<and> rd_i r \<le> length b)"

lemma sublist_take_drop: "sublist (take n (drop i xs)) xs"
  unfolding sublist_def by (metis append_take_drop_id)

lemma rd_take_within:
  "within b r \<Longrightarrow> rd_take n r = (x, r') \<Longrightarrow> within b r' \<and> rd_i r \<le> rd_i r' \<and>
     (\<forall>s. x = Some s \<longrightarrow> sublist s b \<and> length s = n \<and> rd_err r' = None)"
  by (auto simp: rd_take_def within_def sublist_take_drop split: if_splits)

lemma rd_u4_within: "within b r \<Longrightarrow> rd_u4 r = (v, r') \<Longrightarrow> within b r'"
  by (auto simp: rd_u4_def split: prod.splits option.splits dest: rd_take_within)

lemma rd_u8_within: "within b r \<Longrightarrow> rd_u8 r = (v, r') \<Longrightarrow> within b r'"
  by (auto simp: rd_u8_def split: prod.splits option.splits dest: rd_take_within)

lemma rd_utf_within: "within b r \<Longrightarrow> rd_utf r = (v, r') \<Longrightarrow> within b r'"
  by (fastforce simp: rd_utf_def split: prod.splits option.splits dest: rd_take_within)

lemma rd_blob_within:
  assumes "within b r" and "rd_blob r = (x, r')"
  shows "within b r' \<and> (rd_err r' = None \<longrightarrow> sublist (blob_bytes x) b \<and> length (blob_bytes x) \<le> 1048576)"
proof -
  obtain n r1 where u: "rd_u4 r = (n, r1)" by (cases "rd_u4 r")
  have w: "within b r1" using rd_u4_within [OF assms(1) u] .
  consider "rd_err r1 \<noteq> None" | "rd_err r1 = None" "n > max_cert_len" | "rd_err r1 = None" "\<not> n > max_cert_len"
    by blast
  then show ?thesis
  proof cases
    case 3
    then have t: "rd_take (unat n) r1 = (x, r')" using assms(2) u by (simp add: rd_blob_def)
    have "unat n \<le> 1048576" using 3(2) by (simp add: word_less_nat_alt max_cert_len_def)
    then show ?thesis using rd_take_within [OF w t] by (cases x) (auto simp: blob_bytes_def)
  qed (use assms(2) u w in \<open>auto simp: rd_blob_def within_def\<close>)
qed

definition entry_within :: "packages \<Rightarrow> bytes \<Rightarrow> entry \<Rightarrow> bool" where
  "entry_within C b e = (\<exists>der c. x509_parse C der = Inr c \<and> e_cert e = Some c \<and>
     sublist der b \<and> length der \<le> 1048576)"

lemma jks_entries_within:
  "within b r \<Longrightarrow> jks_entries C version n r = Inr es \<Longrightarrow> length es = n \<and> (\<forall>e \<in> set es. entry_within C b e)"
proof (induction n arbitrary: r es)
  case (Suc n)
  obtain tag r1 where 1: "rd_u4 r = (tag, r1)" by (cases "rd_u4 r")
  obtain al r2 where 2: "rd_utf r1 = (al, r2)" by (cases "rd_utf r1")
  obtain ms r3 where 3: "rd_u8 r2 = (ms, r3)" by (cases "rd_u8 r2")
  obtain ct r4' where 4: "rd_utf r3 = (ct, r4')" by (cases "rd_utf r3")
  define r4 where "r4 = (if version = 2 then r4' else r3)"
  obtain der r5 where 5: "rd_blob r4 = (der, r5)" by (cases "rd_blob r4")
  have w3: "within b r3"
    using rd_u8_within [OF rd_utf_within [OF rd_u4_within [OF Suc.prems(1) 1] 2] 3] .
  then have w4: "within b r4" using rd_utf_within [OF _ 4] by (simp add: r4_def)
  note w5 = rd_blob_within [OF w4 5]
  from Suc.prems(2) obtain c es' where c: "rd_err r5 = None" "x509_parse C (blob_bytes der) = Inr c"
    and es': "jks_entries C version n r5 = Inr es'"
    and es: "es = \<lparr>e_alias = al, e_time = sint ms, e_cert = Some c\<rparr> # es'"
    by (auto simp: 1 2 3 4 5 r4_def [symmetric] Let_def cong: if_cong
        split: option.splits if_splits sum.splits)
  have "length es' = n \<and> (\<forall>e \<in> set es'. entry_within C b e)" using w5 es' by (intro Suc.IH) auto
  then show ?case using c w5 by (auto simp: es entry_within_def)
qed (auto split: option.splits)

section \<open>Claims\<close>

text \<open>
  C9: a JKS store that the encoder produced parses again to the same entries in the same
  order: the aliases as numbered, the certificates, and the times as written (the current
  time for entries that had none). It needs at most 65536 entries, certificates of at most
  1 MiB, a digest of 20 bytes, and certificates that parse back from their own bytes.
\<close>

theorem jks_roundtrip:
  assumes "encode_jks C now es = Inr out" and "length es \<le> 65536"
    and "\<forall>e \<in> set es. \<forall>c. e_cert e = Some c \<longrightarrow> length (cert_raw c) \<le> 1048576 \<and> x509_parse C (cert_raw c) = Inr c"
    and "\<And>d. length (sha1 C d) = 20"
  shows "parse_store C out = (FormatJKS, Inr (stamped now 0 (dedupe_aliases es)))"
proof (rule parse_encode_jks [OF assms(1,2) _ assms(4)])
  show "\<forall>e \<in> set es. storable C e"
    using assms(3) by (auto simp: storable_def max_cert_len_def split: option.split)
qed

definition sample_cert :: cert where
  "sample_cert = \<lparr>cert_raw = ''A'', cert_cn = ''A'', cert_subject = ''A''\<rparr>"

theorem jks_roundtrip_witness:
  "\<exists>out. encode_jks toy_crypto (\<lambda>i. 7) [\<lparr>e_alias = ''a'', e_time = 5, e_cert = Some sample_cert\<rparr>,
       \<lparr>e_alias = ''a'', e_time = zero_time, e_cert = Some sample_cert\<rparr>] = Inr out \<and>
     parse_store toy_crypto out = (FormatJKS, Inr [\<lparr>e_alias = ''a'', e_time = 5, e_cert = Some sample_cert\<rparr>,
       \<lparr>e_alias = ''a-2'', e_time = 7, e_cert = Some sample_cert\<rparr>])"
proof -
  let ?es = "[\<lparr>e_alias = ''a'', e_time = 5, e_cert = Some sample_cert\<rparr>,
       \<lparr>e_alias = ''a'', e_time = zero_time, e_cert = Some sample_cert\<rparr>]"
  have "\<not> isl (encode_jks toy_crypto (\<lambda>i. 7) ?es)" by code_simp
  then obtain out where out: "encode_jks toy_crypto (\<lambda>i. 7) ?es = Inr out"
    by (cases "encode_jks toy_crypto (\<lambda>i. 7) ?es") auto
  have sha: "length (sha1 toy_crypto d) = 20" for d by (simp add: toy_crypto_def)
  have st: "stamped (\<lambda>i. 7) 0 (dedupe_aliases ?es) = [\<lparr>e_alias = ''a'', e_time = 5, e_cert = Some sample_cert\<rparr>,
       \<lparr>e_alias = ''a-2'', e_time = 7, e_cert = Some sample_cert\<rparr>]" by code_simp
  show ?thesis using jks_roundtrip [OF out _ _ sha] out st by (simp add: sample_cert_def)
qed

text \<open>
  C10: numbering duplicate aliases keeps every entry's certificate and time in place, makes
  the aliases nonempty and pairwise distinct, so that no certificate is dropped by a store
  keyed by alias, and leaves aliases alone that are already nonempty and distinct.
\<close>

theorem dedupe_aliases_distinct:
  "distinct (map e_alias (dedupe_aliases es)) \<and> [] \<notin> set (map e_alias (dedupe_aliases es)) \<and>
   map e_cert (dedupe_aliases es) = map e_cert es \<and> map e_time (dedupe_aliases es) = map e_time es \<and>
   (distinct (map e_alias es) \<and> [] \<notin> set (map e_alias es) \<longrightarrow> dedupe_aliases es = es)"
  using dedupe_loop_aliases [of "[]" es] dedupe_loop_certs [of "[]" es] dedupe_loop_fixed [of es "[]"]
  by (simp add: dedupe_aliases_def)

theorem dedupe_aliases_distinct_witness:
  "map e_alias (dedupe_aliases (map (\<lambda>a. \<lparr>e_alias = a, e_time = 0, e_cert = None\<rparr>) [''a'', ''a-2'', ''a'', []])) =
     [''a'', ''a-2'', ''a-3'', ''cert''] \<and>
   dedupe_aliases [\<lparr>e_alias = ''a'', e_time = 0, e_cert = None\<rparr>] = [\<lparr>e_alias = ''a'', e_time = 0, e_cert = None\<rparr>]"
proof
  show "map e_alias (dedupe_aliases (map (\<lambda>a. \<lparr>e_alias = a, e_time = 0, e_cert = None\<rparr>) [''a'', ''a-2'', ''a'', []])) =
     [''a'', ''a-2'', ''a-3'', ''cert'']" by code_simp
  show "dedupe_aliases [\<lparr>e_alias = ''a'', e_time = 0, e_cert = None\<rparr>] = [\<lparr>e_alias = ''a'', e_time = 0, e_cert = None\<rparr>]"
    using dedupe_aliases_distinct [of "[\<lparr>e_alias = ''a'', e_time = 0, e_cert = None\<rparr>]"] by simp
qed

text \<open>
  C11: a JKS store taken from an image is accepted only with at most 65536 entries, every
  entry a certificate that the X.509 parser accepted from a contiguous piece of the store of
  at most 1 MiB that lies before the digest.
\<close>

theorem parse_jks_bounds:
  assumes "parse_jks C data = Inr es"
  shows "length es \<le> 65536 \<and>
    (\<forall>e \<in> set es. \<exists>der c. x509_parse C der = Inr c \<and> e_cert e = Some c \<and>
       sublist der (take (length data - 20) data) \<and> length der \<le> 1048576)"
proof -
  let ?b = "take (length data - 20) data"
  define r where "r = \<lparr>rd_b = ?b, rd_i = 0, rd_err = None\<rparr>"
  have w: "within ?b r" by (simp add: r_def within_def)
  obtain x r0 where 0: "rd_take 4 r = (x, r0)" by (cases "rd_take 4 r")
  have w0: "within ?b (rd_skip 4 r)"
    using conjunct1 [OF rd_take_within [OF w 0]] by (simp add: rd_skip_def 0)
  obtain v r1 where 1: "rd_u4 (rd_skip 4 r) = (v, r1)" by (cases "rd_u4 (rd_skip 4 r)")
  obtain n r2 where 2: "rd_u4 r1 = (n, r2)" by (cases "rd_u4 r1")
  have w2: "within ?b r2" using rd_u4_within [OF rd_u4_within [OF w0 1] 2] .
  have n: "\<not> n > max_entries" and es: "jks_entries C v (unat n) r2 = Inr es"
    using assms 1 2 by (auto simp: parse_jks_def sha1_size_def r_def [symmetric] Let_def
        split: if_splits option.splits)
  have "unat n \<le> 65536" using n by (simp add: word_less_nat_alt max_entries_def)
  then show ?thesis using jks_entries_within [OF w2 es] by (auto simp: entry_within_def)
qed

theorem parse_jks_bounds_witness:
  "\<exists>out es. encode_jks toy_crypto (\<lambda>i. 7) [\<lparr>e_alias = ''a'', e_time = 5, e_cert = Some sample_cert\<rparr>] = Inr out \<and>
     parse_jks toy_crypto out = Inr es \<and> es \<noteq> [] \<and> length es \<le> 65536"
proof -
  let ?es = "[\<lparr>e_alias = ''a'', e_time = 5, e_cert = Some sample_cert\<rparr>]"
  have ok: "\<not> isl (encode_jks toy_crypto (\<lambda>i. 7) ?es)" by code_simp
  then obtain out where out: "encode_jks toy_crypto (\<lambda>i. 7) ?es = Inr out"
    by (cases "encode_jks toy_crypto (\<lambda>i. 7) ?es") auto
  have sha: "length (sha1 toy_crypto d) = 20" for d by (simp add: toy_crypto_def)
  have st: "\<forall>e \<in> set ?es. storable toy_crypto e" by (simp add: storable_def sample_cert_def max_cert_len_def)
  have "parse_store toy_crypto out = (FormatJKS, Inr (stamped (\<lambda>i. 7) 0 (dedupe_aliases ?es)))"
    using parse_encode_jks [OF out _ st sha] by simp
  then have p: "parse_jks toy_crypto out = Inr (stamped (\<lambda>i. 7) 0 (dedupe_aliases ?es))"
    by (simp add: parse_store_def split: if_splits)
  have "stamped (\<lambda>i. 7) 0 (dedupe_aliases ?es) \<noteq> []" by code_simp
  show ?thesis using parse_jks_bounds [OF p] out p \<open>stamped (\<lambda>i. 7) 0 (dedupe_aliases ?es) \<noteq> []\<close> by blast
qed

end
