(* ===== verification/Java_Trust.thy ===== *)
theory Java_Trust
  imports Java_Processor Java_Keystore_Correct
begin

text \<open>
  What rewriting a Java key store achieves: the rewritten store parses, keeps every certificate
  in its place, trusts the CA's certificates as well, and needs no second rewrite.
\<close>

section \<open>The certificates that are missing\<close>

definition entry_prints :: "packages \<Rightarrow> entry list \<Rightarrow> string list" where
  "entry_prints C es = map (\<lambda>e. java_fingerprint C (e_cert e)) es"

definition cert_prints :: "packages \<Rightarrow> cert list \<Rightarrow> string list" where
  "cert_prints C cs = map (\<lambda>c. java_fingerprint C (Some c)) cs"

lemma entry_prints_append [simp]: "entry_prints C (es @ fs) = entry_prints C es @ entry_prints C fs"
  by (simp add: entry_prints_def)

lemma entry_prints_map: "entry_prints C es = map (java_fingerprint C) (map e_cert es)"
  by (simp add: entry_prints_def)

lemma entry_prints_certs: "map e_cert es = map e_cert fs \<Longrightarrow> entry_prints C es = entry_prints C fs"
  by (simp only: entry_prints_map)

lemma missing_entries_prints:
  "set present \<union> set (entry_prints C (missing_entries C present add)) = set present \<union> set (cert_prints C add)"
  by (induction C present add rule: missing_entries.induct) (auto simp: Let_def entry_prints_def cert_prints_def)

lemma missing_entries_distinct:
  "distinct (entry_prints C (missing_entries C present add)) \<and>
   set (entry_prints C (missing_entries C present add)) \<inter> set present = {}"
  by (induction C present add rule: missing_entries.induct) (auto simp: Let_def entry_prints_def)

lemma missing_entries_subseq:
  "\<exists>new. map e_cert (missing_entries C present add) = map Some new \<and> subseq new add"
proof (induction C present add rule: missing_entries.induct)
  case (2 C present c cs)
  show ?case
  proof (cases "java_fingerprint C (Some c) \<in> set present")
    case True
    then show ?thesis using 2(1) [OF refl True] by (auto simp: Let_def)
  next
    case False
    obtain new where new: "map e_cert (missing_entries C (java_fingerprint C (Some c) # present) cs) = map Some new" "subseq new cs"
      using 2(2) [OF refl False] by blast
    show ?thesis using False new by (intro exI [of _ "c # new"]) (simp add: Let_def)
  qed
qed simp

lemma subseq_set: "subseq xs ys \<Longrightarrow> set xs \<subseteq> set ys"
  by (induction rule: list_emb.induct) auto

lemma missing_entries_empty:
  "missing_entries C present add = [] \<longleftrightarrow> set (cert_prints C add) \<subseteq> set present"
proof
  assume "missing_entries C present add = []"
  then show "set (cert_prints C add) \<subseteq> set present"
    using missing_entries_prints [of present C add] by (auto simp: entry_prints_def)
next
  assume "set (cert_prints C add) \<subseteq> set present"
  then have "set (entry_prints C (missing_entries C present add)) \<subseteq> set present"
    using missing_entries_prints [of present C add] by auto
  then have "set (entry_prints C (missing_entries C present add)) = {}"
    using missing_entries_distinct [of C present add] by (simp add: Int_absorb2)
  then show "missing_entries C present add = []" by (simp add: entry_prints_def)
qed

section \<open>What the encoders keep\<close>

text \<open>The PKCS#12 codec: a store it wrote starts as one, and opens without a password to the
  certificates that were stored, in order.\<close>

definition pkcs12_reads_back :: "packages \<Rightarrow> bool" where
  "pkcs12_reads_back C \<longleftrightarrow> (\<forall>ts b. pkcs12_encode C ts = Inr b \<longrightarrow>
     b \<noteq> [] \<and> hd b = CHR 0x30 \<and> pkcs12_decode C b [] = Inr (map fst ts))"

definition fits_store :: "packages \<Rightarrow> cert \<Rightarrow> bool" where
  "fits_store C c \<longleftrightarrow> length (cert_raw c) \<le> 1048576 \<and> x509_parse C (cert_raw c) = Inr c"

lemma no_jks_magic:
  assumes "hd b = CHR 0x30" and "length b \<ge> 4"
  shows "(of_nat (be_nat (take 4 b)) :: 32 word) \<noteq> jks_magic"
proof -
  obtain x y z r where b: "b = CHR 0x30 # x # y # z # r"
    using assms by (cases b; cases "tl b"; cases "tl (tl b)"; cases "tl (tl (tl b))") auto
  let ?n = "((0x30 * 256 + of_char x) * 256 + of_char y) * 256 + of_char z :: nat"
  have "a * 256 + k < A * 256" if "a < A" "k < 256" for a k A :: nat using that by linarith
  from this [OF this [OF this [of "0x30" "0x31"]]]
  have "((0x30 * 256 + i) * 256 + j) * 256 + k < 0x31 * 256 * 256 * 256"
    if "i < 256" "j < 256" "k < 256" for i j k :: nat
    using that by simp
  from this [of "of_char x" "of_char y" "of_char z"] have n: "?n < 0x31000000" by simp
  have "be_nat (take 4 b) = ?n" by (simp add: b be_nat_def)
  moreover have "unat (of_nat ?n :: 32 word) = ?n"
    unfolding unat_of_nat using n by (intro mod_less) simp
  moreover have "unat jks_magic = 0xFEEDFEED" by (simp add: jks_magic_def)
  ultimately have "unat (of_nat (be_nat (take 4 b)) :: 32 word) < unat jks_magic" using n by simp
  then show ?thesis by fastforce
qed

lemma trust_store_entries_certs:
  "trust_store_entries es = Inr ts \<Longrightarrow> map e_cert es = map (Some \<circ> fst) ts"
  by (induction es arbitrary: ts rule: trust_store_entries.induct) (auto split: option.splits sum.splits)

lemma parse_encode_pkcs12:
  assumes "encode_pkcs12 C es = Inr out" and "pkcs12_reads_back C"
  shows "\<exists>es'. parse_store C out = (FormatPKCS12, Inr es') \<and> map e_cert es' = map e_cert es"
proof -
  obtain ts where ts: "trust_store_entries (dedupe_aliases es) = Inr ts" "pkcs12_encode C ts = Inr out"
    using assms(1) by (auto simp: encode_pkcs12_def split: sum.splits)
  then have out: "out \<noteq> []" "hd out = CHR 0x30" "pkcs12_decode C out [] = Inr (map fst ts)"
    using assms(2) by (auto simp: pkcs12_reads_back_def)
  have "map e_cert es = map (Some \<circ> fst) ts"
    using trust_store_entries_certs [OF ts(1)] by (simp add: dedupe_certs)
  moreover have "parse_store C out = (FormatPKCS12,
      Inr (map (\<lambda>c. \<lparr>e_alias = alias_for C c, e_time = zero_time, e_cert = Some c\<rparr>) (map fst ts)))"
    using out no_jks_magic [of out] by (auto simp: parse_store_def parse_pkcs12_def)
  ultimately show ?thesis by (simp add: comp_def)
qed

lemma stamped_certs: "map e_cert (stamped now i es) = map e_cert es"
  by (induction es arbitrary: i) simp_all

lemma parse_encode_store:
  assumes enc: "encode_store C now f es = Inr out" and n: "length es \<le> 65536"
    and fit: "\<forall>e \<in> set es. \<forall>c. e_cert e = Some c \<longrightarrow> fits_store C c"
    and sha: "\<And>d. length (sha1 C d) = 20" and p12: "pkcs12_reads_back C"
  shows "\<exists>es'. parse_store C out = (f, Inr es') \<and> map e_cert es' = map e_cert es"
proof (cases f)
  case FormatJKS
  have "\<forall>e \<in> set es. storable C e"
    using fit by (auto simp: storable_def fits_store_def max_cert_len_def split: option.split)
  then show ?thesis
    using parse_encode_jks [OF _ n _ sha] enc FormatJKS stamped_certs dedupe_certs
    by (fastforce simp: encode_store_def)
next
  case FormatPKCS12
  then show ?thesis using parse_encode_pkcs12 [OF _ p12] enc by (simp add: encode_store_def)
qed (use enc in \<open>simp add: encode_store_def\<close>)

section \<open>Merging\<close>

lemma merge_entries_cases:
  assumes "merge_entries C now data add = Inr (merged, f)"
  obtains entries new where "parse_store C data = (f, Inr entries)"
    and "new = missing_entries C (entry_prints C entries) add"
    and "merged = None \<longleftrightarrow> new = []"
    and "\<And>out. merged = Some out \<Longrightarrow> encode_store C now f (entries @ new) = Inr out"
proof -
  obtain f' entries where p: "parse_store C data = (f', Inr entries)"
    using assms by (auto simp: merge_entries_def split: prod.splits sum.splits)
  define new where "new = missing_entries C (entry_prints C entries) add"
  have "merge_entries C now data add = (if length new = 0 then Inr (None, f')
      else (case encode_store C now f' (entries @ new) of Inl e \<Rightarrow> Inl e | Inr out \<Rightarrow> Inr (Some out, f')))"
    by (simp add: merge_entries_def p new_def entry_prints_def Let_def)
  then show thesis using that [OF _ new_def] p assms by (auto split: if_splits sum.splits)
qed

lemma merge_entries_none:
  assumes "parse_store C data = (f, Inr entries)" and "set (cert_prints C add) \<subseteq> set (entry_prints C entries)"
  shows "merge_entries C now data add = Inr (None, f)"
  using missing_entries_empty [THEN iffD2, OF assms(2)] assms(1)
  by (simp add: merge_entries_def entry_prints_def Let_def)

text \<open>
  C37: rewriting a Java trust store adds exactly the certificates of the CA bundle that it
  lacked, told apart by their fingerprints: what is written parses again in the same format,
  with the old certificates first and in their order, then new certificates of the bundle in
  the bundle's order; it trusts precisely what the old store and the bundle trust, and a
  second merge finds nothing to do. Nothing is rewritten exactly when the store trusts the
  whole bundle. The store and the bundle hold at most 65536 certificates of at most 1 MiB
  that parse back from their own bytes; the PKCS#12 codec reads back what it writes.
\<close>

theorem merge_entries_extends_trust:
  assumes "merge_entries C now data add = Inr (merged, f)" and "parse_store C data = (f, Inr entries)"
    and "length entries + length add \<le> 65536" and "\<forall>c \<in> set add. fits_store C c"
    and "\<forall>e \<in> set entries. \<forall>c. e_cert e = Some c \<longrightarrow> fits_store C c"
    and "\<And>d. length (sha1 C d) = 20" and "pkcs12_reads_back C"
  shows "(\<exists>es new. parse_store C (case merged of None \<Rightarrow> data | Some out \<Rightarrow> out) = (f, Inr es) \<and>
      map e_cert es = map e_cert entries @ map Some new \<and> subseq new add \<and>
      distinct (cert_prints C new) \<and> set (cert_prints C new) = set (cert_prints C add) - set (entry_prints C entries)) \<and>
    merge_entries C now' (case merged of None \<Rightarrow> data | Some out \<Rightarrow> out) add = Inr (None, f) \<and>
    (merged = None \<longleftrightarrow> set (cert_prints C add) \<subseteq> set (entry_prints C entries))"
proof -
  let ?out = "case merged of None \<Rightarrow> data | Some out \<Rightarrow> out"
  define miss where "miss = missing_entries C (entry_prints C entries) add"
  obtain new where new: "map e_cert miss = map Some new" "subseq new add"
    using missing_entries_subseq miss_def by blast
  have len: "length miss = length new" using arg_cong [OF new(1), of length] by simp
  have prints: "entry_prints C miss = cert_prints C new"
    using arg_cong [OF new(1), of "map (java_fingerprint C)"] by (simp add: entry_prints_def cert_prints_def comp_def)
  have new_prints: "distinct (cert_prints C new)" "set (cert_prints C new) = set (cert_prints C add) - set (entry_prints C entries)"
    using missing_entries_distinct [of C "entry_prints C entries" add] missing_entries_prints [of "entry_prints C entries" C add]
    unfolding miss_def [symmetric] prints by auto
  have enc: "merged = None \<longleftrightarrow> miss = []" "\<And>out. merged = Some out \<Longrightarrow> encode_store C now f (entries @ miss) = Inr out"
    using merge_entries_cases [OF assms(1)] assms(2) by (auto simp: miss_def)
  have "\<exists>es. parse_store C ?out = (f, Inr es) \<and> map e_cert es = map e_cert (entries @ miss)"
  proof (cases merged)
    case (Some out)
    have "length (entries @ miss) \<le> 65536" using assms(3) list_emb_length [OF new(2)] len by simp
    moreover have "\<forall>e \<in> set (entries @ miss). \<forall>c. e_cert e = Some c \<longrightarrow> fits_store C c"
    proof -
      have "e_cert ` set miss = Some ` set new" using new(1) by (metis list.set_map)
      then have "e_cert e \<in> Some ` set add" if "e \<in> set miss" for e
        using that subseq_set [OF new(2)] by (metis image_eqI image_mono subsetD)
      then show ?thesis using assms(4,5) by fastforce
    qed
    ultimately show ?thesis using parse_encode_store [OF enc(2) [OF Some] _ _ assms(6,7)] Some by simp
  qed (use enc(1) assms(2) in simp)
  then obtain es where es: "parse_store C ?out = (f, Inr es)" "map e_cert es = map e_cert (entries @ miss)" by blast
  have "set (cert_prints C add) \<subseteq> set (entry_prints C es)"
    using entry_prints_certs [OF es(2), of C] new_prints(2) prints by auto
  from merge_entries_none [OF es(1) this, of now'] es new new_prints enc(1) show ?thesis
    using missing_entries_empty [of C "entry_prints C entries" add] miss_def by auto
qed

text \<open>A codec for certificates of one byte, and the certificates A and B.\<close>

definition one_byte_cert :: "char \<Rightarrow> cert" where
  "one_byte_cert ch = \<lparr>cert_raw = [ch], cert_cn = [ch], cert_subject = [ch]\<rparr>"

definition toy_codec :: packages where
  "toy_codec = toy_crypto\<lparr>
     pkcs12_encode := (\<lambda>ts. if \<forall>t \<in> set ts. cert_raw (fst t) \<noteq> [] \<and> fst t = one_byte_cert (hd (cert_raw (fst t)))
       then Inr (CHR 0x30 # map (\<lambda>t. hd (cert_raw (fst t))) ts) else Inl (Msg ''not supported'')),
     pkcs12_decode := (\<lambda>d pw. Inr (map one_byte_cert (tl d)))\<rparr>"

lemma toy_codec_reads_back: "pkcs12_reads_back toy_codec"
  by (auto simp: pkcs12_reads_back_def toy_codec_def comp_def intro!: map_cong [OF refl] split: if_splits)

theorem merge_entries_extends_trust_witness:
  "merge_entries toy_codec (\<lambda>i. 7) ''0B'' [one_byte_cert CHR ''A'', one_byte_cert CHR ''B''] = Inr (Some ''0BA'', FormatPKCS12) \<and>
   merge_entries toy_codec (\<lambda>i. 8) ''0BA'' [one_byte_cert CHR ''A'', one_byte_cert CHR ''B''] = Inr (None, FormatPKCS12) \<and>
   fst (parse_store toy_codec ''0BA'') = FormatPKCS12"
proof -
  let ?add = "[one_byte_cert CHR ''A'', one_byte_cert CHR ''B'']"
  let ?old = "[\<lparr>e_alias = ''b'', e_time = zero_time, e_cert = Some (one_byte_cert CHR ''B'')\<rparr>]"
  have run: "merge_entries toy_codec (\<lambda>i. 7) ''0B'' ?add = Inr (Some ''0BA'', FormatPKCS12)"
    and old: "parse_store toy_codec ''0B'' = (FormatPKCS12, Inr ?old)" by code_simp+
  have fit: "fits_store toy_codec (one_byte_cert ch)" for ch
    by (simp add: fits_store_def toy_codec_def one_byte_cert_def)
  have "length (sha1 toy_codec d) = 20" for d by (simp add: toy_codec_def toy_crypto_def)
  from merge_entries_extends_trust [OF run old _ _ _ this toy_codec_reads_back, of "\<lambda>i. 8"] fit run
  show ?thesis by auto
qed

end
