(* ===== verification/Hook_Context.thy ===== *)
theory Hook_Context
  imports Engine_Api
begin

text \<open>
  \<open>internal/runtime/hookctx/state.go\<close> and \<open>internal/util/oci\<close>: the state the hook leaves in
  the rootfs for the wrapper, the status file, and the OCI inputs of the hook. The JSON
  codec is a parameter, one function per type that is encoded or decoded.
\<close>

section \<open>Persisted state\<close>

record detected_processor =
  dp_name :: string
  dp_category :: string
  dp_applicable :: bool
  dp_priority :: int
  dp_reason :: string

record persisted_context =
  pc_mode :: string
  pc_bundle :: string
  pc_annotations :: strmap
  pc_ca_file :: string
  pc_fail_policy :: string
  pc_facts :: strmap

record hook_state =
  hs_context :: persisted_context
  hs_detected :: "detected_processor list"

record processor_status =
  st_name :: string
  st_category :: string
  st_applicable :: bool
  st_reason :: string

record injection_status =
  is_injected :: bool
  is_timestamp :: string
  is_distro :: string
  is_trust_store :: string
  is_rootfs_read_only :: bool
  is_ca_file :: string
  is_processors :: "processor_status list"

section \<open>OCI state and spec\<close>

record oci_state =
  oci_version :: string
  oci_id :: string
  oci_status :: string
  oci_pid :: int
  oci_bundle :: string
  oci_annotations :: "strmap option"

text \<open>The parts of the runtime spec the code reads: the root path and the process
  environment, each absent when its section is.\<close>

record oci_spec =
  spec_root_path :: "string option"
  spec_process_env :: "string list option"

record codec =
  enc_state :: "hook_state \<Rightarrow> bytes res"
  dec_state :: "bytes \<Rightarrow> hook_state res"
  enc_status :: "injection_status \<Rightarrow> bytes res"
  dec_oci_state :: "bytes \<Rightarrow> oci_state res"
  dec_oci_spec :: "bytes \<Rightarrow> oci_spec res"
  fmt_time :: "nat \<Rightarrow> string"

definition read_state :: "codec \<Rightarrow> bytes res \<Rightarrow> oci_state res" where
  "read_state J stdin = (case stdin of
     Inl e \<Rightarrow> Inl (Wrapped ''failed to read hook stdin'' e)
   | Inr b \<Rightarrow> (case dec_oci_state J b of
         Inl e \<Rightarrow> Inl (Wrapped ''failed to parse OCI state'' e)
       | Inr st \<Rightarrow> if oci_bundle st = [] then Inl (Msg ''OCI state did not include bundle path'')
           else Inr (if oci_annotations st = None then st\<lparr>oci_annotations := Some []\<rparr> else st)))"

definition load_spec :: "codec \<Rightarrow> fs \<Rightarrow> string \<Rightarrow> (string \<times> oci_spec) res" where
  "load_spec J s bundle =
     (let spec_path = path_join [bundle, ''config.json''] in
      (case os_read_file s spec_path of
         Inl e \<Rightarrow> Inl (Wrapped ''failed to read OCI spec'' e)
       | Inr b \<Rightarrow> (case dec_oci_spec J b of
             Inl e \<Rightarrow> Inl (Wrapped ''failed to parse OCI spec'' e)
           | Inr spec \<Rightarrow> Inr (spec_path, spec))))"

definition resolve_rootfs_path :: "string \<Rightarrow> oci_spec \<Rightarrow> string" where
  "resolve_rootfs_path bundle spec = (case spec_root_path spec of
     None \<Rightarrow> path_join [bundle, ''rootfs'']
   | Some p \<Rightarrow> if p = [] then path_join [bundle, ''rootfs'']
       else if is_abs p then p else path_join [bundle, p])"

section \<open>Building, writing and reading the state\<close>

definition clone_string_map :: "strmap \<Rightarrow> strmap" where
  "clone_string_map m = (if length m = 0 then [] else copy_into [] (rev m))"

definition new_state_from_context :: "hctx \<Rightarrow> detected_processor list \<Rightarrow> hook_state" where
  "new_state_from_context ctx detected =
     \<lparr>hs_context = \<lparr>pc_mode = cx_mode ctx, pc_bundle = cx_bundle ctx,
        pc_annotations = copy_into [] (rev (cx_annotations ctx)),
        pc_ca_file = cx_ca_file ctx, pc_fail_policy = cx_fail_policy ctx,
        pc_facts = copy_into [] (rev (case cx_facts ctx of None \<Rightarrow> [] | Some m \<Rightarrow> facts_snapshot m))\<rparr>,
      hs_detected = detected\<rparr>"

definition to_hook_context :: "hook_state \<Rightarrow> hctx" where
  "to_hook_context st =
     (let c = hs_context st; facts = copy_into [] (rev (pc_facts c)) in
      \<lparr>cx_mode = pc_mode c, cx_bundle = pc_bundle c,
       cx_annotations = clone_string_map (pc_annotations c), cx_rootfs = [],
       cx_ca_file = pc_ca_file c, cx_fail_policy = pc_fail_policy c, cx_env = [],
       cx_facts = Some (facts_from_snapshot facts), cx_results = []\<rparr>)"

definition build_status :: "codec \<Rightarrow> nat \<Rightarrow> hook_state \<Rightarrow> injection_status" where
  "build_status J now st =
     (let facts = pc_facts (hs_context st) in
      \<lparr>is_injected = True, is_timestamp = fmt_time J now,
       is_distro = fact_or_empty facts fact_distro,
       is_trust_store = fact_or_empty facts fact_trust_store_path,
       is_rootfs_read_only = (facts_get facts fact_rootfs_read_only = Some ''true''),
       is_ca_file = pc_ca_file (hs_context st),
       is_processors = map (\<lambda>d. \<lparr>st_name = dp_name d, st_category = dp_category d,
          st_applicable = dp_applicable d, st_reason = dp_reason d\<rparr>) (hs_detected st)\<rparr>)"

definition context_file_path :: "strmap \<Rightarrow> string" where
  "context_file_path penv =
     (let p = trim_space (getenv penv env_hook_context_file) in
      if p \<noteq> [] then p
      else (let q = trim_space (getenv penv ''CAINJEKT_WRAPPER_CONTEXT_FILE'') in
            if q \<noteq> [] then q else hook_context_file))"

definition hook_write :: "codec \<Rightarrow> strmap \<Rightarrow> string \<Rightarrow> hook_state \<Rightarrow> unit io" where
  "hook_write J penv rootfs st s =
     (case enc_state J st of
        Inl e \<Rightarrow> (Inl (Wrapped ''failed to marshal hook context'' e), s)
      | Inr b \<Rightarrow>
        (case write_file rootfs (context_file_path penv) (b @ [CHR 0x0A]) s of
           (Inl e, s1) \<Rightarrow> (Inl (Wrapped ''failed to write hook context file'' e), s1)
         | (Inr resolved, s1) \<Rightarrow>
            (case enc_status J (build_status J (fs_clock s1) st) of
               Inl e \<Rightarrow> (Inr (), s1)
             | Inr sb \<Rightarrow> (Inr (), snd (write_file rootfs
                   (path_join [path_dir resolved, ''status.json'']) (sb @ [CHR 0x0A]) s1)))))"

definition empty_state :: hook_state where
  "empty_state = \<lparr>hs_context = \<lparr>pc_mode = [], pc_bundle = [], pc_annotations = [], pc_ca_file = [],
     pc_fail_policy = [], pc_facts = []\<rparr>, hs_detected = []\<rparr>"

text \<open>\<open>Read\<close>, inside the container: \<open>s\<close> is the container's own file system.\<close>

definition hook_read :: "codec \<Rightarrow> strmap \<Rightarrow> fs \<Rightarrow> hook_state res" where
  "hook_read J penv s =
     (case os_read_file s (context_file_path penv) of
        Inl e \<Rightarrow> if is_not_exist e then Inr empty_state
                else Inl (Wrapped ''failed to read hook context file'' e)
      | Inr b \<Rightarrow> (case dec_state J b of
            Inl e \<Rightarrow> Inl (Wrapped ''failed to parse hook context file'' e)
          | Inr st \<Rightarrow> (let c = hs_context st in
              Inr (st\<lparr>hs_context := c\<lparr>pc_annotations := clone_string_map (pc_annotations c),
                 pc_facts := clone_string_map (pc_facts c)\<rparr>\<rparr>))))"

section \<open>Laws\<close>

lemma map_of_copy_rev [simp]: "map_of (copy_into [] (rev m)) = map_of m"
  by (simp add: map_of_copy_into)

lemma map_of_clone [simp]: "map_of (clone_string_map m) = map_of m"
  by (simp add: clone_string_map_def)

text \<open>What the hook knew, the wrapper knows: every fact and annotation survives the trip
  through the persisted state.\<close>

lemma facts_survive:
  "get_fact (to_hook_context (new_state_from_context ctx d)) k = get_fact ctx k"
  by (simp add: get_fact_def to_hook_context_def new_state_from_context_def facts.get_restore
      facts.snapshot_get Let_def split: option.split) (simp add: map_of_copy_into)?

end
