(* ===== verification/Os_Store.thy ===== *)
theory Os_Store
  imports Engine_Api
begin

text \<open>
  \<open>internal/engine/processors/osstore/osstore.go\<close>: the processors for the trust store of the
  operating system. Six instances of one struct; detection by \<open>os-release\<close>, injection by
  merging the CA into the distribution's bundle, or by staging a merged bundle on the host
  when the rootfs cannot be written.
\<close>

definition individual_ca_file_name :: string where "individual_ca_file_name = ''cainjekt.crt''"
definition merged_ca_file_name :: string where "merged_ca_file_name = ''ca-bundle-merged.pem''"

section \<open>The processors\<close>

record os_processor =
  os_name :: string
  os_distro :: string
  os_candidates :: "string list"
  os_anchor_dir :: string
  os_match_ids :: "string list"
  os_priority :: int
  os_fallback :: bool

definition new_debian :: os_processor where
  "new_debian = \<lparr>os_name = ''os-debian'', os_distro = ''debian'',
     os_candidates = [''/etc/ssl/certs/ca-certificates.crt''],
     os_anchor_dir = ''/usr/local/share/ca-certificates'',
     os_match_ids = [''debian'', ''ubuntu''], os_priority = 300, os_fallback = False\<rparr>"

definition new_rhel :: os_processor where
  "new_rhel = \<lparr>os_name = ''os-rhel'', os_distro = ''rhel'',
     os_candidates = [''/etc/pki/tls/certs/ca-bundle.crt''],
     os_anchor_dir = ''/etc/pki/ca-trust/source/anchors'',
     os_match_ids = [''rhel'', ''fedora'', ''centos'', ''rocky'', ''almalinux'', ''ol'', ''amzn''],
     os_priority = 290, os_fallback = False\<rparr>"

definition new_opensuse :: os_processor where
  "new_opensuse = \<lparr>os_name = ''os-opensuse'', os_distro = ''opensuse'',
     os_candidates = [''/etc/ssl/ca-bundle.pem''], os_anchor_dir = ''/etc/pki/trust/anchors'',
     os_match_ids = [''opensuse'', ''sles'', ''suse''], os_priority = 285, os_fallback = False\<rparr>"

definition new_alpine :: os_processor where
  "new_alpine = \<lparr>os_name = ''os-alpine'', os_distro = ''alpine'',
     os_candidates = [''/etc/ssl/certs/ca-certificates.crt''],
     os_anchor_dir = ''/usr/local/share/ca-certificates'',
     os_match_ids = [''alpine''], os_priority = 280, os_fallback = False\<rparr>"

definition new_arch :: os_processor where
  "new_arch = \<lparr>os_name = ''os-arch'', os_distro = ''arch'',
     os_candidates = [''/etc/ssl/certs/ca-certificates.crt''],
     os_anchor_dir = ''/etc/ca-certificates/trust-source/anchors'',
     os_match_ids = [''arch''], os_priority = 275, os_fallback = False\<rparr>"

definition new_fallback :: os_processor where
  "new_fallback = \<lparr>os_name = ''os-fallback'', os_distro = ''fallback'',
     os_candidates = [''/etc/ssl/certs/ca-certificates.crt'', ''/etc/pki/tls/certs/ca-bundle.crt'',
       ''/etc/ssl/ca-bundle.pem'', ''/etc/ssl/cert.pem''],
     os_anchor_dir = [], os_match_ids = [], os_priority = -100, os_fallback = True\<rparr>"

section \<open>os-release\<close>

record os_release =
  or_id :: string
  or_id_like :: "string list"

text \<open>The slice \<open>v[1 : len(v)-1]\<close> of a quoted value.\<close>

definition normalize_os_release_value :: "string \<Rightarrow> string" where
  "normalize_os_release_value v =
     trim_space (if length v \<ge> 2 \<and>
         (hd v = CHR 0x22 \<and> last v = CHR 0x22 \<or> hd v = CHR 0x27 \<and> last v = CHR 0x27)
       then butlast (tl v) else v)"

definition max_scan_token_size :: nat where "max_scan_token_size = 65536"

text \<open>One line of the file.\<close>

definition os_release_line :: "packages \<Rightarrow> string \<Rightarrow> os_release \<Rightarrow> os_release" where
  "os_release_line C text out =
     (let line = trim_space text in
      if line = [] \<or> has_prefix line ''#'' then out
      else (case cut (CHR ''='') line of
          None \<Rightarrow> out
        | Some (k, v) \<Rightarrow>
           (let key = trim_space k; val = normalize_os_release_value (trim_space v) in
            if key = ''ID'' then out\<lparr>or_id := unicode_lower C val\<rparr>
            else if key = ''ID_LIKE''
              then out\<lparr>or_id_like := or_id_like out @ Go_Strings.fields (unicode_lower C val)\<rparr>
            else out)))"

text \<open>The scanner: lines up to the first one that does not fit its buffer, which is an error.\<close>

fun scan_os_release :: "packages \<Rightarrow> string list \<Rightarrow> os_release \<Rightarrow> os_release res" where
  "scan_os_release C [] out = Inr out"
| "scan_os_release C (l # ls) out =
     (if length l \<ge> max_scan_token_size then Inl (Msg ''bufio.Scanner: token too long'')
      else scan_os_release C ls (os_release_line C l out))"

definition parse_os_release :: "packages \<Rightarrow> bytes \<Rightarrow> os_release res" where
  "parse_os_release C b = scan_os_release C (split_on (CHR 0x0A) b) \<lparr>or_id = [], or_id_like = []\<rparr>"

fun read_os_release_from :: "packages \<Rightarrow> fs \<Rightarrow> string \<Rightarrow> string list \<Rightarrow> os_release res" where
  "read_os_release_from C s rootfs [] = Inl (Msg ''os-release not found'')"
| "read_os_release_from C s rootfs (c # cs) =
     (case fst (read_file s rootfs c) of
        Inl e \<Rightarrow> if is_not_exist e then read_os_release_from C s rootfs cs
                else Inl (Wrapped ''failed to read os-release'' e)
      | Inr b \<Rightarrow> (case parse_os_release C b of
            Inl e \<Rightarrow> Inl (Wrapped ''failed to parse os-release'' e)
          | Inr info \<Rightarrow> if or_id info = [] then Inl (Msg ''os-release has empty ID'') else Inr info))"

definition read_os_release :: "packages \<Rightarrow> fs \<Rightarrow> string \<Rightarrow> os_release res" where
  "read_os_release C s rootfs =
     read_os_release_from C s rootfs [''/etc/os-release'', ''/usr/lib/os-release'']"

definition os_ids :: "os_release \<Rightarrow> string list" where
  "os_ids info = (if or_id info \<noteq> [] then [or_id info] else []) @ filter (\<lambda>l. l \<noteq> []) (or_id_like info)"

fun matches_any :: "string list \<Rightarrow> string list \<Rightarrow> bool" where
  "matches_any [] ids = False"
| "matches_any (m # ms) ids = (m \<in> set ids \<or> matches_any ms ids)"

definition os_matches :: "os_processor \<Rightarrow> os_release \<Rightarrow> bool" where
  "os_matches p info = matches_any (os_match_ids p) (os_ids info)"

definition os_detect :: "packages \<Rightarrow> os_processor \<Rightarrow> hctx option \<Rightarrow> fs \<Rightarrow> detect_result" where
  "os_detect C p ctx s =
     (case ctx of
        None \<Rightarrow> \<lparr>dr_applicable = False, dr_reason = ''missing context'', dr_priority = os_priority p\<rparr>
      | Some cx \<Rightarrow>
        (case read_os_release C s (cx_rootfs cx) of
           Inl e \<Rightarrow> if os_fallback p
              then \<lparr>dr_applicable = True, dr_reason = ''fallback: os-release not found'', dr_priority = os_priority p\<rparr>
              else \<lparr>dr_applicable = False, dr_reason = err_text e, dr_priority = os_priority p\<rparr>
         | Inr info \<Rightarrow>
            if os_matches p info
              then \<lparr>dr_applicable = True, dr_reason = [], dr_priority = os_priority p\<rparr>
            else if os_fallback p
              then \<lparr>dr_applicable = True, dr_reason = ''fallback: unsupported distro'', dr_priority = os_priority p\<rparr>
            else \<lparr>dr_applicable = False, dr_reason = ''distro mismatch'', dr_priority = os_priority p\<rparr>))"

section \<open>Injection\<close>

definition trust_store_configured :: "hctx option \<Rightarrow> bool" where
  "trust_store_configured ctx =
     (case ctx of None \<Rightarrow> False
      | Some cx \<Rightarrow> (case cx_facts cx of None \<Rightarrow> False
          | Some m \<Rightarrow> (case facts_get m fact_trust_store_path of
                None \<Rightarrow> False | Some v \<Rightarrow> trim_space v \<noteq> [])))"

fun first_regular :: "fs \<Rightarrow> string \<Rightarrow> string list \<Rightarrow> string option" where
  "first_regular s rootfs [] = None"
| "first_regular s rootfs (c # cs) =
     (let (resolved, ok) = regular_file s rootfs c
      in if ok then Some resolved else first_regular s rootfs cs)"

definition detect_trust_store_path :: "fs \<Rightarrow> string \<Rightarrow> string list \<Rightarrow> string res" where
  "detect_trust_store_path s rootfs candidates =
     (case first_regular s rootfs candidates of
        Some resolved \<Rightarrow> Inr resolved
      | None \<Rightarrow> if length candidates > 0 then resolve_symlinks s rootfs (hd candidates)
          else Inl (Msg ''no known trust store path found in rootfs''))"

text \<open>\<open>stageMergedCA\<close>: an empty path when there is no store to merge with.\<close>

definition stage_merged_ca :: "packages \<Rightarrow> hctx \<Rightarrow> string \<Rightarrow> bytes \<Rightarrow> string io" where
  "stage_merged_ca C ctx store org s =
     (case fst (read_file s (cx_rootfs ctx) store) of
        Inl e \<Rightarrow> if is_not_exist e then (Inr [], s) else (Inl (Wrapped ''failed to read trust store'' e), s)
      | Inr current \<Rightarrow>
        (case merge_pem C current org of
           Inl e \<Rightarrow> (Inl e, s)
         | Inr merged \<Rightarrow> stage_file ctx merged_ca_file_name (mr_merged merged) s))"

definition write_individual_ca :: "string \<Rightarrow> string \<Rightarrow> bytes \<Rightarrow> string io" where
  "write_individual_ca rootfs anchor content s =
     (if anchor = [] then (Inr [], s)
      else (case write_file rootfs (path_join [anchor, individual_ca_file_name]) content s of
          (Inl e, s1) \<Rightarrow> (Inl (Wrapped ''failed to write individual CA file'' e), s1)
        | (Inr resolved, s1) \<Rightarrow> (Inr resolved, s1)))"

text \<open>\<open>Apply\<close> on a rootfs that cannot be written.\<close>

definition os_apply_read_only :: "packages \<Rightarrow> os_processor \<Rightarrow> string \<Rightarrow> bytes \<Rightarrow> unit step" where
  "os_apply_read_only C p target org ctx s =
     (let c1 = set_fact fact_distro (os_distro p) (set_fact fact_trust_store_path target
            (set_fact fact_rootfs_read_only ''true'' ctx)) in
      if cx_ca_file ctx = [] then (Inr (), c1, s)
      else
       (let c2 = set_fact fact_individual_ca_path (cx_ca_file ctx) c1 in
        (case stage_merged_ca C c2 target org s of
           (Inl e, s1) \<Rightarrow> (Inl e, c2, s1)
         | (Inr merged_path, s1) \<Rightarrow>
             (Inr (), if merged_path \<noteq> [] then set_fact fact_merged_ca_path merged_path c2 else c2, s1))))"

text \<open>The writes of \<open>Apply\<close>: the store, and on Alpine also the default path of OpenSSL.\<close>

definition os_write_store :: "os_processor \<Rightarrow> string \<Rightarrow> string \<Rightarrow> merge_result \<Rightarrow> unit io" where
  "os_write_store p rootfs target merged s =
     (if mr_added merged = 0 then (Inr (), s)
      else (case write_file rootfs target (mr_merged merged) s of
          (Inl e, s1) \<Rightarrow> (Inl (Wrapped ''failed to write trust store'' e), s1)
        | (Inr _, s1) \<Rightarrow>
            if os_distro p = ''alpine''
            then (case write_file rootfs ''/etc/ssl/cert.pem'' (mr_merged merged) s1 of
                (Inl e, s2) \<Rightarrow> (Inl (Wrapped ''failed to write alpine default cert path'' e), s2)
              | (Inr _, s2) \<Rightarrow> (Inr (), s2))
            else (Inr (), s1)))"

text \<open>The current store; a missing one counts as empty.\<close>

definition os_current_store :: "fs \<Rightarrow> string \<Rightarrow> string \<Rightarrow> bytes res" where
  "os_current_store s rootfs target = (case fst (read_file s rootfs target) of
     Inl e \<Rightarrow> if \<not> is_not_exist e then Inl (Wrapped ''failed to read trust store'' e) else Inr []
   | Inr b \<Rightarrow> Inr b)"

text \<open>The facts \<open>Apply\<close> leaves behind after an injection in place.\<close>

definition os_record_facts :: "os_processor \<Rightarrow> string \<Rightarrow> string \<Rightarrow> hctx \<Rightarrow> hctx" where
  "os_record_facts p target individual ctx =
     (let c1 = set_fact fact_merged_ca_path target
            (set_fact fact_distro (os_distro p)
            (set_fact fact_trust_store_kind ''bundle''
            (set_fact fact_trust_store_path target ctx)))
      in if individual \<noteq> [] then set_fact fact_individual_ca_path individual c1 else c1)"

definition os_apply_in_place :: "packages \<Rightarrow> os_processor \<Rightarrow> string \<Rightarrow> bytes \<Rightarrow> unit step" where
  "os_apply_in_place C p target org ctx s =
     (case os_current_store s (cx_rootfs ctx) target of
        Inl e \<Rightarrow> (Inl e, ctx, s)
      | Inr current \<Rightarrow>
        (case merge_pem C current org of
           Inl e \<Rightarrow> (Inl e, ctx, s)
         | Inr merged \<Rightarrow>
           (case os_write_store p (cx_rootfs ctx) target merged s of
              (Inl e, s1) \<Rightarrow> (Inl e, ctx, s1)
            | (Inr _, s1) \<Rightarrow>
              (case write_individual_ca (cx_rootfs ctx) (os_anchor_dir p) org s1 of
                 (Inl e, s2) \<Rightarrow> (Inl e, ctx, s2)
               | (Inr individual, s2) \<Rightarrow> (Inr (), os_record_facts p target individual ctx, s2)))))"

definition os_apply :: "packages \<Rightarrow> os_processor \<Rightarrow> unit step" where
  "os_apply C p ctx s =
     (if trust_store_configured (Some ctx) then (Inr (), ctx, s)
      else (case read_ca_bundle ctx s of
          Inl e \<Rightarrow> (Inl e, ctx, s)
        | Inr org \<Rightarrow>
          (case detect_trust_store_path s (cx_rootfs ctx) (os_candidates p) of
             Inl e \<Rightarrow> (Inl e, ctx, s)
           | Inr target \<Rightarrow>
             (case writable (cx_rootfs ctx) s of
                (False, s1) \<Rightarrow> os_apply_read_only C p target org ctx s1
              | (True, s1) \<Rightarrow> os_apply_in_place C p target org ctx s1))))"

end
