(* ===== verification/Registry.thy ===== *)
theory Registry
  imports Os_Store Java_Processor
begin

text \<open>
  \<open>internal/engine/processors/registry.go\<close>: the registered processors, selection by the
  include and exclude annotations, and detection in order of priority. The read-write lock
  guards single operations only, so each operation is one step on the registry.
\<close>

section \<open>The registry\<close>

record registry =
  rg_registered :: "processor list"
  rg_by_name :: "(string \<times> processor) list"

definition name_key :: "string \<Rightarrow> string" where
  "name_key n = to_lower (trim_space n)"

text \<open>\<open>Register\<close>; \<open>Inl\<close> stands for its panics.\<close>

definition register :: "processor \<Rightarrow> registry \<Rightarrow> registry res" where
  "register p rg =
     (let name = name_key (p_name p) in
      if name = [] then Inl (Msg ''processor name must not be empty'')
      else if map_of (rg_by_name rg) name \<noteq> None then Inl (Msg ''duplicate processor name'')
      else Inr \<lparr>rg_registered = rg_registered rg @ [p], rg_by_name = rg_by_name rg @ [(name, p)]\<rparr>)"

fun register_all :: "processor list \<Rightarrow> registry \<Rightarrow> registry res" where
  "register_all [] rg = Inr rg"
| "register_all (p # ps) rg = (case register p rg of Inl e \<Rightarrow> Inl e | Inr rg' \<Rightarrow> register_all ps rg')"

text \<open>An OS processor as a value of the interface; it has no \<open>ApplyWrapper\<close>.\<close>

definition os_value :: "packages \<Rightarrow> os_processor \<Rightarrow> processor" where
  "os_value C p = \<lparr>p_name = os_name p, p_category = ''os'', p_detect = os_detect C p,
     p_apply = os_apply C p, p_apply_wrapper = None\<rparr>"

text \<open>The processors that the package's \<open>init\<close> registers, in its order.\<close>

definition all_processors :: "packages \<Rightarrow> processor list" where
  "all_processors C = [os_value C new_debian, os_value C new_rhel, os_value C new_opensuse,
     os_value C new_alpine, os_value C new_arch, os_value C new_fallback,
     new_dotnet, new_golang, new_java C, new_nodejs, new_python, new_ruby]"

definition empty_registry :: registry where
  "empty_registry = \<lparr>rg_registered = [], rg_by_name = []\<rparr>"

definition default_processors :: "registry \<Rightarrow> processor list" where
  "default_processors rg = rg_registered rg"

definition by_name :: "registry \<Rightarrow> string \<Rightarrow> processor option" where
  "by_name rg name = map_of (rg_by_name rg) (name_key name)"

section \<open>Selection\<close>

text \<open>A set of names, as the list of its members.\<close>

definition parse_csv :: "string \<Rightarrow> string list" where
  "parse_csv raw = remdups (filter (\<lambda>n. n \<noteq> []) (map name_key (split_on (CHR '','') raw)))"

definition keep_processor :: "string list \<Rightarrow> string list \<Rightarrow> processor \<Rightarrow> bool" where
  "keep_processor incl excl p =
     (let name = to_lower (p_name p) in
      (length incl > 0 \<longrightarrow> name \<in> set incl) \<and> name \<notin> set excl)"

definition filter_by_names :: "processor list \<Rightarrow> string list \<Rightarrow> string list \<Rightarrow> processor list" where
  "filter_by_names ps incl excl = filter (keep_processor incl excl) ps"

section \<open>Detection\<close>

record detected =
  dt_processor :: processor
  dt_detect :: detect_result

text \<open>The standard library's \<open>sort.SliceStable\<close>: on the at most twenty elements of one block it
  is an insertion sort that moves each element down while it is less than its neighbour. The
  sorted prefix is kept last element first.\<close>

fun sift :: "('a \<Rightarrow> 'a \<Rightarrow> bool) \<Rightarrow> 'a \<Rightarrow> 'a list \<Rightarrow> 'a list" where
  "sift lt x [] = [x]"
| "sift lt x (y # ys) = (if lt x y then y # sift lt x ys else x # y # ys)"

definition slice_stable :: "('a \<Rightarrow> 'a \<Rightarrow> bool) \<Rightarrow> 'a list \<Rightarrow> 'a list" where
  "slice_stable lt xs = rev (fold (sift lt) xs [])"

text \<open>The comparison the code passes to it: descending priority.\<close>

definition detected_before :: "detected \<Rightarrow> detected \<Rightarrow> bool" where
  "detected_before a b = (dr_priority (dt_detect a) > dr_priority (dt_detect b))"

definition detect_sorted :: "hctx \<Rightarrow> fs \<Rightarrow> processor list \<Rightarrow> detected list" where
  "detect_sorted ctx s ps =
     slice_stable detected_before (map (\<lambda>p. \<lparr>dt_processor = p, dt_detect = p_detect p (Some ctx) s\<rparr>) ps)"

section \<open>Laws\<close>

lemma sift_set [simp]: "set (sift lt x ys) = insert x (set ys)"
  by (induction ys) auto

lemma slice_stable_set [simp]: "set (slice_stable lt xs) = set xs"
proof -
  have "set (fold (sift lt) xs ys) = set xs \<union> set ys" for ys by (induction xs arbitrary: ys) auto
  then show ?thesis by (simp add: slice_stable_def)
qed

lemma detect_sorted_processors: "d \<in> set (detect_sorted ctx s ps) \<Longrightarrow> dt_processor d \<in> set ps"
  by (auto simp: detect_sorted_def)

lemma register_Inr:
  "register p rg = Inr rg' \<Longrightarrow> rg_registered rg' = rg_registered rg @ [p] \<and>
     rg_by_name rg' = rg_by_name rg @ [(name_key (p_name p), p)] \<and>
     map_of (rg_by_name rg) (name_key (p_name p)) = None \<and> name_key (p_name p) \<noteq> []"
  by (auto simp: register_def Let_def split: if_splits)

text \<open>After any sequence of registrations the list and the map hold the same processors
  under distinct nonempty names.\<close>

definition registry_ok :: "registry \<Rightarrow> bool" where
  "registry_ok rg = (map snd (rg_by_name rg) = rg_registered rg \<and> distinct (map fst (rg_by_name rg)) \<and>
     (\<forall>(n, p) \<in> set (rg_by_name rg). n = name_key (p_name p) \<and> n \<noteq> []))"

lemma register_ok:
  assumes "registry_ok rg" and "register p rg = Inr rg'"
  shows "registry_ok rg'"
proof -
  have r: "rg_registered rg' = rg_registered rg @ [p]"
    "rg_by_name rg' = rg_by_name rg @ [(name_key (p_name p), p)]"
    "name_key (p_name p) \<notin> fst ` set (rg_by_name rg)" "name_key (p_name p) \<noteq> []"
    using register_Inr [OF assms(2)] by (simp_all add: map_of_eq_None_iff)
  show ?thesis using assms(1) r(3,4) unfolding registry_ok_def r(1,2) by simp
qed

lemma register_all_Inr:
  "register_all ps rg = Inr rg' \<Longrightarrow> registry_ok rg \<Longrightarrow>
   registry_ok rg' \<and> rg_registered rg' = rg_registered rg @ ps"
proof (induction ps arbitrary: rg)
  case (Cons p ps)
  obtain rg1 where r: "register p rg = Inr rg1" "register_all ps rg1 = Inr rg'"
    using Cons.prems(1) by (auto split: sum.splits)
  show ?case using Cons.IH [OF r(2) register_ok [OF Cons.prems(2) r(1)]] register_Inr [OF r(1)] by simp
qed simp

lemma empty_registry_ok [simp]: "registry_ok empty_registry"
  by (simp add: registry_ok_def empty_registry_def)

lemma by_name_registered:
  assumes "registry_ok rg" and "by_name rg n = Some p"
  shows "p \<in> set (rg_registered rg)"
proof -
  have "(name_key n, p) \<in> set (rg_by_name rg)" using assms(2) by (simp add: by_name_def map_of_SomeD)
  then have "snd (name_key n, p) \<in> set (map snd (rg_by_name rg))" unfolding set_map by (rule imageI)
  moreover have "map snd (rg_by_name rg) = rg_registered rg" using assms(1) by (simp add: registry_ok_def)
  ultimately show ?thesis by (simp only: snd_conv)
qed

text \<open>Registering processors with distinct new names never panics.\<close>

lemma register_all_total:
  "distinct (map (\<lambda>p. name_key (p_name p)) ps) \<Longrightarrow> [] \<notin> set (map (\<lambda>p. name_key (p_name p)) ps) \<Longrightarrow>
   set (map (\<lambda>p. name_key (p_name p)) ps) \<inter> set (map fst (rg_by_name rg)) = {} \<Longrightarrow>
   \<exists>rg'. register_all ps rg = Inr rg'"
proof (induction ps arbitrary: rg)
  case (Cons p ps)
  have "map_of (rg_by_name rg) (name_key (p_name p)) = None"
    using Cons.prems(3) by (simp add: map_of_eq_None_iff)
  then have r: "register p rg = Inr \<lparr>rg_registered = rg_registered rg @ [p],
      rg_by_name = rg_by_name rg @ [(name_key (p_name p), p)]\<rparr>"
    using Cons.prems(2) by (auto simp: register_def Let_def)
  show ?case using Cons.IH [of "\<lparr>rg_registered = rg_registered rg @ [p],
      rg_by_name = rg_by_name rg @ [(name_key (p_name p), p)]\<rparr>"] Cons.prems r by auto
qed simp

definition processor_names :: "string list" where
  "processor_names = [''os-debian'', ''os-rhel'', ''os-opensuse'', ''os-alpine'', ''os-arch'',
     ''os-fallback'', ''lang-dotnet'', ''lang-go'', ''lang-java'', ''lang-nodejs'', ''lang-python'', ''lang-ruby'']"

lemma all_processors_names: "map p_name (all_processors C) = processor_names"
  by (simp add: all_processors_def processor_names_def os_value_def new_debian_def new_rhel_def
      new_opensuse_def new_alpine_def new_arch_def new_fallback_def new_dotnet_def new_golang_def
      new_java_def java_name_def new_nodejs_def new_python_def new_ruby_def)

lemma all_processors_keys: "map (\<lambda>p. name_key (p_name p)) (all_processors C) = processor_names"
proof -
  have "map name_key processor_names = processor_names" by code_simp
  then have "map name_key (map p_name (all_processors C)) = processor_names"
    by (simp only: all_processors_names)
  then show ?thesis by (simp add: comp_def)
qed

lemma register_all_default: "\<exists>rg. register_all (all_processors C) empty_registry = Inr rg"
proof (rule register_all_total)
  have "distinct processor_names" "[] \<notin> set processor_names" by code_simp+
  then show "distinct (map (\<lambda>p. name_key (p_name p)) (all_processors C))"
    "[] \<notin> set (map (\<lambda>p. name_key (p_name p)) (all_processors C))"
    by (simp_all only: all_processors_keys not_False_eq_True)
qed (simp add: empty_registry_def)

end
