(* ===== verification/Hook.thy ===== *)
theory Hook
  imports Hook_Context Registry
begin

text \<open>
  \<open>internal/runtime/hook\<close>: the OCI hook. It detects the processors that apply, runs them in
  order of priority, persists the context for the wrapper and leaves breadcrumbs for the
  plugin. \<open>penv\<close> is the environment of the hook process.
\<close>

section \<open>Breadcrumbs (breadcrumb.go)\<close>

definition breadcrumb :: "strmap \<Rightarrow> string \<Rightarrow> string \<Rightarrow> fs \<Rightarrow> fs" where
  "breadcrumb penv name content s =
     (let dir = getenv penv env_breadcrumb_dir in
      if dir = [] then s else snd (os_write_file (path_join [dir, name]) content 384 s))"

definition breadcrumb_now :: "codec \<Rightarrow> strmap \<Rightarrow> string \<Rightarrow> fs \<Rightarrow> fs" where
  "breadcrumb_now J penv name s = breadcrumb penv name (fmt_time J (fs_clock s)) s"

section \<open>Running the processors (runner.go)\<close>

definition persisted_of :: "detected \<Rightarrow> detected_processor" where
  "persisted_of d = \<lparr>dp_name = p_name (dt_processor d), dp_category = p_category (dt_processor d),
     dp_applicable = dr_applicable (dt_detect d), dp_priority = dr_priority (dt_detect d),
     dp_reason = dr_reason (dt_detect d)\<rparr>"

definition skipped_result :: "detected \<Rightarrow> processor_result" where
  "skipped_result d = \<lparr>pr_name = p_name (dt_processor d), pr_category = p_category (dt_processor d),
     pr_applied = False, pr_skipped = True, pr_err = None, pr_reason = dr_reason (dt_detect d)\<rparr>"

definition applied_result :: "detected \<Rightarrow> unit res \<Rightarrow> processor_result" where
  "applied_result d r = \<lparr>pr_name = p_name (dt_processor d), pr_category = p_category (dt_processor d),
     pr_applied = (r = Inr ()), pr_skipped = False,
     pr_err = (case r of Inl e \<Rightarrow> Some e | Inr _ \<Rightarrow> None), pr_reason = []\<rparr>"

text \<open>One turn of the loop.\<close>

definition run_detected :: "strmap \<Rightarrow> detected \<Rightarrow> hctx \<Rightarrow> fs \<Rightarrow> hctx \<times> fs" where
  "run_detected penv d ctx s =
     (if \<not> dr_applicable (dt_detect d) then (add_result (skipped_result d) ctx, s)
      else
       (let s1 = breadcrumb penv breadcrumb_progress (p_name (dt_processor d)) s in
        (case p_apply (dt_processor d) ctx s1 of
           (r, ctx1, s2) \<Rightarrow> (add_result (applied_result d r) ctx1, s2))))"

fun run_loop :: "strmap \<Rightarrow> detected list \<Rightarrow> hctx \<Rightarrow> fs \<Rightarrow> hctx \<times> fs" where
  "run_loop penv [] ctx s = (ctx, s)"
| "run_loop penv (d # ds) ctx s =
     (case run_detected penv d ctx s of (ctx1, s1) \<Rightarrow> run_loop penv ds ctx1 s1)"

definition run_processors ::
  "strmap \<Rightarrow> processor list \<Rightarrow> hctx \<Rightarrow> fs \<Rightarrow> detected_processor list \<times> hctx \<times> fs" where
  "run_processors penv ps ctx s =
     (let detected = detect_sorted ctx s ps in
      (case run_loop penv detected ctx s of (ctx1, s1) \<Rightarrow> (map persisted_of detected, ctx1, s1)))"

definition persist_wrapper_context :: "codec \<Rightarrow> strmap \<Rightarrow> hctx \<Rightarrow> detected_processor list \<Rightarrow> unit io" where
  "persist_wrapper_context J penv ctx detected =
     hook_write J penv (cx_rootfs ctx) (new_state_from_context ctx detected)"

definition spec_env :: "oci_spec \<Rightarrow> string list" where
  "spec_env spec = (case spec_process_env spec of None \<Rightarrow> [] | Some e \<Rightarrow> e)"

definition annotation :: "strmap \<Rightarrow> string \<Rightarrow> string" where
  "annotation m k = (case map_of m k of None \<Rightarrow> [] | Some v \<Rightarrow> v)"

definition hook_context :: "strmap \<Rightarrow> string \<Rightarrow> oci_state \<Rightarrow> oci_spec \<Rightarrow> hctx" where
  "hook_context penv mode st spec =
     \<lparr>cx_mode = mode, cx_bundle = oci_bundle st,
      cx_annotations = (case oci_annotations st of None \<Rightarrow> [] | Some m \<Rightarrow> m),
      cx_rootfs = resolve_rootfs_path (oci_bundle st) spec,
      cx_ca_file = getenv_or penv env_ca_file default_ca_file,
      cx_fail_policy = getenv_or penv env_fail_policy fail_policy_open,
      cx_env = spec_env spec, cx_facts = Some facts_new, cx_results = []\<rparr>"

definition selected_processors :: "registry \<Rightarrow> strmap \<Rightarrow> hctx \<Rightarrow> processor list" where
  "selected_processors rg penv ctx =
     filter_by_names (default_processors rg)
       (parse_csv (annotation (cx_annotations ctx) (anno_processors_include penv)))
       (parse_csv (annotation (cx_annotations ctx) (anno_processors_exclude penv)))"

text \<open>The hook after its inputs are read.\<close>

definition hook_body :: "codec \<Rightarrow> registry \<Rightarrow> strmap \<Rightarrow> hctx \<Rightarrow> unit io" where
  "hook_body J rg penv ctx s =
     (case run_processors penv (selected_processors rg penv ctx) ctx s of
        (detected, ctx1, s1) \<Rightarrow>
          (case persist_wrapper_context J penv ctx1 detected s1 of
             (Inl e, s2) \<Rightarrow> (Inl e, s2)
           | (Inr _, s2) \<Rightarrow> (Inr (), breadcrumb_now J penv breadcrumb_done s2)))"

definition hook_run :: "codec \<Rightarrow> registry \<Rightarrow> strmap \<Rightarrow> bytes res \<Rightarrow> unit io" where
  "hook_run J rg penv stdin s =
     (let mode = to_lower (trim_space (getenv penv env_hook_mode)) in
      if mode \<noteq> mode_create_rt \<and> mode \<noteq> mode_create_ctr then (Inl (Msg ''unknown hook mode''), s)
      else
       (let s1 = breadcrumb_now J penv breadcrumb_started s in
        (case read_state J stdin of
           Inl e \<Rightarrow> (Inl e, s1)
         | Inr st \<Rightarrow>
            (case load_spec J s1 (oci_bundle st) of
               Inl e \<Rightarrow> (Inl e, s1)
             | Inr (_, spec) \<Rightarrow> hook_body J rg penv (hook_context penv mode st spec) s1))))"

end
