(* ===== verification/File_Ops.thy ===== *)
theory File_Ops
  imports Container_Fs_Writes
begin

text \<open>
  What every write of the program keeps, whichever calls fail: the tree stays a tree, no
  directory and no link appears or disappears except for new directories on the way to a
  target. With that, the conditions under which the confinement lemmas hold are kept from
  one write to the next, and a write whose target is the root directory of the container is
  bounded as well.
\<close>

section \<open>Operations on files\<close>

text \<open>Nothing but files changes: the tree stays a tree, directories are the same, and no link
  is created.\<close>

definition file_op :: "fs \<Rightarrow> fs \<Rightarrow> bool" where
  "file_op s s' = (wf_fs s \<longrightarrow> wf_fs s' \<and> (\<forall>p. is_dir (node_at s' p) = is_dir (node_at s p)) \<and>
     (\<forall>p. is_link (node_at s' p) \<longrightarrow> is_link (node_at s p)))"

lemma file_op_refl [simp]: "file_op s s"
  by (simp add: file_op_def)

lemma file_op_trans: "file_op s s' \<Longrightarrow> file_op s' s'' \<Longrightarrow> file_op s s''"
  unfolding file_op_def by blast

lemma wf_tree_file:
  assumes "wf_tree m" and "is_dir (m p)" and "valid_name n" and "\<not> is_dir (m (p @ [n]))" and "\<not> is_dir (Some x)"
  shows "wf_tree (m(p @ [n] \<mapsto> x))"
  using assms by (intro wf_tree_put) auto

lemma wf_tree_delete:
  assumes "wf_tree m" and "\<not> is_dir (m a)"
  shows "wf_tree (m(a := None))"
proof -
  have "valid_name n \<and> is_dir ((m(a := None)) p)" if "(m(a := None)) (p @ [n]) \<noteq> None" for p n
  proof -
    have "m (p @ [n]) \<noteq> None" using that by (auto split: if_splits)
    then have "valid_name n" "is_dir (m p)" using wf_treeD [OF assms(1)] by auto
    moreover have "p \<noteq> a" using \<open>is_dir (m p)\<close> assms(2) by auto
    ultimately show ?thesis by simp
  qed
  moreover have "a \<noteq> []" using assms wf_tree_root by auto
  ultimately show ?thesis using wf_tree_root [OF assms(1)] by (simp add: wf_tree_def)
qed

text \<open>Writing a file node where there is no directory, below an existing one.\<close>

lemma file_op_put:
  assumes "\<not> is_dir (node_at s q)" and "\<not> is_dir (Some x)" and "\<not> is_link (Some x)"
    and "wf_fs s \<Longrightarrow> \<exists>p n. q = p @ [n] \<and> is_dir (node_at s p) \<and> valid_name n"
    and "node_at s' = (node_at s)(q \<mapsto> x)"
  shows "file_op s s'"
proof -
  have "wf_fs s'" if "wf_fs s"
    using assms wf_tree_file [of "node_at s"] that unfolding wf_fs_def by fastforce
  then show ?thesis using assms(1,2,3,5) by (auto simp: file_op_def)
qed

lemma existing_place:
  assumes "wf_fs s" and "node_at s q \<noteq> None" and "\<not> is_dir (node_at s q)"
  shows "\<exists>p n. q = p @ [n] \<and> is_dir (node_at s p) \<and> valid_name n"
proof (cases q rule: rev_cases)
  case Nil
  then show ?thesis using assms wf_tree_root by (auto simp: wf_fs_def)
next
  case (snoc p n)
  then show ?thesis using assms wf_treeD [of "node_at s" p n] by (auto simp: wf_fs_def)
qed

lemma walk_place:
  assumes "wf_fs s" and "host_walk s fl path = Inr q" and "\<not> is_dir (node_at s q)"
  shows "\<exists>p n. q = p @ [n] \<and> is_dir (node_at s p) \<and> valid_name n"
  using host_walk_result [OF assms(1,2)] assms(3) by auto

lemma sys_write_file_op: "file_op s (snd (sys_write h data s))"
  by (auto simp: sys_write_def split: option.split node.split
      intro!: file_op_put [of s h] existing_place)

lemma sys_chmod_file_op: "file_op s (snd (sys_chmod h m s))"
  by (auto simp: sys_chmod_def split: option.split node.split
      intro!: file_op_put [of s h] existing_place)

lemma sys_chown_file_op: "file_op s (snd (sys_chown h u g s))"
  by (auto simp: sys_chown_def split: option.split node.split
      intro!: file_op_put [of s h] existing_place)

lemma sys_create_file_op: "file_op s (snd (sys_create path m s))"
  by (auto simp: sys_create_def split: option.split sum.split
      intro!: file_op_put walk_place)

lemma os_write_file_file_op: "file_op s (snd (os_write_file path data m s))"
proof -
  have step: "file_op s u \<Longrightarrow> file_op s (snd (sys_write q data u))" for q u
    using file_op_trans sys_write_file_op by blast
  show ?thesis
    by (auto simp: os_write_file_def split: option.split sum.split node.split
        intro!: step file_op_put existing_place walk_place)
qed

lemma sys_remove_file_op:
  assumes "\<And>q. host_walk s False path = Inr q \<Longrightarrow> \<not> is_dir (node_at s q)"
  shows "file_op s (snd (sys_remove path s))"
  using assms
  by (auto simp: sys_remove_def file_op_def wf_fs_def wf_tree_delete
      split: option.split sum.split)

lemma sys_rename_file_op:
  assumes "\<And>q. host_walk s False old = Inr q \<Longrightarrow> is_regular (node_at s q)"
  shows "file_op s (snd (sys_rename old new s))"
proof -
  have move: "file_op s s'" if a: "host_walk s False old = Inr a" and b: "host_walk s False new = Inr b"
    and n: "node_at s a = Some n" and nd: "\<not> is_dir (node_at s b)" and ab: "a \<noteq> b"
    and s': "node_at s' = ((node_at s)(b \<mapsto> n))(a := None)" for a b n s'
  proof -
    have reg: "is_regular (Some n)" using assms [OF a] n by simp
    then have ln: "\<not> is_dir (Some n)" "\<not> is_link (Some n)" by (cases n; simp)+
    have "wf_fs s'" if wf: "wf_fs s"
    proof -
      obtain p k where b': "b = p @ [k]" "is_dir (node_at s p)" "valid_name k"
        using walk_place [OF wf b nd] by auto
      have "wf_tree ((node_at s)(b \<mapsto> n))"
        using wf_tree_file [of "node_at s" p k n] wf b' nd ln by (simp add: wf_fs_def)
      then have "wf_tree (((node_at s)(b \<mapsto> n))(a := None))"
        by (rule wf_tree_delete) (use ab n ln in simp)
      then show ?thesis using s' by (simp add: wf_fs_def)
    qed
    then show ?thesis using ln nd ab n by (auto simp: file_op_def s')
  qed
  show ?thesis
    by (auto simp: sys_rename_def map_of_fs_nodes split: option.split sum.split intro!: move)
qed

lemma sys_check_file_op: "file_op s (snd (sys_check c h s))"
  by simp

lemma io_bind_file_op:
  assumes "file_op s (snd (m s))" and "\<And>x s'. m s = (Inr x, s') \<Longrightarrow> file_op s' (snd (f x s'))"
  shows "file_op s (snd (io_bind m f s))"
proof (cases "m s")
  case (Pair r s')
  then show ?thesis
  proof (cases r)
    case (Inr x)
    then have "file_op s' (snd (f x s'))" using Pair assms(2) by simp
    then show ?thesis using assms(1) Pair Inr by (auto simp: io_bind_def intro: file_op_trans)
  qed (use assms(1) Pair in \<open>simp add: io_bind_def\<close>)
qed

section \<open>The atomic write\<close>

lemma aw_chown_file_op: "file_op s (snd (aw_chown h p ow s))"
  using sys_chown_file_op [of s h]
  by (auto simp: aw_chown_def split: option.split prod.split sum.split) (metis snd_conv)+

lemma aw_fill_file_op: "file_op s (snd (aw_fill h data mode p ow s))"
  unfolding aw_fill_def
  by (intro io_bind_file_op sys_write_file_op sys_chmod_file_op aw_chown_file_op sys_check_file_op)

lemma create_temp_file_op: "file_op s (snd (create_temp n dir s))"
proof (induction n dir s rule: create_temp.induct)
  case (1 n dir s)
  define s0 where "s0 = s\<lparr>fs_rand_ix := Suc (fs_rand_ix s)\<rparr>"
  define nm where "nm = temp_name dir (fs_rand s (fs_rand_ix s))"
  note IH = "1.IH" [OF nm_def s0_def]
  obtain r s' where step: "sys_create nm 384 s0 = (r, s')" by (cases "sys_create nm 384 s0")
  have "file_op s0 s'" using sys_create_file_op [of s0 nm 384] step by simp
  then have c: "file_op s s'" by (simp add: file_op_def s0_def wf_fs_def)
  have eq: "create_temp n dir s = (case r of Inr h \<Rightarrow> (Inr (nm, h), s')
      | Inl e \<Rightarrow> if e = Sys EEXIST \<and> 0 < n then create_temp (n - 1) dir s' else (Inl e, s'))"
    unfolding create_temp.simps [of n] Let_def nm_def [symmetric] s0_def [symmetric] step
    by (simp split: sum.split)
  show ?case
    unfolding eq using IH step c by (auto split: sum.split intro: file_op_trans)
qed

text \<open>The rest of the write, once the temporary file is there.\<close>

lemma aw_rest_regular:
  assumes rd: "real_dir (node_at s) d" and wf: "wf_fs s" and made: "temp_made d tmp h s s1"
    and c: "changes_only R s u" and R: "\<And>p. prefix p d \<Longrightarrow> p \<notin> R"
  shows "host_walk u False tmp = Inr h"
proof -
  obtain k where h: "h = d @ [temp_base k]" and tmp: "tmp = abs_path h"
    using made by (auto simp: temp_made_def temps_def)
  show ?thesis
    unfolding tmp h by (rule host_walk_entry [OF real_dir_changes [OF rd c R] temp_base_valid])
qed

lemma sys_write_regular:
  "is_regular (node_at s h) \<Longrightarrow> is_regular (node_at (snd (sys_write h data s)) h)"
  by (cases "node_at s h") (auto simp: sys_write_def split: option.split node.split)

lemma sys_chmod_regular: "is_regular (node_at s h) \<Longrightarrow> is_regular (node_at (snd (sys_chmod h m s)) h)"
  by (cases "node_at s h") (auto simp: sys_chmod_def split: option.split node.split)

lemma aw_chown_regular: "is_regular (node_at s h) \<Longrightarrow> is_regular (node_at (snd (aw_chown h p ow s)) h)"
  by (cases "node_at s h") (auto simp: aw_chown_def sys_chown_def split: option.split node.split prod.split sum.split)

lemma io_bind_regular:
  assumes "is_regular (node_at (snd (m s)) h)"
    and "\<And>x s'. is_regular (node_at s' h) \<Longrightarrow> is_regular (node_at (snd (f x s')) h)"
  shows "is_regular (node_at (snd (io_bind m f s)) h)"
  using assms by (auto simp: io_bind_def split: prod.split sum.split)

lemma aw_fill_stays_regular:
  "is_regular (node_at s h) \<Longrightarrow> is_regular (node_at (snd (aw_fill h data mode p ow s)) h)"
  unfolding aw_fill_def
  by (intro io_bind_regular sys_write_regular sys_chmod_regular aw_chown_regular) simp_all

lemma aw_rest_file_op:
  assumes rd: "real_dir (node_at s) d" and wf: "wf_fs s" and made: "temp_made d tmp h s s1"
    and f1: "file_op s s1" and n: "valid_name n"
  shows "file_op s (snd (aw_rest tmp h (abs_path (d @ [n])) data mode p ow s1)) \<and>
    (is_dir (node_at s (d @ [n])) \<longrightarrow>
       changes_only (temps d) s (snd (aw_rest tmp h (abs_path (d @ [n])) data mode p ow s1)))"
proof -
  let ?f = "d @ [n]" and ?R = "insert (d @ [n]) (temps d)"
  have hd: "h \<in> temps d" and c1: "changes_only {h} s s1" and r1: "is_regular (node_at s1 h)"
    using made by (auto simp: temp_made_def)
  define fill where "fill = aw_fill h data mode p ow s1"
  have cf: "changes_only {h} s1 (snd fill)" unfolding fill_def by (rule aw_fill_changes)
  have c2: "changes_only {h} s (snd fill)" by (rule changes_only_trans [OF c1 cf])
  have f2: "file_op s (snd fill)" unfolding fill_def by (rule file_op_trans [OF f1 aw_fill_file_op])
  have np: "q \<notin> {h}" if "prefix q d" for q using that hd temps_not_prefix by auto
  have np': "q \<notin> temps d" if "prefix q d" for q using that temps_not_prefix by auto
  have reg: "is_regular (node_at (snd fill) h)" unfolding fill_def by (rule aw_fill_stays_regular [OF r1])
  have w2: "host_walk (snd fill) False tmp = Inr h" by (rule aw_rest_regular [OF rd wf made c2 np])
  define out where "out = io_bind (aw_fill h data mode p ow) (\<lambda>_. sys_rename tmp (abs_path ?f)) s1"
  have out: "snd out = snd fill \<or> snd out = snd (sys_rename tmp (abs_path ?f) (snd fill))"
    by (auto simp: out_def fill_def io_bind_def split: prod.split sum.split)
  have ren: "file_op (snd fill) (snd (sys_rename tmp (abs_path ?f) (snd fill)))"
    by (rule sys_rename_file_op) (use w2 reg in simp)
  have f3: "file_op s (snd out)" using out f2 file_op_trans [OF f2 ren] by auto
  have c3: "changes_only ?R s (snd out)"
  proof -
    have wf2: "host_walk (snd fill) False (abs_path ?f) = Inr ?f"
      by (rule host_walk_entry [OF real_dir_changes [OF rd c2 np] n])
    have "changes_only ?R (snd fill) (snd (sys_rename tmp (abs_path ?f) (snd fill)))"
      by (rule sys_rename_changes) (use w2 wf2 hd in auto)
    moreover have "changes_only ?R s (snd fill)" by (rule changes_only_mono [OF c2]) (use hd in auto)
    ultimately show ?thesis using out changes_only_trans by auto
  qed
  have hnd: "\<not> is_dir (node_at (snd out) h)"
    using f3 wf reg made f2 by (auto simp: file_op_def temp_made_def)
  have npR: "q \<notin> ?R" if "prefix q d" for q using that temps_not_prefix by (auto simp: prefix_def)
  have w3: "host_walk (snd out) False tmp = Inr h" by (rule aw_rest_regular [OF rd wf made c3 npR])
  have "file_op (snd out) (snd (sys_remove tmp (snd out)))"
    by (rule sys_remove_file_op) (use w3 hnd in simp)
  then have F: "file_op s (snd (sys_remove tmp (snd out)))" by (rule file_op_trans [OF f3])
  have C: "changes_only (temps d) s (snd (sys_remove tmp (snd out)))" if dir: "is_dir (node_at s ?f)"
  proof -
    have wf2: "host_walk (snd fill) False (abs_path ?f) = Inr ?f"
      by (rule host_walk_entry [OF real_dir_changes [OF rd c2 np] n])
    have "is_dir (node_at (snd fill) ?f)" using f2 wf dir by (simp add: file_op_def)
    then have "snd (sys_rename tmp (abs_path ?f) (snd fill)) = snd fill"
      using w2 wf2 by (auto simp: sys_rename_def split: option.split)
    then have "snd out = snd fill" using out by auto
    then have c: "changes_only (temps d) s (snd out)"
      using changes_only_mono [OF c2, of "temps d"] hd by simp
    have "changes_only (temps d) (snd out) (snd (sys_remove tmp (snd out)))"
      by (rule sys_remove_changes) (use w3 hd in simp)
    with c show ?thesis by (rule changes_only_trans)
  qed
  show ?thesis using F C by (simp add: aw_rest_def out_def case_prod_beta)
qed

lemma atomic_write_file_op:
  assumes rd: "real_dir (node_at s) d" and wf: "wf_fs s" and n: "valid_name n"
  shows "file_op s (snd (atomic_write (abs_path (d @ [n])) data opt s)) \<and>
    (is_dir (node_at s (d @ [n])) \<longrightarrow>
       changes_only (temps d) s (snd (atomic_write (abs_path (d @ [n])) data opt s)))"
proof -
  have dir: "path_dir (abs_path (d @ [n])) = abs_path d"
    using path_dir_abs_path [of d n] real_dir_names [OF rd] n by simp
  show ?thesis
  proof (cases "create_temp max_temp_tries (abs_path d) s")
    case (Pair r s1)
    have f1: "file_op s s1" using create_temp_file_op [of s max_temp_tries "abs_path d"] Pair by simp
    show ?thesis
    proof (cases r)
      case (Inl e)
      then show ?thesis
        using create_temp_Inl [of _ _ _ e s1] Pair dir f1 changes_only_mono [of "{}" s s1 "temps d"]
        by (auto simp: atomic_write_def Let_def)
    next
      case (Inr th)
      then have "temp_made d (fst th) (snd th) s s1" using create_temp_Inr [OF rd] Pair by simp
      from aw_rest_file_op [OF rd wf this f1 n] show ?thesis
        using Pair Inr dir by (auto simp: atomic_write_def Let_def aw_rest_def case_prod_beta)
    qed
  qed
qed

section \<open>Operations on the tree\<close>

text \<open>The same with new directories allowed.\<close>

definition tree_op :: "fs \<Rightarrow> fs \<Rightarrow> bool" where
  "tree_op s s' = (wf_fs s \<longrightarrow> wf_fs s' \<and> (\<forall>p. is_dir (node_at s p) \<longrightarrow> is_dir (node_at s' p)) \<and>
     (\<forall>p. is_link (node_at s' p) \<longrightarrow> is_link (node_at s p)))"

lemma tree_op_refl [simp]: "tree_op s s"
  by (simp add: tree_op_def)

lemma tree_op_trans: "tree_op s s' \<Longrightarrow> tree_op s' s'' \<Longrightarrow> tree_op s s''"
  unfolding tree_op_def by blast

lemma file_op_tree_op: "file_op s s' \<Longrightarrow> tree_op s s'"
  unfolding file_op_def tree_op_def by blast

lemma dirs_added_tree_op: "dirs_added p s s' \<Longrightarrow> wf_fs s' \<Longrightarrow> tree_op s s'"
  unfolding tree_op_def
  using dirs_added_existing [of p s s'] is_dir_not_None by (auto simp: dirs_added_def)

lemma tree_op_real_dir:
  assumes "tree_op s s'" and "wf_fs s" and "real_dir (node_at s) d"
  shows "real_dir (node_at s') d"
proof -
  have "is_dir (node_at s d)" using assms(3) by (auto simp: real_dir_def)
  then have "is_dir (node_at s' d)" "wf_fs s'" using assms(1,2) by (auto simp: tree_op_def)
  then show ?thesis by (auto simp: wf_fs_def intro: wf_tree_real_dir)
qed

lemma tree_op_root_ok: "tree_op s s' \<Longrightarrow> root_ok s rootfs \<Longrightarrow> root_ok s' rootfs"
  using tree_op_real_dir by (auto simp: root_ok_def tree_op_def)

section \<open>Writes below a rootfs\<close>

text \<open>Everything a write into the rootfs may touch: what lies below the root directory, and
  temporary files next to the root directory.\<close>

definition write_area :: "string \<Rightarrow> fpath set" where
  "write_area rootfs = {q. strict_prefix (root_of rootfs) q} \<union> temps (butlast (root_of rootfs))"

text \<open>Where a write goes: to an entry of a directory below the rootfs, or, when the path resolves
  to the root directory, to the entry of the rootfs itself.\<close>

lemma write_file_place:
  assumes ok: "root_ok s rootfs" and ne: "root_of rootfs \<noteq> []" and res: "resolve_symlinks s rootfs cp = Inr r"
  obtains d n where "valid_names d" "valid_name n" "clear (node_at s) [] d"
    "path_in_rootfs rootfs r = abs_path (d @ [n])" "path_dir (path_in_rootfs rootfs r) = abs_path d"
    "r \<noteq> [slash] \<or> d @ [n] = root_of rootfs" "temps d \<subseteq> write_area rootfs"
proof (cases "r = [slash]")
  case True
  have rd: "real_dir (node_at s) (root_of rootfs)" and abs: "is_abs rootfs"
    using ok by (auto simp: root_ok_def)
  obtain d n where dn: "root_of rootfs = d @ [n]" using ne by (cases "root_of rootfs" rule: rev_cases) auto
  have v: "valid_names (d @ [n])" using root_of_valid [of rootfs] dn by simp
  have "path_in_rootfs rootfs r = abs_path (root_of rootfs @ [])"
    using path_in_rootfs_abs_path [OF abs, of "[]"] True by (simp add: abs_path_def)
  then have h: "path_in_rootfs rootfs r = abs_path (d @ [n])" using dn by simp
  have "real_dir (node_at s) d" using rd unfolding dn by (rule real_dir_prefix)
  moreover have "temps d \<subseteq> write_area rootfs" by (simp add: write_area_def dn)
  ultimately show thesis
    using that [of d n] v h dn path_dir_abs_path [OF v] real_dir_clear by auto
next
  case False
  obtain d n where dn: "valid_names (d @ [n])" "clear (node_at s) [] d" "prefix (root_of rootfs) d"
    "path_in_rootfs rootfs r = abs_path (d @ [n])" "path_dir (path_in_rootfs rootfs r) = abs_path d"
    using write_file_steps [OF ok res False] by metis
  have "temps d \<subseteq> write_area rootfs"
    using dn(3) by (auto simp: write_area_def temps_def strict_prefix_def prefix_def)
  then show thesis using that [of d n] dn False by simp
qed

text \<open>A write leaves every node alone but its target and temporary files, whether it fails or not.\<close>

lemma write_file_keeps:
  assumes ok: "root_ok s rootfs" and ne: "root_of rootfs \<noteq> []" and q: "node_at s q \<noteq> None"
    and nt: "\<And>k. last q \<noteq> temp_base k"
    and tgt: "\<And>r. resolve_symlinks s rootfs cp = Inr r \<Longrightarrow> path_in_rootfs rootfs r \<noteq> abs_path q"
  shows "node_at (snd (write_file rootfs cp data s)) q = node_at s q"
proof (cases "resolve_symlinks s rootfs cp")
  case (Inl e)
  then show ?thesis by (simp add: write_file_def)
next
  case (Inr r)
  obtain d n where vd: "valid_names d" "valid_name n" and cl: "clear (node_at s) [] d"
    and host: "path_in_rootfs rootfs r = abs_path (d @ [n])" "path_dir (path_in_rootfs rootfs r) = abs_path d"
    using write_file_place [OF ok ne Inr] by metis
  obtain r1 s1 where m: "os_mkdir_all (abs_path d) 493 s = (r1, s1)" by (cases "os_mkdir_all (abs_path d) 493 s")
  note made = write_file_mkdir [OF ok cl vd(1) m]
  have s1: "node_at s1 q = node_at s q" by (rule dirs_added_existing [OF made(1) q])
  show ?thesis
  proof (cases r1)
    case (Inl e)
    then show ?thesis using \<open>resolve_symlinks s rootfs cp = Inr r\<close> m host s1 by (simp add: write_file_def)
  next
    case r1: (Inr u)
    then have rd: "real_dir (node_at s1) d" using made(3) by simp
    have "q \<notin> temps d"
    proof
      assume "q \<in> temps d"
      then obtain k where "q = d @ [temp_base k]" by (auto simp: temps_def)
      then show False using nt [of k] by simp
    qed
    then have "q \<notin> insert (d @ [n]) (temps d)" using tgt [OF Inr] host(1) by auto
    from changes_only_node [OF atomic_write_changes [OF rd vd(2)] this]
    have "node_at (snd (atomic_write (abs_path (d @ [n])) data rootfs_write_options s1)) q = node_at s q"
      using s1 by simp
    then show ?thesis using Inr m host r1 by (auto simp: write_file_def split: prod.split sum.split)
  qed
qed

lemma write_file_bounds:
  assumes ok: "root_ok s rootfs" and ne: "root_of rootfs \<noteq> []"
  shows "changes_only (write_area rootfs) s (snd (write_file rootfs cp data s)) \<and>
    tree_op s (snd (write_file rootfs cp data s))"
proof (cases "resolve_symlinks s rootfs cp")
  case (Inl e)
  then show ?thesis by (simp add: write_file_def)
next
  case (Inr r)
  have wf: "wf_fs s" and rd: "real_dir (node_at s) (root_of rootfs)" and abs: "is_abs rootfs"
    using ok by (auto simp: root_ok_def)
  obtain d n where vd: "valid_names d" "valid_name n" and cl: "clear (node_at s) [] d"
    and host: "path_in_rootfs rootfs r = abs_path (d @ [n])" "path_dir (path_in_rootfs rootfs r) = abs_path d"
    and place: "r \<noteq> [slash] \<or> d @ [n] = root_of rootfs"
    using write_file_place [OF ok ne Inr] by metis
  obtain r1 s1 where m: "os_mkdir_all (abs_path d) 493 s = (r1, s1)" by (cases "os_mkdir_all (abs_path d) 493 s")
  note made = write_file_mkdir [OF ok cl vd(1) m]
  have t1: "tree_op s s1" using dirs_added_tree_op [OF made(1,2)] .
  have T: "tree_op s (snd (write_file rootfs cp data s))"
  proof (cases r1)
    case (Inl e)
    then show ?thesis using Inr m host t1 by (simp add: write_file_def)
  next
    case (Inr u)
    then have "real_dir (node_at s1) d" using made(3) by simp
    from atomic_write_file_op [OF this made(2) vd(2)]
    have "tree_op s1 (snd (atomic_write (abs_path (d @ [n])) data rootfs_write_options s1))"
      using file_op_tree_op by blast
    then have "tree_op s (snd (atomic_write (abs_path (d @ [n])) data rootfs_write_options s1))"
      by (rule tree_op_trans [OF t1])
    then show ?thesis
      using \<open>resolve_symlinks s rootfs cp = Inr r\<close> m host Inr
      by (auto simp: write_file_def split: prod.split sum.split)
  qed
  have C: "changes_only (write_area rootfs) s (snd (write_file rootfs cp data s))"
  proof (cases "r = [slash]")
    case False
    then have "resolve_symlinks s rootfs cp \<noteq> Inr [slash]" using Inr by simp
    then show ?thesis
      by (rule changes_only_mono [OF write_file_changes [OF ok]]) (auto simp: write_area_def)
  next
    case True
    then have dn: "d @ [n] = root_of rootfs" using place by simp
    have rdd: "real_dir (node_at s) d" using rd unfolding dn [symmetric] by (rule real_dir_prefix)
    have "{q. prefix q d \<and> node_at s q = None} = {}"
      using rdd by (auto simp: real_dir_def dest: is_dir_not_None)
    moreover have "changes_only {q. prefix q d \<and> node_at s q = None} s s1"
      using made(1) by (simp add: dirs_added_def)
    ultimately have c1: "changes_only {} s s1" by (simp only:)
    have dir1: "is_dir (node_at s1 (d @ [n]))"
      using rd t1 wf unfolding dn by (auto simp: real_dir_def tree_op_def)
    show ?thesis
    proof (cases r1)
      case (Inl e)
      then show ?thesis using Inr m host changes_only_mono [OF c1] by (simp add: write_file_def)
    next
      case (Inr u)
      then have rd1: "real_dir (node_at s1) d" using made(3) by simp
      have "changes_only (temps d) s1 (snd (atomic_write (abs_path (d @ [n])) data rootfs_write_options s1))"
        using atomic_write_file_op [OF rd1 made(2) vd(2)] dir1 by blast
      moreover have "changes_only (temps d) s s1" by (rule changes_only_mono [OF c1]) simp
      ultimately have "changes_only (temps d) s
          (snd (atomic_write (abs_path (d @ [n])) data rootfs_write_options s1))"
        using changes_only_trans by blast
      moreover have "temps d \<subseteq> write_area rootfs" unfolding write_area_def dn [symmetric] by simp
      ultimately have "changes_only (write_area rootfs) s
          (snd (atomic_write (abs_path (d @ [n])) data rootfs_write_options s1))"
        by (rule changes_only_mono)
      then show ?thesis
        using \<open>resolve_symlinks s rootfs cp = Inr r\<close> m host Inr
        by (auto simp: write_file_def split: prod.split sum.split)
    qed
  qed
  show ?thesis using C T ..
qed

lemma writable_bounds:
  assumes "root_ok s rootfs"
  shows "changes_only (write_area rootfs) s (snd (writable rootfs s)) \<and> tree_op s (snd (writable rootfs s))"
proof
  show "changes_only (write_area rootfs) s (snd (writable rootfs s))"
    by (rule changes_only_mono [OF writable_changes [OF assms]]) (auto simp: write_area_def)
  have v: "valid_name probe_name"
    by (simp add: valid_name_def probe_name_def dot_def dotdot_def slash_def)
  have abs: "is_abs rootfs" and rd: "real_dir (node_at s) (root_of rootfs)" and wf: "wf_fs s"
    using assms by (auto simp: root_ok_def)
  have probe: "path_join [rootfs, probe_name] = abs_path (root_of rootfs @ [probe_name])"
    using path_join_two [OF abs, of "[probe_name]"] v by (simp add: root_of_def)
  let ?p = "path_join [rootfs, probe_name]"
  obtain r s1 where c: "sys_create ?p 384 s = (r, s1)" by (cases "sys_create ?p 384 s")
  have f1: "file_op s s1" using sys_create_file_op [of s ?p 384] c by simp
  have "file_op s (snd (writable rootfs s))"
  proof (cases r)
    case (Inl e)
    then show ?thesis using c f1 by (simp add: writable_def)
  next
    case (Inr h)
    have w: "host_walk s False ?p = Inr (root_of rootfs @ [probe_name])"
      unfolding probe by (rule host_walk_entry [OF rd v])
    then have "\<not> is_dir (node_at s1 (root_of rootfs @ [probe_name]))"
      using c Inr by (auto simp: sys_create_def split: option.splits if_splits)
    moreover have "host_walk s1 False ?p = Inr (root_of rootfs @ [probe_name])"
      unfolding probe using tree_op_real_dir [OF file_op_tree_op [OF f1] wf rd] v by (rule host_walk_entry)
    ultimately have "file_op s1 (snd (sys_remove ?p s1))" by (intro sys_remove_file_op) simp
    then show ?thesis using c Inr file_op_trans [OF f1] by (simp add: writable_def)
  qed
  then show "tree_op s (snd (writable rootfs s))" by (rule file_op_tree_op)
qed

end
