(* ===== verification/Hook_Safety.thy ===== *)
theory Hook_Safety
  imports Hook File_Ops
begin

text \<open>
  The hook as a whole stays in its area of the host: below the rootfs, in the staging
  directory, and in the breadcrumb directory. The locale \<open>hook_processors\<close> states what the
  loop of the hook needs from the processors it runs; it is interpreted on the registered
  ones.
\<close>

section \<open>The area\<close>

definition stage_area :: "fpath \<Rightarrow> fpath set" where
  "stage_area D = temps D \<union> {D @ [merged_ca_file_name], D @ [staged_store_name]}"

definition crumb_area :: "fpath \<Rightarrow> fpath set" where
  "crumb_area B = {B @ [breadcrumb_started], B @ [breadcrumb_progress], B @ [breadcrumb_done]}"

definition hook_area :: "string \<Rightarrow> fpath \<Rightarrow> fpath \<Rightarrow> fpath set" where
  "hook_area rootfs D B = write_area rootfs \<union> stage_area D \<union> crumb_area B"

text \<open>The host as the plugin prepares it: the rootfs is a real directory, the staged CA bundle
  lies in the real directory \<open>D\<close>, and breadcrumbs are off or go to the real directory \<open>B\<close>,
  where no link stands in their place.\<close>

definition hook_ready :: "string \<Rightarrow> fpath \<Rightarrow> fpath \<Rightarrow> strmap \<Rightarrow> hctx \<Rightarrow> fs \<Rightarrow> bool" where
  "hook_ready rootfs D B penv ctx s =
     (root_ok s rootfs \<and> root_of rootfs \<noteq> [] \<and> cx_rootfs ctx = rootfs \<and>
      path_dir (cx_ca_file ctx) = abs_path D \<and> real_dir (node_at s) D \<and>
      (getenv penv env_breadcrumb_dir = [] \<or>
       getenv penv env_breadcrumb_dir = abs_path B \<and> real_dir (node_at s) B \<and>
       (\<forall>q \<in> crumb_area B. \<not> is_link (node_at s q))))"

lemma hook_ready_nodes:
  "node_at s' = node_at s \<Longrightarrow> hook_ready rootfs D B penv ctx s' = hook_ready rootfs D B penv ctx s"
  by (simp add: hook_ready_def root_ok_def wf_fs_def)

lemma hook_ready_step:
  assumes "hook_ready rootfs D B penv ctx s" and "tree_op s s'"
    and "cx_rootfs ctx' = cx_rootfs ctx" and "cx_ca_file ctx' = cx_ca_file ctx"
  shows "hook_ready rootfs D B penv ctx' s'"
proof -
  have wf: "wf_fs s" using assms(1) by (simp add: hook_ready_def root_ok_def)
  have "\<not> is_link (node_at s' q)" if "\<not> is_link (node_at s q)" for q
    using assms(2) wf that by (auto simp: tree_op_def)
  then show ?thesis
    using assms tree_op_root_ok [OF assms(2)] tree_op_real_dir [OF assms(2) wf]
    by (auto simp: hook_ready_def)
qed

section \<open>The contract of the processors\<close>

text \<open>
  \<open>procs\<close> are processors that, in a state that is \<open>ready\<close>, change nothing outside \<open>area\<close>
  and leave a ready state; so does the write of a breadcrumb.
\<close>

locale hook_processors =
  fixes procs :: "processor set"
    and ready :: "hctx \<Rightarrow> fs \<Rightarrow> bool"
    and area :: "fpath set"
    and penv :: strmap
  assumes apply_ok: "p \<in> procs \<Longrightarrow> ready ctx s \<Longrightarrow> p_apply p ctx s = (r, ctx', s') \<Longrightarrow>
      changes_only area s s' \<and> ready ctx' s'"
    and crumb_ok: "n \<in> {breadcrumb_started, breadcrumb_progress, breadcrumb_done} \<Longrightarrow> ready ctx s \<Longrightarrow>
      changes_only area s (breadcrumb penv n c s) \<and> ready ctx (breadcrumb penv n c s)"
    and result_ok: "ready ctx s \<Longrightarrow> ready (add_result x ctx) s"
begin

lemma run_detected_ok:
  assumes "dt_processor d \<in> procs" and "ready ctx s" and "run_detected penv d ctx s = (ctx', s')"
  shows "changes_only area s s' \<and> ready ctx' s'"
proof (cases "dr_applicable (dt_detect d)")
  case True
  define s1 where "s1 = breadcrumb penv breadcrumb_progress (p_name (dt_processor d)) s"
  have c1: "changes_only area s s1" "ready ctx s1" unfolding s1_def using crumb_ok assms(2) by simp_all
  obtain r ctx2 s2 where a: "p_apply (dt_processor d) ctx s1 = (r, ctx2, s2)"
    by (cases "p_apply (dt_processor d) ctx s1") auto
  have "changes_only area s1 s2" "ready ctx2 s2" using apply_ok [OF assms(1) c1(2) a] by auto
  moreover have "ctx' = add_result (applied_result d r) ctx2" "s' = s2"
    using assms(3) a True by (simp_all add: run_detected_def s1_def [symmetric])
  ultimately show ?thesis using changes_only_trans [OF c1(1)] result_ok by simp
next
  case False
  then show ?thesis using assms result_ok by (auto simp: run_detected_def)
qed

lemma run_loop_ok:
  "\<forall>d \<in> set ds. dt_processor d \<in> procs \<Longrightarrow> ready ctx s \<Longrightarrow> run_loop penv ds ctx s = (ctx', s') \<Longrightarrow>
   changes_only area s s' \<and> ready ctx' s'"
proof (induction ds arbitrary: ctx s)
  case (Cons d ds)
  obtain ctx1 s1 where r: "run_detected penv d ctx s = (ctx1, s1)" by (cases "run_detected penv d ctx s")
  have 1: "changes_only area s s1 \<and> ready ctx1 s1"
    using run_detected_ok [OF _ Cons.prems(2) r] Cons.prems(1) by simp
  moreover have "changes_only area s1 s' \<and> ready ctx' s'"
    using Cons.IH [of ctx1 s1] Cons.prems 1 r by simp
  ultimately show ?case using changes_only_trans by blast
qed simp

end

section \<open>The steps of the processors\<close>

lemma stage_file_ok:
  assumes D: "path_dir (cx_ca_file ctx) = abs_path D" and rd: "real_dir (node_at s) D" and wf: "wf_fs s"
    and n: "name = merged_ca_file_name \<or> name = staged_store_name"
  shows "changes_only (stage_area D) s (snd (stage_file ctx name data s)) \<and>
    tree_op s (snd (stage_file ctx name data s))"
proof -
  have v: "valid_name name"
    using n by (auto simp: valid_name_def merged_ca_file_name_def staged_store_name_def dot_def dotdot_def slash_def)
  have "clean_comps True [] (comps (abs_path D)) = D"
    using real_dir_names [OF rd] clean_comps_valid [of D True "[]"] by simp
  moreover have "is_abs (abs_path D)" by (simp add: abs_path_def is_abs_def)
  ultimately have target: "path_join [path_dir (cx_ca_file ctx), name] = abs_path (D @ [name])"
    using path_join_two [of "abs_path D" "[name]"] v D by simp
  define out where "out = atomic_write (abs_path (D @ [name])) data stage_options s"
  have "changes_only (stage_area D) s (snd out)" unfolding out_def
    by (rule changes_only_mono [OF atomic_write_changes [OF rd v]]) (use n in \<open>auto simp: stage_area_def\<close>)
  moreover have "tree_op s (snd out)"
    unfolding out_def using atomic_write_file_op [OF rd wf v] file_op_tree_op by blast
  ultimately show ?thesis
    by (auto simp: stage_file_def target out_def [symmetric] Let_def split: prod.split sum.split)
qed

lemma breadcrumb_only:
  assumes "hook_ready rootfs D B penv ctx s"
    and n: "n \<in> {breadcrumb_started, breadcrumb_progress, breadcrumb_done}"
  shows "changes_only {B @ [n]} s (breadcrumb penv n c s)"
proof (cases "getenv penv env_breadcrumb_dir = []")
  case False
  have v: "valid_name n"
    using n by (auto simp: valid_name_def config_defs dot_def dotdot_def slash_def)
  have B: "getenv penv env_breadcrumb_dir = abs_path B" "real_dir (node_at s) B"
    and nl: "\<forall>q \<in> crumb_area B. \<not> is_link (node_at s q)"
    using assms(1) False by (auto simp: hook_ready_def)
  have mem: "B @ [n] \<in> crumb_area B" using n by (auto simp: crumb_area_def)
  have "clean_comps True [] (comps (abs_path B)) = B"
    using real_dir_names [OF B(2)] clean_comps_valid [of B True "[]"] by simp
  moreover have "is_abs (abs_path B)" by (simp add: abs_path_def is_abs_def)
  ultimately have p: "path_join [abs_path B, n] = abs_path (B @ [n])"
    using path_join_two [of "abs_path B" "[n]"] v by simp
  have w: "host_walk s True (abs_path (B @ [n])) = Inr (B @ [n])"
    by (rule host_walk_not_link [OF B(2) v]) (use nl mem in blast)
  have "changes_only {B @ [n]} s (snd (os_write_file (abs_path (B @ [n])) c 384 s))"
    using w by (auto simp: os_write_file_def split: option.split node.split
        intro!: changes_only_trans [OF _ sys_write_changes] confine)
  then show ?thesis using False by (simp add: breadcrumb_def B(1) p)
qed (simp add: breadcrumb_def)

lemma breadcrumb_ok:
  assumes "hook_ready rootfs D B penv ctx s"
    and n: "n \<in> {breadcrumb_started, breadcrumb_progress, breadcrumb_done}"
  shows "changes_only (hook_area rootfs D B) s (breadcrumb penv n c s)"
    and "tree_op s (breadcrumb penv n c s)"
proof -
  show "tree_op s (breadcrumb penv n c s)"
    by (simp add: breadcrumb_def Let_def file_op_tree_op [OF os_write_file_file_op])
  show "changes_only (hook_area rootfs D B) s (breadcrumb penv n c s)"
    by (rule changes_only_mono [OF breadcrumb_only [OF assms]])
      (use n in \<open>auto simp: hook_area_def crumb_area_def\<close>)
qed

text \<open>A step of a processor in a ready state: the form every \<open>Apply\<close> method satisfies.\<close>

definition step_ok :: "string \<Rightarrow> fpath \<Rightarrow> unit step \<Rightarrow> bool" where
  "step_ok rootfs D f = (\<forall>ctx s r ctx' s'. root_ok s rootfs \<longrightarrow> root_of rootfs \<noteq> [] \<longrightarrow> cx_rootfs ctx = rootfs \<longrightarrow>
     path_dir (cx_ca_file ctx) = abs_path D \<longrightarrow> real_dir (node_at s) D \<longrightarrow> f ctx s = (r, ctx', s') \<longrightarrow>
     changes_only (write_area rootfs \<union> stage_area D) s s' \<and> tree_op s s' \<and>
     cx_rootfs ctx' = cx_rootfs ctx \<and> cx_ca_file ctx' = cx_ca_file ctx)"

text \<open>The same for an operation on the file system alone.\<close>

definition io_ok :: "string \<Rightarrow> fpath \<Rightarrow> fs \<Rightarrow> fs \<Rightarrow> bool" where
  "io_ok rootfs D s s' = (changes_only (write_area rootfs \<union> stage_area D) s s' \<and> tree_op s s')"

lemma io_ok_refl [simp]: "io_ok rootfs D s s"
  by (simp add: io_ok_def)

lemma io_ok_trans: "io_ok rootfs D s s' \<Longrightarrow> io_ok rootfs D s' s'' \<Longrightarrow> io_ok rootfs D s s''"
  unfolding io_ok_def using changes_only_trans tree_op_trans by blast

lemma io_ok_root: "io_ok rootfs D s s' \<Longrightarrow> root_ok s rootfs \<Longrightarrow> root_ok s' rootfs"
  unfolding io_ok_def using tree_op_root_ok by blast

lemma io_ok_dir: "io_ok rootfs D s s' \<Longrightarrow> root_ok s rootfs \<Longrightarrow> real_dir (node_at s) D \<Longrightarrow> real_dir (node_at s') D"
  unfolding io_ok_def root_ok_def using tree_op_real_dir by blast

lemma write_file_io_ok:
  "root_ok s rootfs \<Longrightarrow> root_of rootfs \<noteq> [] \<Longrightarrow> write_file rootfs cp data s = (r, s') \<Longrightarrow> io_ok rootfs D s s'"
  using write_file_bounds [of s rootfs cp data] changes_only_mono [of "write_area rootfs" s s']
  by (auto simp: io_ok_def)

lemma writable_io_ok: "root_ok s rootfs \<Longrightarrow> writable rootfs s = (r, s') \<Longrightarrow> io_ok rootfs D s s'"
  using writable_bounds [of s rootfs] changes_only_mono [of "write_area rootfs" s s']
  by (auto simp: io_ok_def)

lemma stage_file_io_ok:
  assumes "path_dir (cx_ca_file ctx) = abs_path D" and "real_dir (node_at s) D" and "root_ok s rootfs"
    and "name = merged_ca_file_name \<or> name = staged_store_name" and "stage_file ctx name data s = (r, s')"
  shows "io_ok rootfs D s s'"
  using stage_file_ok [OF assms(1,2) _ assms(4), of data] assms(3,5)
    changes_only_mono [of "stage_area D" s s'] by (auto simp: io_ok_def root_ok_def)

section \<open>The OS processors\<close>

lemma stage_merged_ca_io_ok:
  assumes "path_dir (cx_ca_file ctx) = abs_path D" and "real_dir (node_at s) D" and "root_ok s rootfs"
    and "stage_merged_ca C ctx store org s = (r, s')"
  shows "io_ok rootfs D s s'"
  using assms(4) stage_file_io_ok [OF assms(1-3)]
  by (auto simp: stage_merged_ca_def split: sum.splits if_splits)

lemma write_individual_ca_io_ok:
  assumes "root_ok s rootfs" and "root_of rootfs \<noteq> []" and "write_individual_ca rootfs anchor content s = (r, s')"
  shows "io_ok rootfs D s s'"
  using assms(3) write_file_io_ok [OF assms(1,2)]
  by (auto simp: write_individual_ca_def split: sum.splits if_splits prod.splits)

lemma os_write_store_io_ok:
  assumes ok: "root_ok s rootfs" and ne: "root_of rootfs \<noteq> []"
    and run: "os_write_store p rootfs target merged s = (r, s')"
  shows "io_ok rootfs D s s'"
proof (cases "mr_added merged = 0")
  case True
  then show ?thesis using run by (simp add: os_write_store_def)
next
  case False
  obtain r1 s1 where w: "write_file rootfs target (mr_merged merged) s = (r1, s1)"
    by (cases "write_file rootfs target (mr_merged merged) s")
  have 1: "io_ok rootfs D s s1" by (rule write_file_io_ok [OF ok ne w])
  obtain r2 s2 where w2: "write_file rootfs ''/etc/ssl/cert.pem'' (mr_merged merged) s1 = (r2, s2)"
    by (cases "write_file rootfs ''/etc/ssl/cert.pem'' (mr_merged merged) s1")
  have 2: "io_ok rootfs D s1 s2" by (rule write_file_io_ok [OF io_ok_root [OF 1 ok] ne w2])
  have "s' = s1 \<or> s' = s2"
    using run False w w2 by (auto simp: os_write_store_def split: sum.splits if_splits)
  then show ?thesis using 1 2 io_ok_trans by blast
qed

lemma os_record_facts_ctx [simp]:
  "cx_rootfs (os_record_facts p t i ctx) = cx_rootfs ctx" "cx_ca_file (os_record_facts p t i ctx) = cx_ca_file ctx"
  by (simp_all add: os_record_facts_def Let_def)

lemma os_apply_read_only_ok:
  assumes "path_dir (cx_ca_file ctx) = abs_path D" and "real_dir (node_at s) D" and "root_ok s rootfs"
    and run: "os_apply_read_only C p target org ctx s = (r, ctx', s')"
  shows "io_ok rootfs D s s' \<and> cx_rootfs ctx' = cx_rootfs ctx \<and> cx_ca_file ctx' = cx_ca_file ctx"
proof -
  define c2 where "c2 = set_fact fact_individual_ca_path (cx_ca_file ctx) (set_fact fact_distro (os_distro p)
    (set_fact fact_trust_store_path target (set_fact fact_rootfs_read_only ''true'' ctx)))"
  obtain r1 s1 where st: "stage_merged_ca C c2 target org s = (r1, s1)"
    by (cases "stage_merged_ca C c2 target org s")
  have c2: "cx_ca_file c2 = cx_ca_file ctx" "cx_rootfs c2 = cx_rootfs ctx" by (simp_all add: c2_def)
  have "io_ok rootfs D s s1"
    by (rule stage_merged_ca_io_ok [OF _ assms(2,3) st]) (use assms(1) c2 in simp)
  moreover have "(s' = s \<or> s' = s1) \<and> cx_rootfs ctx' = cx_rootfs ctx \<and> cx_ca_file ctx' = cx_ca_file ctx"
    using run st c2
    by (auto simp: os_apply_read_only_def Let_def c2_def [symmetric] split: if_splits sum.splits prod.splits)
  ultimately show ?thesis by auto
qed

lemma os_apply_in_place_ok:
  assumes ok: "root_ok s rootfs" and ne: "root_of rootfs \<noteq> []" and rt: "cx_rootfs ctx = rootfs"
    and run: "os_apply_in_place C p target org ctx s = (r, ctx', s')"
  shows "io_ok rootfs D s s' \<and> cx_rootfs ctx' = cx_rootfs ctx \<and> cx_ca_file ctx' = cx_ca_file ctx"
proof (cases "os_current_store s (cx_rootfs ctx) target")
  case (Inr current)
  show ?thesis
  proof (cases "merge_pem C current org")
    case (Inr merged)
    obtain r1 s1 where w: "os_write_store p rootfs target merged s = (r1, s1)"
      by (cases "os_write_store p rootfs target merged s")
    have 1: "io_ok rootfs D s s1" by (rule os_write_store_io_ok [OF ok ne w])
    obtain r2 s2 where i: "write_individual_ca rootfs (os_anchor_dir p) org s1 = (r2, s2)"
      by (cases "write_individual_ca rootfs (os_anchor_dir p) org s1")
    have 2: "io_ok rootfs D s1 s2" by (rule write_individual_ca_io_ok [OF io_ok_root [OF 1 ok] ne i])
    have "(s' = s1 \<or> s' = s2) \<and> cx_rootfs ctx' = cx_rootfs ctx \<and> cx_ca_file ctx' = cx_ca_file ctx"
      using run rt \<open>os_current_store s (cx_rootfs ctx) target = Inr current\<close> Inr w i
      by (auto simp: os_apply_in_place_def split: sum.splits)
    then show ?thesis using 1 2 io_ok_trans by blast
  qed (use run Inr in \<open>simp add: os_apply_in_place_def\<close>)
qed (use run in \<open>simp add: os_apply_in_place_def\<close>)

lemma os_apply_ok: "step_ok rootfs D (os_apply C p)"
  unfolding step_ok_def
proof (intro allI impI)
  fix ctx s r ctx' s'
  assume ok: "root_ok s rootfs" and ne: "root_of rootfs \<noteq> []" and rt: "cx_rootfs ctx = rootfs"
    and D: "path_dir (cx_ca_file ctx) = abs_path D" "real_dir (node_at s) D"
    and run: "os_apply C p ctx s = (r, ctx', s')"
  obtain w s1 where w: "writable rootfs s = (w, s1)" by (cases "writable rootfs s")
  have 1: "io_ok rootfs D s s1" by (rule writable_io_ok [OF ok w])
  note ok1 = io_ok_root [OF 1 ok] and D1 = io_ok_dir [OF 1 ok D(2)]
  consider "s' = s" "ctx' = ctx"
    | target org where "os_apply_read_only C p target org ctx s1 = (r, ctx', s')"
    | target org where "os_apply_in_place C p target org ctx s1 = (r, ctx', s')"
    using run rt w by (auto simp: os_apply_def split: if_splits sum.splits bool.splits)
  then have "io_ok rootfs D s s' \<and> cx_rootfs ctx' = cx_rootfs ctx \<and> cx_ca_file ctx' = cx_ca_file ctx"
  proof cases
    case 2
    from os_apply_read_only_ok [OF D(1) D1 ok1 this] show ?thesis using io_ok_trans [OF 1] by blast
  next
    case 3
    from os_apply_in_place_ok [OF ok1 ne rt this] show ?thesis using io_ok_trans [OF 1] by blast
  qed simp
  then show "changes_only (write_area rootfs \<union> stage_area D) s s' \<and> tree_op s s' \<and>
      cx_rootfs ctx' = cx_rootfs ctx \<and> cx_ca_file ctx' = cx_ca_file ctx"
    by (simp add: io_ok_def)
qed

end
