(* ===== verification/Wrapper.thy ===== *)
theory Wrapper
  imports Hook_Context Registry
begin

text \<open>
  \<open>internal/runtime/wrapper/run.go\<close>: the entrypoint inside the container. It reads the state
  the hook left, lets the processors set their variables, and replaces itself with the
  container's command. \<open>exec\<close> is the system call: \<open>None\<close> when the process image was replaced.
\<close>

text \<open>The process the wrapper runs in: its arguments, environment, and what the operating
  system answers to path lookups and \<open>exec\<close>.\<close>

record process =
  pr_args :: "string list"
  pr_environ :: "string list"
  pr_look_path :: "string \<Rightarrow> string res"
  pr_exec :: "string \<Rightarrow> string list \<Rightarrow> string list \<Rightarrow> goerr option"

datatype wrapper_end = Replaced string "string list" "string list" | Failed goerr

definition contains_rune :: "string \<Rightarrow> char \<Rightarrow> bool" where
  "contains_rune s c = (c \<in> set s)"

text \<open>The last steps of \<open>Run\<close>, shared with \<open>execOriginal\<close>: resolve the command and exec it.\<close>

definition resolve_command :: "process \<Rightarrow> string res" where
  "resolve_command P =
     (let argv0 = pr_args P ! 1 in
      if \<not> contains_rune argv0 slash
      then (case pr_look_path P argv0 of
          Inl e \<Rightarrow> Inl (Wrapped ''failed to resolve command'' e) | Inr r \<Rightarrow> Inr r)
      else Inr argv0)"

definition exec_with :: "process \<Rightarrow> string list \<Rightarrow> wrapper_end" where
  "exec_with P env =
     (case resolve_command P of
        Inl e \<Rightarrow> Failed e
      | Inr argv0 \<Rightarrow> (case pr_exec P argv0 (tl (pr_args P)) env of
            Some e \<Rightarrow> Failed (Wrapped ''exec failed'' e)
          | None \<Rightarrow> Replaced argv0 (tl (pr_args P)) env))"

definition exec_original :: "process \<Rightarrow> wrapper_end" where
  "exec_original P = exec_with P (pr_environ P)"

text \<open>\<open>os.Setenv\<close>: it fails on an empty name and on a NUL byte.\<close>

definition os_setenv :: "string \<Rightarrow> string \<Rightarrow> string list \<Rightarrow> string list res" where
  "os_setenv k v env =
     (if k = [] \<or> CHR ''='' \<in> set k \<or> CHR 0x00 \<in> set k \<or> CHR 0x00 \<in> set v
      then Inl (Msg ''setenv: invalid argument'') else Inr (upsert env k v))"

text \<open>\<open>applyContextEnv\<close>; the second argument is the environment of the process. The result is the
  error and the environment of the process after the call: the variables that were set before
  an error stay set.\<close>

fun apply_context_env :: "string list \<Rightarrow> string list \<Rightarrow> goerr option \<times> string list" where
  "apply_context_env [] environ = (None, environ)"
| "apply_context_env (e # es) environ =
     (case cut (CHR ''='') e of
        None \<Rightarrow> apply_context_env es environ
      | Some (k, v) \<Rightarrow>
          if trim_space k = [] then apply_context_env es environ
          else (case os_setenv k v environ of
              Inl err \<Rightarrow> (Some (Wrapped ''failed to apply env'' err), environ)
            | Inr environ' \<Rightarrow> apply_context_env es environ'))"

text \<open>The loop over the detected processors. An error leaves the context as the processor
  left it and the loop goes on.\<close>

definition wrap_one :: "registry \<Rightarrow> detected_processor \<Rightarrow> hctx \<Rightarrow> hctx" where
  "wrap_one rg d ctx =
     (if \<not> dp_applicable d then ctx
      else (case by_name rg (dp_name d) of
          None \<Rightarrow> ctx
        | Some p \<Rightarrow> (case p_apply_wrapper p of None \<Rightarrow> ctx | Some w \<Rightarrow> snd (w ctx))))"

definition wrapper_context :: "registry \<Rightarrow> hook_state \<Rightarrow> string list \<Rightarrow> hctx" where
  "wrapper_context rg st environ =
     fold (wrap_one rg) (hs_detected st) ((to_hook_context st)\<lparr>cx_env := environ\<rparr>)"

definition wrapper_run :: "codec \<Rightarrow> registry \<Rightarrow> strmap \<Rightarrow> process \<Rightarrow> fs \<Rightarrow> wrapper_end" where
  "wrapper_run J rg penv P s =
     (if length (pr_args P) < 2 then Failed (Msg ''wrapper requires original command in argv[1:]'')
      else
       (case hook_read J penv s of
          Inl e \<Rightarrow> exec_original P
        | Inr st \<Rightarrow>
           (let ctx = wrapper_context rg st (pr_environ P) in
            (case apply_context_env (cx_env ctx) (pr_environ P) of
               (Some e, environ) \<Rightarrow> exec_original (P\<lparr>pr_environ := environ\<rparr>)
             | (None, env) \<Rightarrow> exec_with P env))))"

end
