(* ===== verification/Wrapper_Correct.thy ===== *)
theory Wrapper_Correct
  imports Wrapper Sample_Fs Certs_Correct
begin

text \<open>
  The promises of the wrapper: it always runs the container's own command with its own
  arguments, and of the environment it touches the four CA variables only.
\<close>

section \<open>Environments\<close>

definition ca_variables :: "string list" where
  "ca_variables = [env_ssl_cert_file, env_requests_ca_bundle, env_node_extra_ca_certs, env_java_tool_options]"

lemma ca_variables_keys: "k \<in> set ca_variables \<Longrightarrow> env_key k"
  by (auto simp: ca_variables_def env_java_tool_options_def env_key_def env_ssl_cert_file_def
      env_requests_ca_bundle_def env_node_extra_ca_certs_def)

section \<open>Names bound in an environment\<close>

fun env_keys :: "string list \<Rightarrow> string list" where
  "env_keys [] = []"
| "env_keys (e # es) = (case cut (CHR ''='') e of None \<Rightarrow> env_keys es | Some (k, v) \<Rightarrow> k # env_keys es)"

lemma has_prefix_key:
  assumes "env_key k"
  shows "has_prefix e (k @ ''='') \<longleftrightarrow> (\<exists>v. cut (CHR ''='') e = Some (k, v))"
  using assms by (auto simp: has_prefix_prefix prefix_def cut_Some env_key_def)

lemma env_keys_key: "k \<in> set (env_keys es) \<Longrightarrow> env_key k"
  by (induction es) (auto simp: cut_Some env_key_def split: option.splits)

lemma cut_env_entry: "env_key k \<Longrightarrow> cut (CHR ''='') (env_entry k v) = Some (k, v)"
  by (simp add: cut_Some env_entry_def env_key_def)

lemma env_keys_upsert:
  assumes "env_key k"
  shows "env_keys (upsert es k v) = (if k \<in> set (env_keys es) then env_keys es else env_keys es @ [k])"
proof (induction es)
  case (Cons e es)
  then show ?case
    using has_prefix_key [OF assms, of e] by (auto simp: cut_env_entry [OF assms] split: option.splits)
qed (simp add: cut_env_entry [OF assms])

lemma get_value_unbound: "env_key k \<Longrightarrow> k \<notin> set (env_keys es) \<Longrightarrow> get_value es k = []"
  by (induction es) (auto simp: has_prefix_key split: option.splits)

text \<open>One entry: what \<open>os.Setenv\<close> does to the variables.\<close>

lemma os_setenv_Inr: "os_setenv k v env = Inr env' \<Longrightarrow> env' = upsert env k v"
  by (simp add: os_setenv_def split: if_splits)

lemma get_value_entry:
  assumes "cut (CHR ''='') e = Some (k', v)" and "env_key k"
  shows "get_value (e # es) k = (if k' = k then v else get_value es k)"
proof (cases "k' = k")
  case True
  have "e = env_entry k' v" using assms(1) by (simp add: cut_Some env_entry_def)
  then show ?thesis using True by simp
next
  case False
  then show ?thesis using has_prefix_key [OF assms(2), of e] assms(1) by auto
qed

lemma apply_context_env_unbound:
  "env_key k \<Longrightarrow> k \<notin> set (env_keys es) \<Longrightarrow> get_value (snd (apply_context_env es env0)) k = get_value env0 k"
proof (induction es env0 rule: apply_context_env.induct)
  case (2 e es env0)
  show ?case
  proof (cases "cut (CHR ''='') e")
    case (Some kv)
    then obtain k' v where kv: "cut (CHR ''='') e = Some (k', v)" by (cases kv) auto
    then have k': "env_key k'" by (auto simp: cut_Some env_key_def)
    have ne: "k' \<noteq> k" "k \<notin> set (env_keys es)" using 2(5) kv by auto
    show ?thesis
    proof (cases "trim_space k' = []")
      case False
      show ?thesis
      proof (cases "os_setenv k' v env0")
        case (Inr env')
        then show ?thesis
          using 2(3) [OF kv refl False Inr 2(4) ne(2)] kv False os_setenv_Inr [OF Inr]
            env_slice.get_put_other [OF k' 2(4) ne(1)] by simp
      qed (use kv False in simp)
    qed (use 2 kv ne in simp)
  qed (use 2 in simp)
qed simp

text \<open>Whether or not an error stops it, a variable has its value of the context or its old one.\<close>

lemma apply_context_env_either:
  "distinct (env_keys es) \<Longrightarrow> env_key k \<Longrightarrow>
   get_value (snd (apply_context_env es env0)) k \<in> {get_value es k, get_value env0 k}"
proof (induction es env0 rule: apply_context_env.induct)
  case (2 e es env0)
  show ?case
  proof (cases "cut (CHR ''='') e")
    case None
    then show ?thesis using 2 has_prefix_key [OF 2(5), of e] by simp
  next
    case (Some kv)
    then obtain k' v where kv: "cut (CHR ''='') e = Some (k', v)" by (cases kv) auto
    then have k': "env_key k'" by (auto simp: cut_Some env_key_def)
    note gv = get_value_entry [OF kv 2(5), of es]
    have d: "distinct (env_keys es)" "k' \<notin> set (env_keys es)" using 2(4) kv by simp_all
    have skip: "get_value env1 k \<in> {get_value (e # es) k, get_value env0 k}"
      if "env1 = snd (apply_context_env es env0)" "get_value env1 k \<in> {get_value es k, get_value env0 k}" for env1
      using that gv apply_context_env_unbound [OF 2(5), of es env0] d(2) by (cases "k' = k") auto
    show ?thesis
    proof (cases "trim_space k' = []")
      case True
      then show ?thesis using skip [OF refl 2(2) [OF kv refl True d(1) 2(5)]] kv by simp
    next
      case False
      show ?thesis
      proof (cases "os_setenv k' v env0")
        case (Inr env')
        note env' = os_setenv_Inr [OF Inr]
        show ?thesis
        proof (cases "k' = k")
          case True
          then have "get_value (snd (apply_context_env es env')) k = v"
            using apply_context_env_unbound [OF 2(5), of es env'] d(2) env' by (simp add: get_upsert_same)
          then show ?thesis using kv False Inr True gv by simp
        next
          case ne: False
          then show ?thesis
            using 2(3) [OF kv refl False Inr d(1) 2(5)] kv False Inr gv env'
              env_slice.get_put_other [OF k' 2(5) ne] by simp
        qed
      qed (use kv False in simp)
    qed
  qed
qed simp

lemma apply_context_env_bound:
  "apply_context_env es env0 = (None, env1) \<Longrightarrow> distinct (env_keys es) \<Longrightarrow> k \<in> set (env_keys es) \<Longrightarrow>
   trim_space k \<noteq> [] \<Longrightarrow> get_value env1 k = get_value es k"
proof (induction es env0 rule: apply_context_env.induct)
  case (2 e es env0)
  have key: "env_key k" using env_keys_key [OF 2(6)] .
  show ?case
  proof (cases "cut (CHR ''='') e")
    case None
    then show ?thesis using 2 has_prefix_key [OF key, of e] by simp
  next
    case (Some kv)
    then obtain k' v where kv: "cut (CHR ''='') e = Some (k', v)" by (cases kv) auto
    note gv = get_value_entry [OF kv key, of es]
    have d: "distinct (env_keys es)" "k' \<notin> set (env_keys es)" using 2(5) kv by simp_all
    show ?thesis
    proof (cases "k' = k")
      case True
      then obtain env' where env': "os_setenv k v env0 = Inr env'" "apply_context_env es env' = (None, env1)"
        using 2(4,7) kv by (auto split: sum.splits)
      have "get_value env1 k = get_value env' k"
        using apply_context_env_unbound [OF key, of es env'] d(2) True env'(2) by simp
      then show ?thesis using gv True os_setenv_Inr [OF env'(1)] by (simp add: get_upsert_same)
    next
      case False
      then have mem: "k \<in> set (env_keys es)" using 2(6) kv by auto
      show ?thesis
      proof (cases "trim_space k' = []")
        case True
        then show ?thesis using 2(2) [OF kv refl True _ d(1) mem 2(7)] 2(4) kv gv False by simp
      next
        case nb: False
        then obtain env' where env': "os_setenv k' v env0 = Inr env'" "apply_context_env es env' = (None, env1)"
          using 2(4) kv by (auto split: sum.splits)
        show ?thesis using 2(3) [OF kv refl nb env'(1) env'(2) d(1) mem 2(7)] gv False by simp
      qed
    qed
  qed
qed simp

section \<open>The wrapper methods\<close>

text \<open>A wrapper method leaves every variable alone that is not one of the four, only ever
  extends \<open>JAVA_TOOL_OPTIONS\<close>, and binds no name twice.\<close>

definition env_safe :: "string list \<Rightarrow> string list \<Rightarrow> bool" where
  "env_safe env env' \<longleftrightarrow>
     (\<forall>k. env_key k \<longrightarrow> k \<notin> set ca_variables \<longrightarrow> get_value env' k = get_value env k) \<and>
     prefix (get_value env env_java_tool_options) (get_value env' env_java_tool_options) \<and>
     (distinct (env_keys env) \<longrightarrow> distinct (env_keys env')) \<and>
     set (env_keys env) \<subseteq> set (env_keys env')"

lemma env_safe_refl [simp]: "env_safe env env"
  by (simp add: env_safe_def)

lemma env_safe_trans: "env_safe e1 e2 \<Longrightarrow> env_safe e2 e3 \<Longrightarrow> env_safe e1 e3"
  unfolding env_safe_def by (auto intro: prefix_order.trans)

lemma java_key [simp]: "env_key env_java_tool_options"
  by (simp add: env_key_def env_java_tool_options_def)

lemma env_safe_upsert:
  assumes "k \<in> set ca_variables"
    and "k = env_java_tool_options \<Longrightarrow> prefix (get_value env k) v"
  shows "env_safe env (upsert env k v)"
proof -
  have key: "env_key k" using assms(1) by (rule ca_variables_keys)
  have "prefix (get_value env env_java_tool_options) (get_value (upsert env k v) env_java_tool_options)"
  proof (cases "k = env_java_tool_options")
    case True
    then show ?thesis using assms(2) by (simp add: get_upsert_same)
  next
    case False
    then show ?thesis using env_slice.get_put_other [OF key java_key] by simp
  qed
  then show ?thesis
    using assms(1) env_slice.get_put_other [OF key] env_keys_upsert [OF key]
    by (auto simp: env_safe_def)
qed

lemma wrapper_methods_safe:
  "env_safe (cx_env ctx) (cx_env (snd (ssl_cert_file_wrapper ctx)))"
  "env_safe (cx_env ctx) (cx_env (snd (python_apply_wrapper ctx)))"
  "env_safe (cx_env ctx) (cx_env (snd (nodejs_apply_wrapper ctx)))"
  "env_safe (cx_env ctx) (cx_env (snd (java_apply_wrapper ctx)))"
proof -
  have ca: "env_ssl_cert_file \<in> set ca_variables" "env_requests_ca_bundle \<in> set ca_variables"
    "env_node_extra_ca_certs \<in> set ca_variables" "env_java_tool_options \<in> set ca_variables"
    by (simp_all add: ca_variables_def)
  have ne: "env_ssl_cert_file \<noteq> env_java_tool_options" "env_requests_ca_bundle \<noteq> env_java_tool_options"
    "env_node_extra_ca_certs \<noteq> env_java_tool_options"
    by (simp_all add: env_ssl_cert_file_def env_requests_ca_bundle_def env_node_extra_ca_certs_def
        env_java_tool_options_def)
  note up = env_safe_upsert [OF ca(1)] env_safe_upsert [OF ca(2)] env_safe_upsert [OF ca(3)]
  show "env_safe (cx_env ctx) (cx_env (snd (ssl_cert_file_wrapper ctx)))"
    using up(1) ne(1) by (simp add: ssl_cert_file_wrapper_def Let_def)
  show "env_safe (cx_env ctx) (cx_env (snd (nodejs_apply_wrapper ctx)))"
    using up(3) ne(3) by (simp add: nodejs_apply_wrapper_def Let_def split: option.split)
  show "env_safe (cx_env ctx) (cx_env (snd (python_apply_wrapper ctx)))"
    using env_safe_trans [OF up(1) up(2)] ne(1,2) by (simp add: python_apply_wrapper_def Let_def)
  have "env_safe (cx_env ctx) (upsert (cx_env ctx) env_java_tool_options
      (if get_value (cx_env ctx) env_java_tool_options \<noteq> []
       then get_value (cx_env ctx) env_java_tool_options @ '' '' @ fl else fl))" for fl
    by (rule env_safe_upsert [OF ca(4)]) simp
  then show "env_safe (cx_env ctx) (cx_env (snd (java_apply_wrapper ctx)))"
    by (simp add: java_apply_wrapper_def Let_def split: option.split)
qed

text \<open>The registry of the program.\<close>

definition default_registry :: "packages \<Rightarrow> registry \<Rightarrow> bool" where
  "default_registry C rg = (register_all (all_processors C) empty_registry = Inr rg)"

lemma default_registry_by_name:
  assumes "default_registry C rg" and "by_name rg n = Some p"
  shows "p \<in> set (all_processors C)"
  using register_all_Inr [OF assms(1) [unfolded default_registry_def] empty_registry_ok]
    by_name_registered [OF _ assms(2)] by (simp add: empty_registry_def)

lemma all_wrappers_safe:
  assumes "p \<in> set (all_processors C)" and "p_apply_wrapper p = Some w"
  shows "env_safe (cx_env ctx) (cx_env (snd (w ctx)))"
  using assms wrapper_methods_safe
  by (auto simp: all_processors_def os_value_def new_dotnet_def new_golang_def new_java_def
      new_nodejs_def new_python_def new_ruby_def)

lemma wrap_one_safe:
  assumes "default_registry C rg"
  shows "env_safe (cx_env ctx) (cx_env (wrap_one rg d ctx))"
proof (cases "by_name rg (dp_name d)")
  case (Some p)
  then have p: "p \<in> set (all_processors C)" by (rule default_registry_by_name [OF assms])
  show ?thesis
    using all_wrappers_safe [OF p] Some by (cases "p_apply_wrapper p") (simp_all add: wrap_one_def)
qed (simp add: wrap_one_def)

lemma wrap_fold_safe:
  assumes "default_registry C rg"
  shows "env_safe (cx_env ctx) (cx_env (fold (wrap_one rg) ds ctx))"
proof (induction ds arbitrary: ctx)
  case (Cons d ds)
  show ?case using env_safe_trans [OF wrap_one_safe [OF assms] Cons.IH] by simp
qed simp

lemma wrapper_env:
  assumes rg: "default_registry C rg" and d: "distinct (env_keys environ)"
    and run: "apply_context_env (cx_env (wrapper_context rg st environ)) environ = (err, env)"
  shows "\<And>k. env_key k \<Longrightarrow> k \<notin> set ca_variables \<Longrightarrow> get_value env k = get_value environ k"
    and "prefix (get_value environ env_java_tool_options) (get_value env env_java_tool_options)"
    and "\<And>k. err = None \<Longrightarrow> k \<in> set (env_keys (cx_env (wrapper_context rg st environ))) \<Longrightarrow> trim_space k \<noteq> [] \<Longrightarrow>
      get_value env k = get_value (cx_env (wrapper_context rg st environ)) k"
proof -
  let ?ctx = "wrapper_context rg st environ"
  have safe: "env_safe environ (cx_env ?ctx)"
    using wrap_fold_safe [OF rg, of "(to_hook_context st)\<lparr>cx_env := environ\<rparr>"]
    by (simp add: wrapper_context_def)
  then have d': "distinct (env_keys (cx_env ?ctx))" using d by (simp add: env_safe_def)
  have either: "get_value env k \<in> {get_value (cx_env ?ctx) k, get_value environ k}" if "env_key k" for k
    using apply_context_env_either [OF d' that, of environ] run by simp
  show "get_value env k = get_value environ k" if "env_key k" "k \<notin> set ca_variables" for k
    using either [OF that(1)] safe that by (auto simp: env_safe_def)
  show "prefix (get_value environ env_java_tool_options) (get_value env env_java_tool_options)"
    using either [OF java_key] safe by (auto simp: env_safe_def)
  show "get_value env k = get_value (cx_env ?ctx) k"
    if "err = None" "k \<in> set (env_keys (cx_env ?ctx))" "trim_space k \<noteq> []" for k
    using apply_context_env_bound [OF _ d' that(2,3)] run that(1) by simp
qed

section \<open>Claims\<close>

text \<open>The environment of the process has no part in resolving and running the command.\<close>

lemma exec_with_environ: "exec_with (P\<lparr>pr_environ := environ\<rparr>) env = exec_with P env"
  by (simp add: exec_with_def resolve_command_def Let_def split: sum.split option.split)

lemma wrapper_runs_command:
  assumes "length (pr_args P) \<ge> 2" and "resolve_command P = Inr argv0"
    and "\<And>env. pr_exec P argv0 (tl (pr_args P)) env = None"
  shows "\<exists>env. wrapper_run J rg penv P s = Replaced argv0 (tl (pr_args P)) env"
proof -
  have "exec_with P env = Replaced argv0 (tl (pr_args P)) env" for env
    using assms(2,3) by (simp add: exec_with_def)
  then show ?thesis using assms(1)
    by (auto simp: wrapper_run_def exec_original_def exec_with_environ Let_def split: sum.split prod.split option.split)
qed

text \<open>
  C12: whatever state file the wrapper finds, if it replaces itself then by the container's
  own command with the container's own arguments; every variable other than the four CA
  variables has the value it had, and \<open>JAVA_TOOL_OPTIONS\<close> still starts with the options the
  container had set. This holds too where \<open>os.Setenv\<close> fails half-way and the command gets an
  environment in which only some of the variables were set.
\<close>

theorem wrapper_preserves_command:
  assumes "register_all (all_processors C) empty_registry = Inr rg"
    and "distinct (env_keys (pr_environ P))"
    and "wrapper_run J rg penv P s = Replaced argv0 args env"
  shows "resolve_command P = Inr argv0 \<and> args = tl (pr_args P) \<and>
    (\<forall>k. env_key k \<longrightarrow> k \<notin> set ca_variables \<longrightarrow> get_value env k = get_value (pr_environ P) k) \<and>
    prefix (get_value (pr_environ P) env_java_tool_options) (get_value env env_java_tool_options)"
proof -
  have rg: "default_registry C rg" using assms(1) by (simp add: default_registry_def)
  have ex: "resolve_command P = Inr argv0 \<and> args = tl (pr_args P) \<and> env = e"
    if "exec_with P e = Replaced argv0 args env" for e
    using that by (auto simp: exec_with_def split: sum.splits option.splits)
  from assms(3) consider "exec_with P (pr_environ P) = Replaced argv0 args env"
    | st err e where "apply_context_env (cx_env (wrapper_context rg st (pr_environ P))) (pr_environ P) = (err, e)"
        "exec_with P e = Replaced argv0 args env"
    by (auto simp: wrapper_run_def exec_original_def exec_with_environ Let_def split: if_splits sum.splits option.splits prod.splits)
  then show ?thesis
  proof cases
    case 1
    then show ?thesis using ex by auto
  next
    case 2
    have "env = e" using ex [OF 2(2)] by simp
    then show ?thesis using ex [OF 2(2)] wrapper_env(1,2) [OF rg assms(2) 2(1)] by blast
  qed
qed

definition sample_process :: process where
  "sample_process = \<lparr>pr_args = [''cainjekt'', ''/app'', ''-v''],
     pr_environ = [''PATH=/bin'', ''JAVA_TOOL_OPTIONS=-Xmx1g''],
     pr_look_path = (\<lambda>n. Inr (''/bin/'' @ n)), pr_exec = (\<lambda>a as e. None)\<rparr>"

definition sample_state :: hook_state where
  "sample_state = \<lparr>hs_context = \<lparr>pc_mode = [], pc_bundle = [], pc_annotations = [], pc_ca_file = [],
      pc_fail_policy = [], pc_facts = [(fact_merged_ca_path, ''/m.pem''), (fact_java_trust_store_path, ''/j'')]\<rparr>,
     hs_detected = [\<lparr>dp_name = ''lang-go'', dp_category = ''language'', dp_applicable = True, dp_priority = 100, dp_reason = []\<rparr>,
       \<lparr>dp_name = ''lang-java'', dp_category = ''language'', dp_applicable = True, dp_priority = 100, dp_reason = []\<rparr>]\<rparr>"

definition sample_codec :: codec where
  "sample_codec = \<lparr>enc_state = (\<lambda>st. Inr ''state''), dec_state = (\<lambda>b. Inr sample_state),
     enc_status = (\<lambda>st. Inr ''status''),
     dec_oci_state = (\<lambda>b. Inr \<lparr>oci_version = ''1.0'', oci_id = ''c1'', oci_status = ''created'', oci_pid = 1,
        oci_bundle = ''/b'', oci_annotations = None\<rparr>),
     dec_oci_spec = (\<lambda>b. Inr \<lparr>spec_root_path = Some ''/r'', spec_process_env = None\<rparr>),
     fmt_time = (\<lambda>t. ''now'')\<rparr>"

text \<open>The container's file system, with the state file in place.\<close>

definition sample_container :: fs where
  "sample_container = fs_of [([], dir_node), ([''etc''], dir_node), ([''etc'', ''cainjekt''], dir_node),
     ([''etc'', ''cainjekt'', ''hook-context.json''], file_node ''state'')]"

definition sample_registry :: registry where
  "sample_registry = (case register_all (all_processors toy_crypto) empty_registry of
     Inr rg \<Rightarrow> rg | Inl _ \<Rightarrow> empty_registry)"

lemma sample_registry_ok: "register_all (all_processors toy_crypto) empty_registry = Inr sample_registry"
  using register_all_default [of toy_crypto] by (auto simp: sample_registry_def)

lemma sample_wrapper_run:
  "wrapper_run sample_codec sample_registry [] sample_process sample_container =
     Replaced ''/app'' [''/app'', ''-v''] [''PATH=/bin'',
       ''JAVA_TOOL_OPTIONS=-Xmx1g -Djavax.net.ssl.trustStore=/j -Djavax.net.ssl.trustStoreType=JKS'',
       ''SSL_CERT_FILE=/m.pem'']"
  by code_simp

theorem wrapper_preserves_command_witness:
  "\<exists>argv0 args env. wrapper_run sample_codec sample_registry [] sample_process sample_container =
       Replaced argv0 args env \<and> args = [''/app'', ''-v''] \<and> get_value env ''PATH'' = ''/bin'' \<and>
     prefix ''-Xmx1g'' (get_value env env_java_tool_options)"
proof -
  have d: "distinct (env_keys (pr_environ sample_process))" by code_simp
  have v: "get_value (pr_environ sample_process) ''PATH'' = ''/bin''"
    "get_value (pr_environ sample_process) env_java_tool_options = ''-Xmx1g''" "tl (pr_args sample_process) = [''/app'', ''-v'']"
    "env_key ''PATH''" by code_simp+
  have "''PATH'' \<notin> set ca_variables"
    by (simp add: ca_variables_def env_ssl_cert_file_def env_requests_ca_bundle_def
        env_node_extra_ca_certs_def env_java_tool_options_def)
  then show ?thesis
    using wrapper_preserves_command [OF sample_registry_ok d sample_wrapper_run] v sample_wrapper_run by metis
qed

text \<open>
  C13: the wrapper fails open. With a command given, a command that resolves and an exec that
  works, the container's command runs whatever the state file holds, readable or not, and
  whatever the processors do.
\<close>

theorem wrapper_fails_open:
  assumes "length (pr_args P) \<ge> 2" and "resolve_command P = Inr argv0"
    and "\<And>env. pr_exec P argv0 (tl (pr_args P)) env = None"
  shows "\<exists>env. wrapper_run J rg penv P s = Replaced argv0 (tl (pr_args P)) env"
  by (rule wrapper_runs_command [OF assms])

theorem wrapper_fails_open_witness:
  "\<exists>env. wrapper_run sample_codec empty_registry [] sample_process (fs_of []) =
     Replaced ''/app'' (tl (pr_args sample_process)) env"
proof (rule wrapper_fails_open)
  show "2 \<le> length (pr_args sample_process)" "resolve_command sample_process = Inr ''/app''" by code_simp+
qed (simp add: sample_process_def)

end
