(* ===== verification/Hook_Correct.thy ===== *)
theory Hook_Correct
  imports Hook_Safety Wrapper_Correct
begin

text \<open>
  The promises of the hook, proved for the processors the program registers.
\<close>

section \<open>The Java processor\<close>

lemma patch_store_io_ok:
  assumes "root_ok s rootfs" and "root_of rootfs \<noteq> []" and "patch_store C rootfs orgs store ps s = (ps', s')"
  shows "io_ok rootfs D s s'"
  using assms(3) write_file_io_ok [OF assms(1,2)]
  by (auto simp: patch_store_def split: sum.splits option.splits prod.splits)

lemma patch_stores_io_ok:
  "root_ok s rootfs \<Longrightarrow> root_of rootfs \<noteq> [] \<Longrightarrow> patch_stores C rootfs orgs stores ps s = (ps', s') \<Longrightarrow>
   io_ok rootfs D s s'"
proof (induction stores arbitrary: ps s)
  case (Cons store stores)
  obtain ps1 s1 where p: "patch_store C rootfs orgs store ps s = (ps1, s1)"
    by (cases "patch_store C rootfs orgs store ps s")
  have 1: "io_ok rootfs D s s1" by (rule patch_store_io_ok [OF Cons.prems(1,2) p])
  have "io_ok rootfs D s1 s'"
    using Cons.IH [OF io_ok_root [OF 1 Cons.prems(1)] Cons.prems(2)] Cons.prems(3) p by simp
  with 1 show ?case by (rule io_ok_trans)
qed simp

lemma java_apply_ok: "step_ok rootfs D (java_apply C)"
  unfolding step_ok_def
proof (intro allI impI)
  fix ctx s r ctx' s'
  assume ok: "root_ok s rootfs" and ne: "root_of rootfs \<noteq> []" and rt: "cx_rootfs ctx = rootfs"
    and D: "path_dir (cx_ca_file ctx) = abs_path D" "real_dir (node_at s) D"
    and run: "java_apply C ctx s = (r, ctx', s')"
  have "io_ok rootfs D s s' \<and> cx_rootfs ctx' = cx_rootfs ctx \<and> cx_ca_file ctx' = cx_ca_file ctx"
  proof (cases "read_pem_certs C ctx s")
    case (Inl e)
    then show ?thesis using run by (simp add: java_apply_def)
  next
    case (Inr orgs)
    let ?stores = "discover_trust_stores s rootfs (cx_env ctx)"
    obtain ps s1 where p: "patch_stores C rootfs orgs ?stores
        \<lparr>ps_patched = 0, ps_pending = None, ps_last_err = None\<rparr> s = (ps, s1)"
      by (cases "patch_stores C rootfs orgs ?stores \<lparr>ps_patched = 0, ps_pending = None, ps_last_err = None\<rparr> s")
    have 1: "io_ok rootfs D s s1" by (rule patch_stores_io_ok [OF ok ne p])
    have st: "io_ok rootfs D s1 s2" if "stage_trust_store ctx pending s1 = (x, s2)" for pending x s2
    proof -
      obtain y u where f: "stage_file ctx staged_store_name pending s1 = (y, u)"
        by (cases "stage_file ctx staged_store_name pending s1")
      have "u = s2" using that f by (auto simp: stage_trust_store_def io_wrap_def split: sum.splits)
      then have "stage_file ctx staged_store_name pending s1 = (y, s2)" using f by simp
      then show ?thesis
        using stage_file_io_ok [OF D(1) io_ok_dir [OF 1 ok D(2)] io_ok_root [OF 1 ok]] by blast
    qed
    consider "s' = s" "ctx' = ctx" | "s' = s1" "ctx' = ctx"
      | pending x where "stage_trust_store ctx pending s1 = (x, s')"
          "cx_rootfs ctx' = cx_rootfs ctx" "cx_ca_file ctx' = cx_ca_file ctx"
      using run Inr p rt
      by (auto simp: java_apply_def Let_def split: if_splits option.splits prod.splits sum.splits)
    then show ?thesis
    proof cases
      case 3
      then show ?thesis using io_ok_trans [OF 1 st [OF 3(1)]] by simp
    qed (use 1 in auto)
  qed
  then show "changes_only (write_area rootfs \<union> stage_area D) s s' \<and> tree_op s s' \<and>
      cx_rootfs ctx' = cx_rootfs ctx \<and> cx_ca_file ctx' = cx_ca_file ctx"
    by (simp add: io_ok_def)
qed

lemma lang_apply_ok: "step_ok rootfs D lang_apply"
  by (auto simp: step_ok_def lang_apply_def)

lemma all_processors_ok:
  assumes "p \<in> set (all_processors C)"
  shows "step_ok rootfs D (p_apply p)"
  using assms os_apply_ok java_apply_ok lang_apply_ok
  by (auto simp: all_processors_def os_value_def new_dotnet_def new_golang_def new_java_def
      new_nodejs_def new_python_def new_ruby_def)

section \<open>The registered processors meet the contract\<close>

interpretation hook_all: hook_processors "set (all_processors C)"
  "\<lambda>ctx s. hook_ready rootfs D B penv ctx s \<and> tree_op s0 s" "hook_area rootfs D B" penv
  for C rootfs D B penv s0
proof
  fix p ctx s r ctx' s'
  assume p: "p \<in> set (all_processors C)" and rdy: "hook_ready rootfs D B penv ctx s \<and> tree_op s0 s"
    and run: "p_apply p ctx s = (r, ctx', s')"
  have "changes_only (write_area rootfs \<union> stage_area D) s s' \<and> tree_op s s' \<and>
      cx_rootfs ctx' = cx_rootfs ctx \<and> cx_ca_file ctx' = cx_ca_file ctx"
    using all_processors_ok [OF p, of rootfs D] rdy run unfolding step_ok_def hook_ready_def by blast
  then show "changes_only (hook_area rootfs D B) s s' \<and> hook_ready rootfs D B penv ctx' s' \<and> tree_op s0 s'"
    using rdy hook_ready_step [of rootfs D B penv ctx s s' ctx'] tree_op_trans [of s0 s s']
      changes_only_mono [of _ s s' "hook_area rootfs D B"]
    by (auto simp: hook_area_def)
next
  fix n ctx s c
  assume "n \<in> {breadcrumb_started, breadcrumb_progress, breadcrumb_done}"
    and rdy: "hook_ready rootfs D B penv ctx s \<and> tree_op s0 s"
  then show "changes_only (hook_area rootfs D B) s (breadcrumb penv n c s) \<and>
      hook_ready rootfs D B penv ctx (breadcrumb penv n c s) \<and> tree_op s0 (breadcrumb penv n c s)"
    using breadcrumb_ok [of rootfs D B penv ctx s] tree_op_trans [of s0 s] hook_ready_step [of rootfs D B penv ctx s]
    by simp
next
  fix ctx s x
  assume "hook_ready rootfs D B penv ctx s \<and> tree_op s0 s"
  then show "hook_ready rootfs D B penv (add_result x ctx) s \<and> tree_op s0 s"
    by (simp add: hook_ready_def add_result_def)
qed

section \<open>The hook\<close>

lemma selected_subset: "set (selected_processors rg penv ctx) \<subseteq> set (rg_registered rg)"
  by (auto simp: selected_processors_def filter_by_names_def default_processors_def)

lemma hook_write_ok:
  assumes "root_ok s rootfs" and "root_of rootfs \<noteq> []"
  shows "io_ok rootfs D s (snd (hook_write J penv rootfs st s))"
proof (cases "enc_state J st")
  case (Inr b)
  obtain r1 s1 where w: "write_file rootfs (context_file_path penv) (b @ [CHR 0x0A]) s = (r1, s1)"
    by (cases "write_file rootfs (context_file_path penv) (b @ [CHR 0x0A]) s")
  have 1: "io_ok rootfs D s s1" by (rule write_file_io_ok [OF assms w])
  have 2: "io_ok rootfs D s1 (snd (write_file rootfs p d s1))" for p d
    using write_file_io_ok [OF io_ok_root [OF 1 assms(1)] assms(2)] by (metis prod.collapse)
  show ?thesis
    using Inr w 1 io_ok_trans [OF 1 2] by (auto simp: hook_write_def split: sum.split)
qed (simp add: hook_write_def)

lemma run_processors_ok:
  assumes rg: "default_registry C rg" and rdy: "hook_ready rootfs D B penv ctx s"
    and run: "run_processors penv (selected_processors rg penv ctx) ctx s = (ds, ctx1, s1)"
  shows "changes_only (hook_area rootfs D B) s s1 \<and> hook_ready rootfs D B penv ctx1 s1 \<and> tree_op s s1"
proof -
  let ?ds = "detect_sorted ctx s (selected_processors rg penv ctx)"
  have l: "run_loop penv ?ds ctx s = (ctx1, s1)"
    using run by (auto simp: run_processors_def Let_def split: prod.splits)
  have "rg_registered rg = all_processors C"
    using register_all_Inr [OF rg [unfolded default_registry_def] empty_registry_ok]
    by (simp add: empty_registry_def)
  then have ds: "\<forall>d \<in> set ?ds. dt_processor d \<in> set (all_processors C)"
    using detect_sorted_processors selected_subset by fastforce
  show ?thesis by (rule hook_all.run_loop_ok [OF ds _ l]) (use rdy in simp)
qed

lemma hook_body_ok:
  assumes rg: "default_registry C rg" and rdy: "hook_ready rootfs D B penv ctx s"
  shows "changes_only (hook_area rootfs D B) s (snd (hook_body J rg penv ctx s)) \<and>
    tree_op s (snd (hook_body J rg penv ctx s))"
proof -
  obtain ds ctx1 s1 where l: "run_processors penv (selected_processors rg penv ctx) ctx s = (ds, ctx1, s1)"
    by (cases "run_processors penv (selected_processors rg penv ctx) ctx s")
  have 1: "changes_only (hook_area rootfs D B) s s1" "hook_ready rootfs D B penv ctx1 s1" "tree_op s s1"
    using run_processors_ok [OF rg rdy l] by auto
  define w where "w = persist_wrapper_context J penv ctx1 ds s1"
  have "io_ok rootfs D s1 (snd w)"
    using 1(2) hook_write_ok by (simp add: w_def persist_wrapper_context_def hook_ready_def)
  then have 2: "changes_only (hook_area rootfs D B) s1 (snd w)" "tree_op s1 (snd w)"
    using changes_only_mono [of _ s1 "snd w" "hook_area rootfs D B"] by (auto simp: io_ok_def hook_area_def)
  have rdy2: "hook_ready rootfs D B penv ctx1 (snd w)" by (rule hook_ready_step [OF 1(2) 2(2)]) simp_all
  have 3: "changes_only (hook_area rootfs D B) (snd w) (breadcrumb_now J penv breadcrumb_done (snd w))"
    "tree_op (snd w) (breadcrumb_now J penv breadcrumb_done (snd w))"
    unfolding breadcrumb_now_def using breadcrumb_ok [OF rdy2] by simp_all
  have "snd (hook_body J rg penv ctx s) = snd w \<or>
      snd (hook_body J rg penv ctx s) = breadcrumb_now J penv breadcrumb_done (snd w)"
    using l by (auto simp: hook_body_def Let_def w_def [symmetric] split: prod.split sum.split)
  then show ?thesis
    using changes_only_trans [OF 1(1) 2(1)] tree_op_trans [OF 1(3) 2(2)] 3 changes_only_trans tree_op_trans by metis
qed

text \<open>The context that the hook builds from its inputs; \<open>None\<close> when an input is refused.\<close>

definition hook_input :: "codec \<Rightarrow> strmap \<Rightarrow> bytes res \<Rightarrow> fs \<Rightarrow> hctx option" where
  "hook_input J penv stdin s =
     (case read_state J stdin of Inl _ \<Rightarrow> None
      | Inr st \<Rightarrow> (case load_spec J s (oci_bundle st) of Inl _ \<Rightarrow> None
          | Inr (_, spec) \<Rightarrow> Some (hook_context penv (to_lower (trim_space (getenv penv env_hook_mode))) st spec)))"

lemma hook_run_changes:
  assumes "register_all (all_processors C) empty_registry = Inr rg"
    and "hook_input J penv stdin (breadcrumb_now J penv breadcrumb_started s) = Some ctx"
    and "hook_ready rootfs D B penv ctx s"
  shows "changes_only (hook_area rootfs D B) s (snd (hook_run J rg penv stdin s)) \<and>
    tree_op s (snd (hook_run J rg penv stdin s))"
proof -
  define s1 where "s1 = breadcrumb_now J penv breadcrumb_started s"
  have rg: "default_registry C rg" using assms(1) by (simp add: default_registry_def)
  have c: "changes_only (hook_area rootfs D B) s s1" "tree_op s s1"
    unfolding s1_def breadcrumb_now_def using breadcrumb_ok [OF assms(3)] by simp_all
  have rdy1: "hook_ready rootfs D B penv ctx s1" by (rule hook_ready_step [OF assms(3) c(2)]) simp_all
  have "snd (hook_run J rg penv stdin s) = s \<or> snd (hook_run J rg penv stdin s) = s1 \<or>
      snd (hook_run J rg penv stdin s) = snd (hook_body J rg penv ctx s1)"
    using assms(2) by (auto simp: hook_run_def hook_input_def Let_def s1_def split: sum.splits prod.splits)
  then show ?thesis
    using c changes_only_trans [OF c(1)] tree_op_trans [OF c(2)] hook_body_ok [OF rg rdy1, of J] by auto
qed

text \<open>
  C14: confinement of the whole hook. On a host as the plugin prepares it, whatever the image
  holds, whatever the bundle and the annotations say and whichever system calls fail, a run
  of the hook changes no node of the host outside its area: below the rootfs, the staging
  directory's own files, the three breadcrumbs, and temporary files beside them and beside
  the rootfs. The same holds of every tree a crash of the hook could leave behind.
\<close>

theorem hook_run_confined:
  assumes "register_all (all_processors C) empty_registry = Inr rg"
    and "hook_input J penv stdin (breadcrumb_now J penv breadcrumb_started s) = Some ctx"
    and "hook_ready rootfs D B penv ctx s" and "p \<notin> hook_area rootfs D B"
  shows "node_at (snd (hook_run J rg penv stdin s)) p = node_at s p \<and>
    (\<exists>ts. fs_trace (snd (hook_run J rg penv stdin s)) = ts @ fs_trace s \<and>
       (\<forall>t \<in> set ts. map_of t p = node_at s p))"
  using hook_run_changes [OF assms(1-3)] assms(4) unfolding changes_only_def by blast

text \<open>A host for the witnesses: the bundle of a Debian-like container, its rootfs at \<open>/r\<close> and
  the staging directory \<open>/s\<close>.\<close>

definition host_tree :: tree where
  "host_tree = [([], dir_node), ([''b''], dir_node), ([''b'', ''config.json''], file_node ''spec''),
     ([''s''], dir_node), ([''s'', ''ca-bundle.pem''], file_node ''PA.''), ([''host''], file_node ''secret''),
     ([''r''], dir_node), ([''r'', ''etc''], dir_node),
     ([''r'', ''etc'', ''os-release''], file_node ''ID=debian''),
     ([''r'', ''etc'', ''ssl''], dir_node), ([''r'', ''etc'', ''ssl'', ''certs''], dir_node),
     ([''r'', ''etc'', ''ssl'', ''certs'', ''ca-certificates.crt''], file_node ''PB.''),
     ([''r'', ''evil''], NLink ''/../host'')]"

definition host_env :: strmap where
  "host_env = [(''HOOK_MODE'', ''createruntime''), (''CAINJEKT_CA_FILE'', ''/s/ca-bundle.pem''),
     (''CAINJEKT_BREADCRUMB_DIR'', ''/s'')]"

lemma host_wf: "wf_tree_check host_tree"
  by code_simp

lemma host_ready:
  assumes "cx_rootfs ctx = ''/r''" and "path_dir (cx_ca_file ctx) = ''/s''"
  shows "hook_ready ''/r'' [''s''] [''s''] host_env ctx (fs_of host_tree)"
proof -
  have e: "getenv host_env env_breadcrumb_dir = ''/s''" "abs_path [''s''] = ''/s''" "root_of ''/r'' = [''r'']"
    "is_abs ''/r''" "is_dir (map_of host_tree [''s''])" "is_dir (map_of host_tree [''r''])"
    "list_all (\<lambda>q. \<not> is_link (map_of host_tree q)) [[''s'', breadcrumb_started], [''s'', breadcrumb_progress], [''s'', breadcrumb_done]]"
    by code_simp+
  have "\<forall>q \<in> crumb_area [''s'']. \<not> is_link (map_of host_tree q)"
    using e(7) by (auto simp: crumb_area_def)
  then show ?thesis
    using e(1-6) assms wf_fs_of [OF host_wf] real_dir_fs_of [OF host_wf]
    by (simp add: hook_ready_def root_ok_def)
qed

theorem hook_run_confined_witness:
  "node_at (snd (hook_run sample_codec sample_registry host_env (Inr ''stdin'') (fs_of host_tree))) [''host''] =
     Some (file_node ''secret'')"
proof -
  let ?s1 = "breadcrumb_now sample_codec host_env breadcrumb_started (fs_of host_tree)"
  have "case hook_input sample_codec host_env (Inr ''stdin'') ?s1 of None \<Rightarrow> False
      | Some ctx \<Rightarrow> cx_rootfs ctx = ''/r'' \<and> path_dir (cx_ca_file ctx) = ''/s''" by code_simp
  then obtain ctx where ctx: "hook_input sample_codec host_env (Inr ''stdin'') ?s1 = Some ctx"
      "cx_rootfs ctx = ''/r''" "path_dir (cx_ca_file ctx) = ''/s''"
    by (auto split: option.splits)
  have r: "root_of ''/r'' = [''r'']" by code_simp
  have out: "[''host''] \<notin> hook_area ''/r'' [''s''] [''s'']"
    by (auto simp: hook_area_def write_area_def stage_area_def crumb_area_def r temps_def strict_prefix_def
        temp_base_def)
  have "map_of host_tree [''host''] = Some (file_node ''secret'')" by (simp add: host_tree_def)
  then show ?thesis
    using hook_run_confined [OF sample_registry_ok ctx(1) host_ready [OF ctx(2,3)] out] by simp
qed

end
