(* ===== verification/Registry_Correct.thy ===== *)
theory Registry_Correct
  imports Registry Sample_Fs Certs_Correct "HOL-Library.Multiset"
begin

text \<open>
  The registry: registration at start-up cannot panic and every processor is found under its
  name; detection orders the processors by descending priority and registration: distributions,
  languages, the fallback.
\<close>

section \<open>Lookup\<close>

lemma name_key_processor:
  assumes "p \<in> set (all_processors C)"
  shows "name_key (p_name p) = p_name p"
proof -
  have "list_all (\<lambda>n. name_key n = n) processor_names" by code_simp
  moreover have "p_name p \<in> set processor_names"
    using assms unfolding all_processors_names [of C, symmetric] set_map by (rule imageI)
  ultimately show ?thesis by (simp add: list_all_iff)
qed

lemma by_name_iff:
  assumes rg: "register_all (all_processors C) empty_registry = Inr rg"
  shows "by_name rg n = Some p \<longleftrightarrow> p \<in> set (all_processors C) \<and> name_key n = p_name p"
proof -
  have ok: "registry_ok rg" and reg: "rg_registered rg = all_processors C"
    using register_all_Inr [OF rg empty_registry_ok] by (simp_all add: empty_registry_def)
  note key = name_key_processor [of _ C]
  have found: "map_of (rg_by_name rg) (p_name p) = Some p" if p: "p \<in> set (all_processors C)" for p
  proof -
    have "p \<in> snd ` set (rg_by_name rg)"
      using p ok reg unfolding registry_ok_def set_map [symmetric] by simp
    then obtain n where n: "(n, p) \<in> set (rg_by_name rg)" by force
    moreover from this have "n = name_key (p_name p)" using ok unfolding registry_ok_def by blast
    ultimately have "(p_name p, p) \<in> set (rg_by_name rg)" using key [OF p] by simp
    then show ?thesis using ok unfolding registry_ok_def by (intro map_of_is_SomeI) auto
  qed
  show ?thesis
  proof
    assume b: "by_name rg n = Some p"
    have mem: "p \<in> set (all_processors C)" using by_name_registered [OF ok b] reg by simp
    have "(name_key n, p) \<in> set (rg_by_name rg)" using b by (simp add: by_name_def map_of_SomeD)
    then have "name_key n = name_key (p_name p)" using ok unfolding registry_ok_def by blast
    then show "p \<in> set (all_processors C) \<and> name_key n = p_name p" using mem key [OF mem] by simp
  qed (use found in \<open>simp add: by_name_def\<close>)
qed

text \<open>
  C28: the program's twelve processors register without a panic, in the order of \<open>init\<close>, and a
  lookup finds a processor exactly under its own name, in any case and with any white space
  around it; so the wrapper finds every processor the hook recorded.
\<close>

theorem registry_finds_processors:
  "\<exists>rg. register_all (all_processors C) empty_registry = Inr rg \<and> default_processors rg = all_processors C \<and>
    (\<forall>p \<in> set (all_processors C). by_name rg (p_name p) = Some p) \<and>
    (\<forall>n p. by_name rg n = Some p \<longleftrightarrow> p \<in> set (all_processors C) \<and> name_key n = p_name p)"
proof -
  obtain rg where rg: "register_all (all_processors C) empty_registry = Inr rg"
    using register_all_default by blast
  have "rg_registered rg = all_processors C"
    using register_all_Inr [OF rg empty_registry_ok] by (simp add: empty_registry_def)
  then show ?thesis using rg by_name_iff [OF rg] name_key_processor [of _ C] by (auto simp: default_processors_def)
qed

theorem registry_finds_processors_witness:
  "\<exists>rg. register_all (all_processors toy_crypto) empty_registry = Inr rg \<and>
     by_name rg '' LANG-Java '' = Some (new_java toy_crypto)"
proof -
  have "name_key '' LANG-Java '' = ''lang-java''" by code_simp
  moreover have "new_java toy_crypto \<in> set (all_processors toy_crypto)" by (simp add: all_processors_def)
  moreover have "p_name (new_java toy_crypto) = ''lang-java''" by (simp add: new_java_def java_name_def)
  moreover obtain rg where "register_all (all_processors toy_crypto) empty_registry = Inr rg"
    and "\<forall>n p. by_name rg n = Some p \<longleftrightarrow> p \<in> set (all_processors toy_crypto) \<and> name_key n = p_name p"
    using registry_finds_processors [of toy_crypto] by blast
  ultimately show ?thesis by auto
qed

section \<open>The order of detection\<close>

definition detected_priority :: "detected \<Rightarrow> int" where
  "detected_priority d = dr_priority (dt_detect d)"

definition detections :: "hctx \<Rightarrow> fs \<Rightarrow> processor list \<Rightarrow> detected list" where
  "detections ctx s ps = map (\<lambda>p. \<lparr>dt_processor = p, dt_detect = p_detect p (Some ctx) s\<rparr>) ps"

text \<open>The library's algorithm is a stable sort when the comparison is the strict order of a key.\<close>

lemma sift_mset: "mset (sift lt x ys) = add_mset x (mset ys)"
  by (induction ys) auto

lemma sift_sorted:
  assumes "lt = (\<lambda>a b. (f a :: 'k :: linorder) < f b)" and "sorted (rev (map f ys))"
  shows "sorted (rev (map f (sift lt x ys)))"
  using assms(2)
proof (induction ys)
  case (Cons y ys)
  show ?case using Cons by (force simp: assms(1) sorted_append)
qed simp

lemma sift_stable:
  assumes "lt = (\<lambda>a b. (f a :: 'k :: linorder) < f b)" and "sorted (rev (map f ys))"
  shows "filter (\<lambda>y. k = f y) (sift lt x ys) = (if k = f x then [x] else []) @ filter (\<lambda>y. k = f y) ys"
  using assms(2)
proof (induction ys)
  case (Cons y ys)
  then show ?case by (auto simp: assms(1) sorted_append)
qed simp

lemma slice_stable_sort_key:
  assumes lt: "lt = (\<lambda>a b. (f a :: 'k :: linorder) < f b)"
  shows "slice_stable lt xs = sort_key f xs"
proof -
  have *: "mset (fold (sift lt) xs ys) = mset ys + mset xs \<and> sorted (rev (map f (fold (sift lt) xs ys))) \<and>
      (\<forall>k. filter (\<lambda>y. k = f y) (fold (sift lt) xs ys) = rev (filter (\<lambda>y. k = f y) xs) @ filter (\<lambda>y. k = f y) ys)"
    if "sorted (rev (map f ys))" for ys
    using that
  proof (induction xs arbitrary: ys)
    case (Cons x xs)
    show ?case
      using Cons.IH [OF sift_sorted [OF lt Cons.prems]] sift_stable [OF lt Cons.prems]
      by (simp add: sift_mset)
  qed simp
  show ?thesis
    unfolding slice_stable_def
    by (rule properties_for_sort_key [symmetric]) (use * [of "[]"] in \<open>simp_all add: rev_map rev_filter [symmetric]\<close>)
qed

lemma detect_sorted_key: "detect_sorted ctx s ps = sort_key (\<lambda>d. - detected_priority d) (detections ctx s ps)"
  unfolding detect_sorted_def detections_def
  by (rule slice_stable_sort_key) (simp add: fun_eq_iff detected_before_def detected_priority_def)

lemma detect_sorted_mset: "mset (detect_sorted ctx s ps) = mset (detections ctx s ps)"
  by (simp add: detect_sorted_key)

lemma detect_sorted_processors_mset: "mset (map dt_processor (detect_sorted ctx s ps)) = mset ps"
proof -
  have "mset (map dt_processor (detect_sorted ctx s ps)) = mset (map dt_processor (detections ctx s ps))"
    by (simp only: mset_map detect_sorted_mset)
  then show ?thesis by (simp add: detections_def comp_def)
qed

lemma lang_detect_priority: "dr_priority (lang_detect cs reason ctx s) = lang_priority"
  by (simp add: lang_detect_def split: option.split)

lemma java_detect_priority: "dr_priority (java_detect ctx s) = lang_priority"
  by (simp add: java_detect_def split: option.split)

lemma os_detect_priority: "dr_priority (os_detect C p ctx s) = os_priority p"
  by (simp add: os_detect_def split: option.split sum.split)

text \<open>The names of the registered processors, in the order in which they run.\<close>

definition detection_order :: "string list" where
  "detection_order = [''os-debian'', ''os-rhel'', ''os-opensuse'', ''os-alpine'', ''os-arch'',
     ''lang-dotnet'', ''lang-go'', ''lang-java'', ''lang-nodejs'', ''lang-python'', ''lang-ruby'', ''os-fallback'']"


lemma names_detection_order:
  "map (\<lambda>d. p_name (dt_processor d)) (detect_sorted ctx s (all_processors C)) = detection_order"
  by (simp add: detect_sorted_key detections_def all_processors_def detected_priority_def os_value_def
      os_detect_priority lang_detect_priority java_detect_priority lang_priority_def java_name_def detection_order_def
      new_debian_def new_rhel_def new_opensuse_def new_alpine_def new_arch_def new_fallback_def
      new_dotnet_def new_golang_def new_java_def new_nodejs_def new_python_def new_ruby_def)

lemma to_lower_names: "p \<in> set (all_processors C) \<Longrightarrow> to_lower (p_name p) = p_name p"
proof -
  assume "p \<in> set (all_processors C)"
  then have "p_name p \<in> set processor_names" unfolding all_processors_names [of C, symmetric] set_map by (rule imageI)
  moreover have "list_all (\<lambda>n. to_lower n = n) processor_names" by code_simp
  ultimately show "to_lower (p_name p) = p_name p" by (simp add: list_all_iff)
qed

lemma detect_sorted_filter:
  "detect_sorted ctx s (filter P ps) = filter (\<lambda>d. P (dt_processor d)) (detect_sorted ctx s ps)"
  by (simp add: detect_sorted_key detections_def filter_sort filter_map comp_def)

lemma stable_sort_unique:
  "ds = sort_key f xs \<longleftrightarrow> sorted (map f ds) \<and> (\<forall>k. filter (\<lambda>x. f x = k) ds = filter (\<lambda>x. f x = k) xs)"
proof
  assume r: "sorted (map f ds) \<and> (\<forall>k. filter (\<lambda>x. f x = k) ds = filter (\<lambda>x. f x = k) xs)"
  have "count (mset ds) a = count (mset xs) a" for a
  proof -
    have "count (mset ds) a = count (mset (filter (\<lambda>x. f x = f a) ds)) a" by simp
    also have "\<dots> = count (mset (filter (\<lambda>x. f x = f a) xs)) a" using r by simp
    finally show ?thesis by simp
  qed
  then have m: "mset ds = mset xs" by (rule multiset_eqI)
  show "ds = sort_key f xs"
  proof (rule properties_for_sort_key [symmetric, OF m])
    show "filter (\<lambda>x. f k = f x) ds = filter (\<lambda>x. f k = f x) xs" for k
      using r unfolding eq_commute [of "f k"] by blast
  qed (use r in simp)
qed (simp add: sort_key_stable)

lemma stable_sort_descending:
  fixes f :: "'a \<Rightarrow> int"
  shows "ds = sort_key (\<lambda>x. - f x) xs \<longleftrightarrow>
    sorted_wrt (\<lambda>a b. f a \<ge> f b) ds \<and> (\<forall>k. filter (\<lambda>x. f x = k) ds = filter (\<lambda>x. f x = k) xs)"
proof -
  have "(\<lambda>x. - f x = k) = (\<lambda>x. f x = - k)" for k by auto
  moreover have "(\<forall>k. filter (\<lambda>x. f x = - k) ds = filter (\<lambda>x. f x = - k) xs) \<longleftrightarrow>
      (\<forall>k. filter (\<lambda>x. f x = k) ds = filter (\<lambda>x. f x = k) xs)" by (metis minus_minus)
  ultimately show ?thesis unfolding stable_sort_unique by (simp add: sorted_map)
qed

text \<open>
  C29: detection lists every selected processor exactly once, by descending priority and, among
  equal priorities, in the order of selection; no other list does, so every stable sort gives
  this one. For the registered processors and any selection by name this puts the distributions
  first, each before every language, then the languages in the order of registration, and the
  fallback, which is also a trust store, last.
\<close>

theorem detect_order:
  "mset (map dt_processor (detect_sorted ctx s ps)) = mset ps \<and>
   (\<forall>ds. ds = detect_sorted ctx s ps \<longleftrightarrow>
      sorted_wrt (\<lambda>a b. dr_priority (dt_detect a) \<ge> dr_priority (dt_detect b)) ds \<and>
      (\<forall>k. filter (\<lambda>d. dr_priority (dt_detect d) = k) ds =
           filter (\<lambda>d. dr_priority (dt_detect d) = k)
             (map (\<lambda>p. \<lparr>dt_processor = p, dt_detect = p_detect p (Some ctx) s\<rparr>) ps))) \<and>
   map (\<lambda>d. p_name (dt_processor d)) (detect_sorted ctx s (filter_by_names (all_processors C) incl excl)) =
     filter (\<lambda>n. (incl = [] \<or> n \<in> set incl) \<and> n \<notin> set excl)
       [''os-debian'', ''os-rhel'', ''os-opensuse'', ''os-alpine'', ''os-arch'',
        ''lang-dotnet'', ''lang-go'', ''lang-java'', ''lang-nodejs'', ''lang-python'', ''lang-ruby'', ''os-fallback'']"
proof (intro conjI allI)
  show "mset (map dt_processor (detect_sorted ctx s ps)) = mset ps" by (rule detect_sorted_processors_mset)
  show "ds = detect_sorted ctx s ps \<longleftrightarrow>
      sorted_wrt (\<lambda>a b. dr_priority (dt_detect a) \<ge> dr_priority (dt_detect b)) ds \<and>
      (\<forall>k. filter (\<lambda>d. dr_priority (dt_detect d) = k) ds =
           filter (\<lambda>d. dr_priority (dt_detect d) = k)
             (map (\<lambda>p. \<lparr>dt_processor = p, dt_detect = p_detect p (Some ctx) s\<rparr>) ps))" for ds
    unfolding detect_sorted_key stable_sort_descending detections_def detected_priority_def ..
next
  let ?keep = "\<lambda>n. (incl = [] \<or> n \<in> set incl) \<and> n \<notin> set excl"
  let ?all = "detect_sorted ctx s (all_processors C)"
  have "keep_processor incl excl (dt_processor d) \<longleftrightarrow> ?keep (p_name (dt_processor d))" if "d \<in> set ?all" for d
  proof -
    have "dt_processor d \<in> set (all_processors C)" using that by (auto simp: detect_sorted_key detections_def)
    then have "to_lower (p_name (dt_processor d)) = p_name (dt_processor d)" by (rule to_lower_names)
    then show ?thesis by (auto simp: keep_processor_def Let_def)
  qed
  then have "filter (\<lambda>d. keep_processor incl excl (dt_processor d)) ?all =
      filter (\<lambda>d. ?keep (p_name (dt_processor d))) ?all"
    by (intro filter_cong refl)
  then show "map (\<lambda>d. p_name (dt_processor d)) (detect_sorted ctx s (filter_by_names (all_processors C) incl excl)) =
      filter ?keep [''os-debian'', ''os-rhel'', ''os-opensuse'', ''os-alpine'', ''os-arch'',
        ''lang-dotnet'', ''lang-go'', ''lang-java'', ''lang-nodejs'', ''lang-python'', ''lang-ruby'', ''os-fallback'']"
    unfolding filter_by_names_def detect_sorted_filter detection_order_def [symmetric]
      names_detection_order [of ctx s C, symmetric] by (simp only: filter_map comp_def)
qed

theorem detect_order_witness:
  "map (\<lambda>d. p_name (dt_processor d)) (detect_sorted \<lparr>cx_mode = [], cx_bundle = [], cx_annotations = [],
     cx_rootfs = ''/'', cx_ca_file = [], cx_fail_policy = [], cx_env = [], cx_facts = None, cx_results = []\<rparr>
     (fs_of [([], dir_node)])
     (filter_by_names (all_processors toy_crypto) [''os-fallback'', ''lang-java'', ''os-debian''] [])) =
   [''os-debian'', ''lang-java'', ''os-fallback'']"
proof -
  let ?ctx = "\<lparr>cx_mode = [], cx_bundle = [], cx_annotations = [],
     cx_rootfs = ''/'', cx_ca_file = [], cx_fail_policy = [], cx_env = [], cx_facts = None, cx_results = []\<rparr>"
  note o = detect_order [of ?ctx "fs_of [([], dir_node)]" "[]" toy_crypto "[''os-fallback'', ''lang-java'', ''os-debian'']" "[]"]
  show ?thesis unfolding o [THEN conjunct2, THEN conjunct2] by simp
qed

end
