(* ===== verification/Hook_Runs.thy ===== *)
theory Hook_Runs
  imports Hook_Correct Registry_Correct
begin

text \<open>
  How a run of the hook ends: every processor is recorded with its outcome and none stops the
  others; the hook itself fails only on its inputs or when it cannot leave its state in the
  rootfs, as on a read-only one.
\<close>

section \<open>The results\<close>

text \<open>A processor that leaves the results of the context alone.\<close>

definition keeps_results :: "unit step \<Rightarrow> bool" where
  "keeps_results f = (\<forall>ctx s r ctx' s'. f ctx s = (r, ctx', s') \<longrightarrow> cx_results ctx' = cx_results ctx)"

lemma keeps_resultsD: "keeps_results f \<Longrightarrow> f ctx s = (r, ctx', s') \<Longrightarrow> cx_results ctx' = cx_results ctx"
  unfolding keeps_results_def by blast

lemma os_apply_keeps_results: "keeps_results (os_apply C p)"
proof -
  have ro: "cx_results c' = cx_results c" if "os_apply_read_only C p t org c s = (r, c', s')" for t org c s r c' s'
    using that by (auto simp: os_apply_read_only_def Let_def split: if_splits prod.splits sum.splits)
  have ip: "cx_results c' = cx_results c" if "os_apply_in_place C p t org c s = (r, c', s')" for t org c s r c' s'
    using that by (auto simp: os_apply_in_place_def os_record_facts_def Let_def split: prod.splits sum.splits if_splits)
  show ?thesis
    unfolding keeps_results_def using ro ip
    by (auto simp: os_apply_def split: if_splits sum.splits prod.splits bool.splits)
qed

lemma java_apply_keeps_results: "keeps_results (java_apply C)"
  unfolding keeps_results_def
  by (auto simp: java_apply_def stage_trust_store_def Let_def split: if_splits sum.splits prod.splits option.splits)

lemma all_keep_results: "p \<in> set (all_processors C) \<Longrightarrow> keeps_results (p_apply p)"
  using os_apply_keeps_results java_apply_keeps_results
  by (auto simp: all_processors_def os_value_def new_dotnet_def new_golang_def new_java_def
      new_nodejs_def new_python_def new_ruby_def) (simp_all add: keeps_results_def lang_apply_def)

text \<open>
  What the turn of a detected processor must do, from a context and a file system to the next
  ones: an applicable processor is applied to just these, after its breadcrumb, and the result
  \<open>x\<close> says what it returned; any other is only recorded, with the reason of its detection.
\<close>

definition turn :: "strmap \<Rightarrow> detected \<Rightarrow> processor_result \<Rightarrow> hctx \<times> fs \<Rightarrow> hctx \<times> fs \<Rightarrow> bool" where
  "turn penv d x before after =
     (pr_name x = p_name (dt_processor d) \<and> pr_category x = p_category (dt_processor d) \<and>
      (if dr_applicable (dt_detect d)
       then (\<exists>r c. p_apply (dt_processor d) (fst before)
                (breadcrumb penv ''hook.progress'' (p_name (dt_processor d)) (snd before)) = (r, c, snd after) \<and>
              fst after = c\<lparr>cx_results := cx_results (fst before) @ [x]\<rparr> \<and> \<not> pr_skipped x \<and>
              (case r of Inr _ \<Rightarrow> pr_applied x \<and> pr_err x = None
               | Inl e \<Rightarrow> \<not> pr_applied x \<and> pr_err x = Some e))
       else fst after = (fst before)\<lparr>cx_results := cx_results (fst before) @ [x]\<rparr> \<and> snd after = snd before \<and>
            pr_skipped x \<and> \<not> pr_applied x \<and> pr_err x = None \<and> pr_reason x = dr_reason (dt_detect d)))"

lemma run_detected_turn:
  assumes "keeps_results (p_apply (dt_processor d))" and "run_detected penv d ctx s = (ctx', s')"
  shows "\<exists>x. turn penv d x (ctx, s) (ctx', s') \<and> cx_results ctx' = cx_results ctx @ [x]"
proof (cases "dr_applicable (dt_detect d)")
  case False
  then show ?thesis using assms(2)
    by (auto simp: run_detected_def add_result_def turn_def skipped_result_def)
next
  case True
  obtain r c1 where a: "p_apply (dt_processor d) ctx (breadcrumb penv breadcrumb_progress (p_name (dt_processor d)) s) = (r, c1, s')"
    and c: "ctx' = add_result (applied_result d r) c1"
    using assms(2) True by (auto simp: run_detected_def split: prod.splits)
  have "cx_results c1 = cx_results ctx" by (rule keeps_resultsD [OF assms(1) a])
  then show ?thesis
    using True a by (cases r) (auto simp: turn_def c add_result_def applied_result_def breadcrumb_progress_def)
qed

text \<open>\<open>cs\<close> holds the context and file system before the first turn and after each turn.\<close>

lemma run_loop_turns:
  "\<forall>d \<in> set ds. keeps_results (p_apply (dt_processor d)) \<Longrightarrow> run_loop penv ds ctx s = (ctx', s') \<Longrightarrow>
   \<exists>xs cs. length xs = length ds \<and> length cs = Suc (length ds) \<and> hd cs = (ctx, s) \<and> last cs = (ctx', s') \<and>
     (\<forall>i < length ds. turn penv (ds ! i) (xs ! i) (cs ! i) (cs ! Suc i)) \<and>
     cx_results ctx' = cx_results ctx @ xs"
proof (induction ds arbitrary: ctx s)
  case Nil
  then show ?case by (intro exI [of _ "[]"] exI [of _ "[(ctx, s)]"]) simp
next
  case (Cons d ds)
  obtain c1 s1 where r: "run_detected penv d ctx s = (c1, s1)" by (cases "run_detected penv d ctx s")
  obtain x where x: "turn penv d x (ctx, s) (c1, s1)" "cx_results c1 = cx_results ctx @ [x]"
    using run_detected_turn [OF _ r] Cons.prems(1) by auto
  obtain xs cs where cs: "length xs = length ds" "length cs = Suc (length ds)" "hd cs = (c1, s1)" "last cs = (ctx', s')"
    "\<forall>i < length ds. turn penv (ds ! i) (xs ! i) (cs ! i) (cs ! Suc i)" "cx_results ctx' = cx_results c1 @ xs"
    using Cons.IH [of c1 s1] Cons.prems r by auto
  have "cs \<noteq> []" using cs(2) by auto
  then have "cs ! 0 = (c1, s1)" using cs(3) by (metis hd_conv_nth)
  with x(1) cs(5) have "\<forall>i < length (d # ds). turn penv ((d # ds) ! i) ((x # xs) ! i) (((ctx, s) # cs) ! i) (((ctx, s) # cs) ! Suc i)"
    by (auto simp: less_Suc_eq_0_disj)
  then show ?case using cs x(2) \<open>cs \<noteq> []\<close> by (intro exI [of _ "x # xs"] exI [of _ "(ctx, s) # cs"]) simp
qed

text \<open>
  C30: a run of the processors visits every selected processor exactly once, in the order of
  detection. Each applicable processor is applied, to the context and the rootfs that the one
  before it left, and is recorded as applied if it succeeded and with its error if it failed;
  any other is recorded as skipped, with the reason of its detection, and changes nothing else.
  A processor that fails stops none of the others, and the run ends in what the last of them
  left. What is persisted for the wrapper is the detection of exactly these processors.
\<close>

theorem run_processors_complete:
  assumes "set ps \<subseteq> set (all_processors C)" and "run_processors penv ps ctx s = (ds, ctx', s')"
  shows "\<exists>found xs cs. found = detect_sorted ctx s ps \<and> ds = map persisted_of found \<and>
    mset (map dp_name ds) = mset (map p_name ps) \<and>
    length xs = length found \<and> length cs = Suc (length found) \<and> hd cs = (ctx, s) \<and> last cs = (ctx', s') \<and>
    (\<forall>i < length found. turn penv (found ! i) (xs ! i) (cs ! i) (cs ! Suc i)) \<and>
    cx_results ctx' = cx_results ctx @ xs"
proof -
  let ?found = "detect_sorted ctx s ps"
  have run: "run_loop penv ?found ctx s = (ctx', s')" and ds: "ds = map persisted_of ?found"
    using assms(2) by (auto simp: run_processors_def Let_def split: prod.splits)
  have "\<forall>d \<in> set ?found. keeps_results (p_apply (dt_processor d))"
    using detect_sorted_processors all_keep_results assms(1) by blast
  moreover have "map dp_name ds = map p_name (map dt_processor ?found)"
    by (simp add: ds persisted_of_def)
  then have "mset (map dp_name ds) = mset (map p_name ps)"
    by (metis detect_sorted_processors_mset mset_map)
  ultimately show ?thesis using run_loop_turns [OF _ run] ds by blast
qed

text \<open>A Debian-like rootfs without a language runtime, and a CA bundle that cannot be read: the
  Debian processor is applied and fails, Ruby is skipped, both of them recorded.\<close>

definition broken_ctx :: hctx where
  "broken_ctx = \<lparr>cx_mode = mode_create_rt, cx_bundle = ''/b'', cx_annotations = [], cx_rootfs = ''/r'',
     cx_ca_file = ''/missing'', cx_fail_policy = fail_policy_open, cx_env = [], cx_facts = Some facts_new,
     cx_results = []\<rparr>"

theorem run_processors_complete_witness:
  "\<exists>ds ctx' s'. run_processors [] [new_ruby, os_value toy_crypto new_debian] broken_ctx (fs_of host_tree) = (ds, ctx', s') \<and>
     mset (map dp_name ds) = {#''lang-ruby'', ''os-debian''#} \<and> length (cx_results ctx') = 2"
proof -
  let ?ps = "[new_ruby, os_value toy_crypto new_debian]"
  obtain ds ctx' s' where run: "run_processors [] ?ps broken_ctx (fs_of host_tree) = (ds, ctx', s')"
    by (cases "run_processors [] ?ps broken_ctx (fs_of host_tree)")
  have "set ?ps \<subseteq> set (all_processors toy_crypto)" by (simp add: all_processors_def)
  from run_processors_complete [OF this run] obtain found xs where
    d: "mset (map dp_name ds) = mset (map p_name ?ps)" "ds = map persisted_of found"
    and x: "cx_results ctx' = cx_results broken_ctx @ xs" "length xs = length found" by blast
  have "length ds = 2" using d(1) by (metis (no_types, lifting) length_Cons length_map list.size(3) numeral_2_eq_2 size_mset)
  then have "length xs = 2" using d(2) x(2) by simp
  moreover have "map p_name ?ps = [''lang-ruby'', ''os-debian'']"
    by (simp add: new_ruby_def os_value_def new_debian_def)
  ultimately show ?thesis using run d(1) x(1) by (auto simp: broken_ctx_def)
qed

section \<open>A rootfs that cannot be written\<close>

lemma create_temp_fault:
  assumes "create_temp n dir s = (Inr th, s')"
  shows "\<exists>k. fs_faults s Create (comps (temp_name dir k)) = None"
  using assms
proof (induction n dir s rule: create_temp.induct)
  case (1 n dir s)
  define s0 where "s0 = s\<lparr>fs_rand_ix := Suc (fs_rand_ix s)\<rparr>"
  define nm where "nm = temp_name dir (fs_rand s (fs_rand_ix s))"
  show ?case
  proof (cases "fs_faults s Create (comps nm)")
    case None
    then show ?thesis unfolding nm_def by blast
  next
    case (Some f)
    then have "sys_create nm 384 s0 = (Inl (Sys (Fault f)), s0)" by (simp add: sys_create_def s0_def)
    then show ?thesis
      using "1.prems" by (subst (asm) create_temp.simps) (simp add: Let_def nm_def [symmetric] s0_def [symmetric])
  qed
qed

lemma write_file_needs_create:
  assumes ok: "root_ok s rootfs" and ne: "root_of rootfs \<noteq> []"
    and ro: "\<forall>q \<in> write_area rootfs. fs_faults s Create q \<noteq> None"
  shows "isl (fst (write_file rootfs cp data s))"
proof (cases "resolve_symlinks s rootfs cp")
  case (Inr r)
  obtain d n where vd: "valid_names d" "valid_name n" and cl: "clear (node_at s) [] d"
    and host: "path_in_rootfs rootfs r = abs_path (d @ [n])" "path_dir (path_in_rootfs rootfs r) = abs_path d"
    and area: "temps d \<subseteq> write_area rootfs"
    using write_file_place [OF ok ne Inr] by metis
  obtain r1 s1 where m: "os_mkdir_all (abs_path d) 493 s = (r1, s1)" by (cases "os_mkdir_all (abs_path d) 493 s")
  have f1: "fs_faults s1 = fs_faults s"
    using write_file_mkdir(1) [OF ok cl vd(1) m] changes_only_faults by (auto simp: dirs_added_def)
  have tmp: "comps (temp_name (abs_path d) k) = d @ [temp_base k]" for k
    unfolding temp_name_abs_path [OF vd(1)] by (rule comps_abs_path) (use vd(1) temp_base_valid in simp)
  have "isl (fst (create_temp max_temp_tries (abs_path d) s1))"
  proof (cases "create_temp max_temp_tries (abs_path d) s1")
    case (Pair x u)
    show ?thesis
    proof (cases x)
      case (Inr th)
      then obtain k where "fs_faults s Create (d @ [temp_base k]) = None"
        using create_temp_fault [of max_temp_tries "abs_path d" s1 th u] Pair f1 tmp by auto
      moreover have "d @ [temp_base k] \<in> write_area rootfs" using area by (auto simp: temps_def)
      ultimately show ?thesis using ro by auto
    qed (use Pair in simp)
  qed
  moreover have "path_dir (abs_path (d @ [n])) = abs_path d" using host by simp
  ultimately have "isl (fst (atomic_write (abs_path (d @ [n])) data rootfs_write_options s1))"
    by (auto simp: atomic_write_def Let_def isl_def split: prod.split sum.split)
  then show ?thesis using Inr m host by (auto simp: write_file_def isl_def split: sum.split prod.split)
qed (simp add: write_file_def)

text \<open>
  C31: on a rootfs in which nothing can be created the hook always fails, whatever its
  processors achieved: its state for the wrapper goes into the rootfs.
\<close>

theorem read_only_rootfs_fails_hook:
  assumes "register_all (all_processors C) empty_registry = Inr rg"
    and "hook_input J penv stdin (breadcrumb_now J penv breadcrumb_started s) = Some ctx"
    and "hook_ready rootfs D B penv ctx s"
    and "\<forall>q \<in> write_area rootfs. fs_faults s Create q \<noteq> None"
  shows "isl (fst (hook_run J rg penv stdin s))"
proof -
  define s1 where "s1 = breadcrumb_now J penv breadcrumb_started s"
  have rg: "default_registry C rg" using assms(1) by (simp add: default_registry_def)
  have c: "changes_only (hook_area rootfs D B) s s1" "tree_op s s1"
    unfolding s1_def breadcrumb_now_def using breadcrumb_ok [OF assms(3)] by simp_all
  have rdy1: "hook_ready rootfs D B penv ctx s1" by (rule hook_ready_step [OF assms(3) c(2)]) simp_all
  obtain ds ctx2 s2 where p: "run_processors penv (selected_processors rg penv ctx) ctx s1 = (ds, ctx2, s2)"
    by (cases "run_processors penv (selected_processors rg penv ctx) ctx s1")
  have 2: "changes_only (hook_area rootfs D B) s1 s2 \<and> hook_ready rootfs D B penv ctx2 s2"
    using run_processors_ok [OF rg rdy1 p] by simp
  have "fs_faults s2 = fs_faults s" using 2 c(1) changes_only_faults by metis
  then have "isl (fst (write_file rootfs (context_file_path penv) x s2))" for x
    using 2 assms(4) by (intro write_file_needs_create) (auto simp: hook_ready_def)
  then have "isl (fst (persist_wrapper_context J penv ctx2 ds s2))"
    using 2 by (auto simp: persist_wrapper_context_def hook_write_def hook_ready_def isl_def
        split: sum.split prod.split) (metis fst_conv isl_def sum.disc(2))+
  then have "isl (fst (hook_body J rg penv ctx s1))"
    using p by (auto simp: hook_body_def isl_def split: prod.split sum.split)
  then show ?thesis
    using assms(2) unfolding s1_def [symmetric]
    by (auto simp: hook_run_def hook_input_def Let_def s1_def [symmetric] split: sum.splits prod.splits)
qed

definition read_only_host :: fs where
  "read_only_host = (fs_of host_tree)\<lparr>fs_faults := (\<lambda>c p. if c = Create \<and> take 1 p \<noteq> [''s''] then Some EROFS else None)\<rparr>"

theorem read_only_rootfs_fails_hook_witness:
  "isl (fst (hook_run sample_codec sample_registry host_env (Inr ''stdin'') read_only_host))"
proof -
  let ?s1 = "breadcrumb_now sample_codec host_env breadcrumb_started read_only_host"
  have "case hook_input sample_codec host_env (Inr ''stdin'') ?s1 of None \<Rightarrow> False
      | Some ctx \<Rightarrow> cx_rootfs ctx = ''/r'' \<and> path_dir (cx_ca_file ctx) = ''/s''" by code_simp
  then obtain ctx where ctx: "hook_input sample_codec host_env (Inr ''stdin'') ?s1 = Some ctx"
      "cx_rootfs ctx = ''/r''" "path_dir (cx_ca_file ctx) = ''/s''"
    by (auto split: option.splits)
  have r: "root_of ''/r'' = [''r'']" by code_simp
  have "node_at read_only_host = node_at (fs_of host_tree)"
    by (simp add: read_only_host_def node_at_def [abs_def])
  then have rdy: "hook_ready ''/r'' [''s''] [''s''] host_env ctx read_only_host"
    using host_ready [OF ctx(2,3)] hook_ready_nodes by blast
  have "\<forall>q \<in> write_area ''/r''. fs_faults read_only_host Create q \<noteq> None"
    by (auto simp: write_area_def r temps_def temp_base_def strict_prefix_def prefix_def read_only_host_def)
  from read_only_rootfs_fails_hook [OF sample_registry_ok ctx(1) rdy this] show ?thesis .
qed

end
