(* ===== verification/Wrapper_Exports.thy ===== *)
theory Wrapper_Exports
  imports Wrapper_Correct Registry_Correct
begin

text \<open>
  What the wrapper gives to the container's command: a reference definition of the variables
  each detected processor stands for, and the proof that the loop over the processors and the
  calls of \<open>os.Setenv\<close> after it produce exactly these.
\<close>

section \<open>The reference\<close>

text \<open>The variables a processor sets, by its name, from the facts the hook left.\<close>

definition ca_exports :: "strmap \<Rightarrow> string \<Rightarrow> (string \<times> string) list" where
  "ca_exports facts name =
     (let ca = preferred_ca_bundle_path (Some facts);
          own = trim_space (fact_or_empty facts fact_individual_ca_path) in
      filter (\<lambda>(k, v). v \<noteq> [])
        (if name \<in> {''lang-dotnet'', ''lang-go'', ''lang-ruby''} then [(env_ssl_cert_file, ca)]
         else if name = ''lang-python'' then [(env_ssl_cert_file, ca), (env_requests_ca_bundle, ca)]
         else if name = ''lang-nodejs'' then [(env_node_extra_ca_certs, own)]
         else []))"

text \<open>The variables of all processors the hook found applicable.\<close>

definition exports_of :: "strmap \<Rightarrow> detected_processor list \<Rightarrow> (string \<times> string) list" where
  "exports_of facts ds = concat (map (ca_exports facts) (map (\<lambda>d. name_key (dp_name d)) (filter dp_applicable ds)))"

definition bundle_variables :: "string list" where
  "bundle_variables = [env_ssl_cert_file, env_requests_ca_bundle, env_node_extra_ca_certs]"

definition exported :: "(string \<times> string) list \<Rightarrow> string list \<Rightarrow> string \<Rightarrow> string" where
  "exported xs environ k = (case map_of xs k of Some v \<Rightarrow> v | None \<Rightarrow> get_value environ k)"

section \<open>One processor\<close>

lemma bundle_variables_keys:
  "k \<in> set bundle_variables \<Longrightarrow> env_key k \<and> k \<in> set ca_variables \<and> k \<noteq> env_java_tool_options \<and> trim_space k \<noteq> []"
proof -
  have "list_all (\<lambda>k. k \<in> set ca_variables \<and> k \<noteq> env_java_tool_options \<and> trim_space k \<noteq> []) bundle_variables"
    by code_simp
  then show "k \<in> set bundle_variables \<Longrightarrow> env_key k \<and> k \<in> set ca_variables \<and> k \<noteq> env_java_tool_options \<and> trim_space k \<noteq> []"
    using ca_variables_keys by (auto simp: list_all_iff)
qed

lemma get_upsert_ca:
  assumes "k \<in> set ca_variables" and "k' \<in> set ca_variables"
  shows "get_value (upsert env k v) k' = (if k' = k then v else get_value env k')"
  using get_upsert_same get_upsert_other [of k k'] ca_variables_keys assms by auto

definition exporting :: "string list" where
  "exporting = [''lang-dotnet'', ''lang-go'', ''lang-ruby'', ''lang-python'', ''lang-nodejs'']"

lemma ca_exports_other: "n \<notin> set exporting \<Longrightarrow> ca_exports facts n = []"
  by (simp add: ca_exports_def exporting_def Let_def)

lemma all_processors_wrapper:
  assumes "p \<in> set (all_processors C)"
  obtains (none) "p_apply_wrapper p = None" "p_name p \<notin> set exporting"
  | (ssl) "p_apply_wrapper p = Some ssl_cert_file_wrapper" "p_name p \<in> {''lang-dotnet'', ''lang-go'', ''lang-ruby''}"
  | (java) "p_apply_wrapper p = Some java_apply_wrapper" "p_name p \<notin> set exporting"
  | (python) "p_apply_wrapper p = Some python_apply_wrapper" "p_name p = ''lang-python''"
  | (nodejs) "p_apply_wrapper p = Some nodejs_apply_wrapper" "p_name p = ''lang-nodejs''"
proof -
  have os: "p_name (os_value C q) \<notin> set exporting" if "q \<in> {new_debian, new_rhel, new_opensuse, new_alpine, new_arch, new_fallback}" for q
  proof -
    have "list_all (\<lambda>n. n \<notin> set exporting) (map os_name [new_debian, new_rhel, new_opensuse, new_alpine, new_arch, new_fallback])"
      by code_simp
    then show ?thesis using that by (auto simp: os_value_def list_all_iff)
  qed
  have nj: "''lang-java'' \<notin> set exporting" by code_simp
  consider q where "p = os_value C q" "q \<in> {new_debian, new_rhel, new_opensuse, new_alpine, new_arch, new_fallback}"
    | "p \<in> {new_dotnet, new_golang, new_ruby}" | "p = new_java C" | "p = new_nodejs" | "p = new_python"
    using assms unfolding all_processors_def by fastforce
  then show ?thesis
  proof cases
    case 1
    then show ?thesis using none os by (simp add: os_value_def)
  next
    case 2
    then show ?thesis by (intro ssl) (auto simp: new_dotnet_def new_golang_def new_ruby_def)
  next
    case 3
    then show ?thesis using nj by (intro java) (simp_all add: new_java_def java_name_def)
  next
    case 4
    then show ?thesis by (intro nodejs) (simp_all add: new_nodejs_def)
  next
    case 5
    then show ?thesis by (intro python) (simp_all add: new_python_def)
  qed
qed

text \<open>Two processors never ask for different values of one variable.\<close>

definition export_value :: "strmap \<Rightarrow> string \<Rightarrow> string" where
  "export_value facts k = (if k = env_node_extra_ca_certs
     then trim_space (fact_or_empty facts fact_individual_ca_path) else preferred_ca_bundle_path (Some facts))"

lemma map_of_ca_exports: "map_of (ca_exports facts n) k = Some v \<Longrightarrow> v = export_value facts k"
  using lang_env_distinct
  by (auto simp: ca_exports_def export_value_def Let_def split: if_splits)

text \<open>One turn of the wrapper's loop sets exactly the variables of the reference.\<close>

lemma wrapper_method_exports:
  assumes facts: "cx_facts ctx = Some facts" and p: "p \<in> set (all_processors C)"
    and w: "p_apply_wrapper p = Some w" and k: "k \<in> set bundle_variables"
  shows "cx_facts (snd (w ctx)) = Some facts \<and>
    get_value (cx_env (snd (w ctx))) k = exported (ca_exports facts (p_name p)) (cx_env ctx) k"
proof -
  have ca: "env_ssl_cert_file \<in> set ca_variables" "env_requests_ca_bundle \<in> set ca_variables"
    "env_node_extra_ca_certs \<in> set ca_variables" "env_java_tool_options \<in> set ca_variables"
    by (simp_all add: ca_variables_def)
  have ne: "env_ssl_cert_file \<noteq> env_requests_ca_bundle" "env_ssl_cert_file \<noteq> env_node_extra_ca_certs"
    "env_requests_ca_bundle \<noteq> env_node_extra_ca_certs"
    using lang_env_distinct by simp_all
  note kk = bundle_variables_keys [OF k]
  note up = get_upsert_ca [OF ca(1), of k] get_upsert_ca [OF ca(2), of k] get_upsert_ca [OF ca(3), of k] get_upsert_ca [OF ca(4), of k]
  from p show ?thesis
  proof (cases rule: all_processors_wrapper)
    case none
    then show ?thesis using w by simp
  next
    case ssl
    then have "ca_exports facts (p_name p) = filter (\<lambda>(k, v). v \<noteq> []) [(env_ssl_cert_file, preferred_ca_bundle_path (Some facts))]"
      by (simp add: ca_exports_def)
    then show ?thesis using w ssl(1) facts up(1) kk by (simp add: ssl_cert_file_wrapper_def exported_def Let_def)
  next
    case java
    then show ?thesis using w facts up(4) kk ca_exports_other [OF java(2)]
      by (simp add: java_apply_wrapper_def exported_def Let_def)
  next
    case python
    have "ca_exports facts (p_name p) = filter (\<lambda>(k, v). v \<noteq> [])
        [(env_ssl_cert_file, preferred_ca_bundle_path (Some facts)), (env_requests_ca_bundle, preferred_ca_bundle_path (Some facts))]"
      using python(2) by (simp add: ca_exports_def Let_def)
    then show ?thesis using w python(1) facts up(1,2) kk ne by (simp add: python_apply_wrapper_def exported_def Let_def)
  next
    case nodejs
    have "ca_exports facts (p_name p) = filter (\<lambda>(k, v). v \<noteq> [])
        [(env_node_extra_ca_certs, trim_space (fact_or_empty facts fact_individual_ca_path))]"
      using nodejs(2) by (simp add: ca_exports_def)
    then show ?thesis using w nodejs(1) facts up(3) kk
      by (simp add: nodejs_apply_wrapper_def exported_def Let_def fact_or_empty_def get_upsert_same split: option.split)
  qed
qed

section \<open>The loop\<close>

lemma wrap_one_exports:
  assumes rg: "register_all (all_processors C) empty_registry = Inr rg" and facts: "cx_facts ctx = Some facts"
    and k: "k \<in> set bundle_variables"
  shows "cx_facts (wrap_one rg d ctx) = Some facts \<and> get_value (cx_env (wrap_one rg d ctx)) k =
    exported (if dp_applicable d then ca_exports facts (name_key (dp_name d)) else []) (cx_env ctx) k"
proof (cases "by_name rg (dp_name d)")
  case None
  have "name_key (dp_name d) \<notin> set exporting"
  proof
    assume "name_key (dp_name d) \<in> set exporting"
    then have "name_key (dp_name d) \<in> set processor_names" by (auto simp: exporting_def processor_names_def)
    then obtain p where "p \<in> set (all_processors C)" "p_name p = name_key (dp_name d)"
      unfolding all_processors_names [of C, symmetric] by auto
    then show False using None by_name_iff [OF rg, of "dp_name d" p] by simp
  qed
  then show ?thesis using None facts by (simp add: wrap_one_def exported_def ca_exports_other)
next
  case (Some p)
  then have p: "p \<in> set (all_processors C)" "p_name p = name_key (dp_name d)"
    using by_name_iff [OF rg] by simp_all
  show ?thesis
  proof (cases "p_apply_wrapper p")
    case None
    have "name_key (dp_name d) \<notin> set exporting"
      using p(1) by (cases rule: all_processors_wrapper) (use None p(2) in simp_all)
    then show ?thesis using None Some facts by (simp add: wrap_one_def exported_def ca_exports_other)
  next
    case w: (Some w)
    show ?thesis using wrapper_method_exports [OF facts p(1) w k] Some w p(2) facts
      by (simp add: wrap_one_def exported_def)
  qed
qed

lemma map_of_exports_of: "map_of (exports_of facts ds) k = Some v \<Longrightarrow> v = export_value facts k"
proof -
  assume "map_of (exports_of facts ds) k = Some v"
  then have "(k, v) \<in> set (exports_of facts ds)" by (rule map_of_SomeD)
  then obtain n where n: "(k, v) \<in> set (ca_exports facts n)" by (auto simp: exports_of_def)
  then show ?thesis using lang_env_distinct
    by (auto simp: ca_exports_def export_value_def Let_def split: if_splits)
qed

lemma wrap_fold_exports:
  assumes rg: "register_all (all_processors C) empty_registry = Inr rg" and k: "k \<in> set bundle_variables"
  shows "cx_facts ctx = Some facts \<Longrightarrow>
    get_value (cx_env (fold (wrap_one rg) ds ctx)) k = exported (exports_of facts ds) (cx_env ctx) k"
proof (induction ds arbitrary: ctx)
  case (Cons d ds)
  note one = wrap_one_exports [OF rg Cons.prems k, of d]
  have "get_value (cx_env (fold (wrap_one rg) (d # ds) ctx)) k =
      exported (exports_of facts ds) (cx_env (wrap_one rg d ctx)) k"
    using Cons.IH one by simp
  then show ?case
    using one map_of_exports_of [of facts ds k] map_of_ca_exports [of facts "name_key (dp_name d)" k]
    by (auto simp: exported_def exports_of_def map_add_def split: option.splits)
qed (simp add: exported_def exports_of_def)

section \<open>Setting the variables\<close>

text \<open>\<open>os.Setenv\<close> refuses a NUL byte, which no environment of a process holds.\<close>

definition nul_free :: "string \<Rightarrow> bool" where
  "nul_free s = (CHR 0x00 \<notin> set s)"

lemma nul_free_trim [simp]: "nul_free s \<Longrightarrow> nul_free (trim_space s)"
proof -
  obtain n where n: "trim_space s = take n (trim_left_seqs space_seqs s)"
    unfolding trim_space_def using trim_right_take by blast
  obtain m where m: "trim_left_seqs space_seqs s = drop m s" using trim_left_drop by blast
  show "nul_free s \<Longrightarrow> nul_free (trim_space s)"
    unfolding nul_free_def n m using set_take_subset [of n "drop m s"] set_drop_subset [of m s] by blast
qed

lemma nul_free_entry: "nul_free k \<Longrightarrow> nul_free v \<Longrightarrow> nul_free (env_entry k v)"
  by (simp add: nul_free_def env_entry_def)

lemma nul_free_get: "\<forall>e \<in> set es. nul_free e \<Longrightarrow> nul_free (get_value es k)"
  by (induction es) (auto simp: nul_free_def trim_prefix_def dest: in_set_dropD)

lemma nul_free_upsert:
  "\<forall>e \<in> set es. nul_free e \<Longrightarrow> nul_free k \<Longrightarrow> nul_free v \<Longrightarrow> \<forall>e \<in> set (upsert es k v). nul_free e"
  using upsert_entries nul_free_entry by blast

lemma nul_free_fact:
  "\<forall>k v. facts_get m k = Some v \<longrightarrow> nul_free v \<Longrightarrow> nul_free (fact_or_empty m k)"
  by (simp add: fact_or_empty_def nul_free_def split: option.split)

lemma ca_variables_nul_free: "k \<in> set ca_variables \<Longrightarrow> nul_free k"
proof -
  have "list_all nul_free ca_variables" by code_simp
  then show "k \<in> set ca_variables \<Longrightarrow> nul_free k" by (auto simp: list_all_iff)
qed

lemma wrapper_methods_nul_free:
  assumes facts: "cx_facts ctx = Some m" "\<forall>k v. facts_get m k = Some v \<longrightarrow> nul_free v"
    and env: "\<forall>e \<in> set (cx_env ctx). nul_free e"
  shows "\<forall>e \<in> set (cx_env (snd (ssl_cert_file_wrapper ctx))). nul_free e"
    "\<forall>e \<in> set (cx_env (snd (python_apply_wrapper ctx))). nul_free e"
    "\<forall>e \<in> set (cx_env (snd (nodejs_apply_wrapper ctx))). nul_free e"
    "\<forall>e \<in> set (cx_env (snd (java_apply_wrapper ctx))). nul_free e"
proof -
  have ca: "nul_free env_ssl_cert_file" "nul_free env_requests_ca_bundle"
    "nul_free env_node_extra_ca_certs" "nul_free env_java_tool_options"
    using ca_variables_nul_free by (simp_all add: ca_variables_def)
  have pr: "nul_free (preferred_ca_bundle_path (Some m))"
    using facts(2) nul_free_fact [OF facts(2)]
    by (auto simp: preferred_ca_bundle_path_def Let_def split: option.split)
  show "\<forall>e \<in> set (cx_env (snd (ssl_cert_file_wrapper ctx))). nul_free e"
    using nul_free_upsert [OF env ca(1) pr] env facts(1) by (simp add: ssl_cert_file_wrapper_def Let_def)
  show "\<forall>e \<in> set (cx_env (snd (python_apply_wrapper ctx))). nul_free e"
    using nul_free_upsert [OF nul_free_upsert [OF env ca(1) pr] ca(2) pr] env facts(1)
    by (simp add: python_apply_wrapper_def Let_def)
  show "\<forall>e \<in> set (cx_env (snd (nodejs_apply_wrapper ctx))). nul_free e"
  proof (cases "facts_get m fact_individual_ca_path")
    case (Some v)
    then have "nul_free (trim_space v)" using facts(2) by simp
    then show ?thesis
      using nul_free_upsert [OF env ca(3)] env facts(1) Some by (simp add: nodejs_apply_wrapper_def Let_def)
  qed (use env facts(1) in \<open>simp add: nodejs_apply_wrapper_def\<close>)
  have flags: "nul_free (java_flags a b)" if "nul_free a" "nul_free b" for a b
    using that by (simp add: java_flags_def nul_free_def)
  have ty: "nul_free (format_string FormatJKS)" by code_simp
  have sp: "nul_free (a @ '' '' @ b)" if "nul_free a" "nul_free b" for a b using that by (simp add: nul_free_def)
  show "\<forall>e \<in> set (cx_env (snd (java_apply_wrapper ctx))). nul_free e"
  proof (cases "trim_space (fact_or_empty m fact_java_trust_store_path) = []")
    case False
    define ty0 where "ty0 = fact_or_empty m fact_java_trust_store_type"
    define old where "old = get_value (cx_env ctx) env_java_tool_options"
    define fl where "fl = java_flags (fact_or_empty m fact_java_trust_store_path)
      (if trim_space ty0 = [] then format_string FormatJKS else ty0)"
    have eq: "cx_env (snd (java_apply_wrapper ctx)) =
        upsert (cx_env ctx) env_java_tool_options (if old \<noteq> [] then old @ '' '' @ fl else fl)"
      using False facts(1) by (simp add: java_apply_wrapper_def Let_def fl_def ty0_def old_def)
    have "nul_free fl"
      unfolding fl_def ty0_def using flags ty nul_free_fact [OF facts(2)] by simp
    moreover have "nul_free old" unfolding old_def by (rule nul_free_get [OF env])
    ultimately have "nul_free (if old \<noteq> [] then old @ '' '' @ fl else fl)" using sp by simp
    from nul_free_upsert [OF env ca(4) this] show ?thesis by (simp only: eq)
  qed (use env facts(1) in \<open>simp add: java_apply_wrapper_def\<close>)
qed

lemma wrap_one_nul_free:
  assumes rg: "register_all (all_processors C) empty_registry = Inr rg"
    and facts: "cx_facts ctx = Some m" "\<forall>k v. facts_get m k = Some v \<longrightarrow> nul_free v"
    and env: "\<forall>e \<in> set (cx_env ctx). nul_free e"
  shows "\<forall>e \<in> set (cx_env (wrap_one rg d ctx)). nul_free e"
proof (cases "by_name rg (dp_name d)")
  case (Some p)
  then have "p \<in> set (all_processors C)" using by_name_iff [OF rg] by simp
  then show ?thesis
    by (cases rule: all_processors_wrapper)
      (use Some env wrapper_methods_nul_free [OF facts env] in \<open>simp_all add: wrap_one_def\<close>)
qed (use env in \<open>simp add: wrap_one_def\<close>)

lemma wrap_fold_nul_free:
  assumes rg: "register_all (all_processors C) empty_registry = Inr rg"
    and nf: "\<forall>k v. facts_get m k = Some v \<longrightarrow> nul_free v"
  shows "cx_facts ctx = Some m \<Longrightarrow> \<forall>e \<in> set (cx_env ctx). nul_free e \<Longrightarrow>
    \<forall>e \<in> set (cx_env (fold (wrap_one rg) ds ctx)). nul_free e"
proof (induction ds arbitrary: ctx)
  case (Cons d ds)
  have "env_ssl_cert_file \<in> set bundle_variables" by (simp add: bundle_variables_def)
  then have "cx_facts (wrap_one rg d ctx) = Some m" using wrap_one_exports [OF rg Cons.prems(1)] by blast
  from Cons.IH [OF this wrap_one_nul_free [OF rg Cons.prems(1) nf Cons.prems(2)]] show ?case by simp
qed simp

lemma apply_context_env_total:
  "\<forall>e \<in> set es. nul_free e \<Longrightarrow> \<exists>env'. apply_context_env es env = (None, env')"
proof (induction es env rule: apply_context_env.induct)
  case (2 e es env)
  show ?case
  proof (cases "cut (CHR ''='') e")
    case (Some kv)
    then obtain k v where kv: "cut (CHR ''='') e = Some (k, v)" by (cases kv) auto
    show ?thesis
    proof (cases "trim_space k = []")
      case False
      then have "k \<noteq> []" by auto
      moreover have "e = k @ ''='' @ v" "CHR ''='' \<notin> set k" using kv by (simp_all add: cut_Some)
      ultimately have "os_setenv k v env = Inr (upsert env k v)"
        using 2(4) by (simp add: os_setenv_def nul_free_def)
      then show ?thesis using 2(3) [OF kv _ False] 2(4) kv False by simp
    qed (use 2 kv in simp)
  qed (use 2 in simp)
qed simp

section \<open>The variables of the command\<close>

lemma ca_exports_cong:
  assumes "map_of m = map_of m'"
  shows "ca_exports m = ca_exports m'"
proof -
  have f: "fact_or_empty m = fact_or_empty m'"
    using assms by (simp add: fact_or_empty_def [abs_def] facts_get_def)
  moreover have "preferred_ca_bundle_path (Some m) = preferred_ca_bundle_path (Some m')"
    using assms f by (simp add: preferred_ca_bundle_path_def facts_get_def Let_def)
  ultimately show ?thesis by (simp add: ca_exports_def [abs_def] Let_def cong: if_cong)
qed

lemma context_facts:
  "\<exists>m. cx_facts (to_hook_context st) = Some m \<and> map_of m = map_of (pc_facts (hs_context st))"
proof -
  have "facts_get (facts_from_snapshot (copy_into [] (rev (pc_facts (hs_context st))))) k =
      map_of (pc_facts (hs_context st)) k" for k
    by (simp add: facts.get_restore)
  then show ?thesis by (simp add: to_hook_context_def Let_def facts_get_def fun_eq_iff)
qed

lemma wrapper_env_exports:
  assumes rg: "register_all (all_processors C) empty_registry = Inr rg"
    and d: "distinct (env_keys environ)" and nf: "\<forall>e \<in> set environ. nul_free e"
    and facts: "\<forall>k v. map_of (pc_facts (hs_context st)) k = Some v \<longrightarrow> nul_free v"
  shows "\<exists>env. apply_context_env (cx_env (wrapper_context rg st environ)) environ = (None, env) \<and>
    (\<forall>k \<in> set bundle_variables. get_value env k =
       exported (exports_of (pc_facts (hs_context st)) (hs_detected st)) environ k)"
proof -
  let ?ctx0 = "(to_hook_context st)\<lparr>cx_env := environ\<rparr>"
  obtain m where m: "cx_facts (to_hook_context st) = Some m" "map_of m = map_of (pc_facts (hs_context st))"
    using context_facts by blast
  have mf: "\<forall>k v. facts_get m k = Some v \<longrightarrow> nul_free v"
    using facts by (simp add: facts_get_def m(2))
  have "\<forall>e \<in> set (cx_env (wrapper_context rg st environ)). nul_free e"
    unfolding wrapper_context_def by (rule wrap_fold_nul_free [OF rg mf]) (use m nf in simp_all)
  then obtain env where env: "apply_context_env (cx_env (wrapper_context rg st environ)) environ = (None, env)"
    using apply_context_env_total by blast
  have "exports_of m ds = exports_of (pc_facts (hs_context st)) ds" for ds
    by (simp add: exports_of_def ca_exports_cong [OF m(2)])
  then have fold: "get_value (cx_env (wrapper_context rg st environ)) k =
      exported (exports_of (pc_facts (hs_context st)) (hs_detected st)) environ k" if "k \<in> set bundle_variables" for k
    using wrap_fold_exports [OF rg that, of ?ctx0 m "hs_detected st"] m(1) by (simp add: wrapper_context_def)
  have rg': "default_registry C rg" using rg by (simp add: default_registry_def)
  have "get_value env k = get_value (cx_env (wrapper_context rg st environ)) k" if k: "k \<in> set bundle_variables" for k
  proof (cases "k \<in> set (env_keys (cx_env (wrapper_context rg st environ)))")
    case True
    then show ?thesis using wrapper_env(3) [OF rg' d env refl] bundle_variables_keys [OF k] by simp
  next
    case False
    have "env_safe environ (cx_env (wrapper_context rg st environ))"
      using wrap_fold_safe [OF rg', of ?ctx0] by (simp add: wrapper_context_def)
    then have "k \<notin> set (env_keys environ)" using False by (auto simp: env_safe_def)
    then show ?thesis
      using apply_context_env_unbound [OF _ False, of environ] env bundle_variables_keys [OF k] get_value_unbound False by simp
  qed
  then show ?thesis using env fold by auto
qed

lemma wrapper_run_exports:
  assumes rg: "register_all (all_processors C) empty_registry = Inr rg"
    and st: "hook_read J penv s = Inr st" and run: "wrapper_run J rg penv P s = Replaced argv0 args env"
    and d: "distinct (env_keys (pr_environ P))" and nf: "\<forall>e \<in> set (pr_environ P). nul_free e"
    and facts: "\<forall>k v. map_of (pc_facts (hs_context st)) k = Some v \<longrightarrow> nul_free v"
    and k: "k \<in> set bundle_variables"
  shows "get_value env k =
    exported (exports_of (pc_facts (hs_context st)) (hs_detected st)) (pr_environ P) k"
proof -
  obtain e where e: "apply_context_env (cx_env (wrapper_context rg st (pr_environ P))) (pr_environ P) = (None, e)"
      "get_value e k = exported (exports_of (pc_facts (hs_context st)) (hs_detected st)) (pr_environ P) k"
    using wrapper_env_exports [OF rg d nf facts] k by blast
  have "exec_with P e = Replaced argv0 args env"
    using st run e(1) by (simp add: wrapper_run_def Let_def split: if_splits)
  then have "env = e" by (simp add: exec_with_def split: sum.splits option.splits)
  then show ?thesis using e(2) by simp
qed

text \<open>
  C32: the wrapper computes its reference. With the state the hook left and no NUL byte in
  environment or facts, whenever it replaces itself the command finds in \<open>SSL_CERT_FILE\<close>,
  \<open>REQUESTS_CA_BUNDLE\<close> and \<open>NODE_EXTRA_CA_CERTS\<close> the value that the applicable processors
  stand for, and where none of them sets the variable, the value it had before.
\<close>

theorem wrapper_exports_exactly:
  assumes "register_all (all_processors C) empty_registry = Inr rg"
    and "hook_read J penv s = Inr st" and "wrapper_run J rg penv P s = Replaced argv0 args env"
    and "distinct (env_keys (pr_environ P))" and "\<forall>e \<in> set (pr_environ P). nul_free e"
    and "\<forall>(k, v) \<in> set (pc_facts (hs_context st)). nul_free v" and "k \<in> set bundle_variables"
  shows "get_value env k =
    exported (exports_of (pc_facts (hs_context st)) (hs_detected st)) (pr_environ P) k"
  by (rule wrapper_run_exports [OF assms(1-5) _ assms(7)]) (use assms(6) in \<open>auto dest: map_of_SomeD\<close>)

definition sample_read :: hook_state where
  "sample_read = (case hook_read sample_codec [] sample_container of Inr st \<Rightarrow> st | Inl _ \<Rightarrow> empty_state)"

theorem wrapper_exports_exactly_witness:
  "\<exists>argv0 args env. wrapper_run sample_codec sample_registry [] sample_process sample_container =
       Replaced argv0 args env \<and> get_value env env_ssl_cert_file = ''/m.pem'' \<and>
     get_value env env_node_extra_ca_certs = []"
proof -
  have r: "hook_read sample_codec [] sample_container = Inr sample_read" by code_simp
  have d: "distinct (env_keys (pr_environ sample_process))"
    "\<forall>e \<in> set (pr_environ sample_process). nul_free e"
    "\<forall>(k, v) \<in> set (pc_facts (hs_context sample_read)). nul_free v"
    "exported (exports_of (pc_facts (hs_context sample_read)) (hs_detected sample_read)) (pr_environ sample_process)
       env_ssl_cert_file = ''/m.pem''"
    "exported (exports_of (pc_facts (hs_context sample_read)) (hs_detected sample_read)) (pr_environ sample_process)
       env_node_extra_ca_certs = []"
    by code_simp+
  have k: "env_ssl_cert_file \<in> set bundle_variables" "env_node_extra_ca_certs \<in> set bundle_variables"
    by (simp_all add: bundle_variables_def)
  note e = wrapper_exports_exactly [OF sample_registry_ok r sample_wrapper_run d(1-3)]
  show ?thesis using e [OF k(1)] e [OF k(2)] d(4,5) sample_wrapper_run by metis
qed

end
