(* ===== verification/State_Trip.thy ===== *)
theory State_Trip
  imports Hook_Runs Wrapper_Exports
begin

text \<open>
  The trip of the hook's state from the host into the container: the hook writes it below the
  rootfs by resolved paths, the wrapper opens it by name inside the container, and what the
  processors found out on one side decides the variables on the other.
\<close>

section \<open>The state file\<close>

definition state_dir :: fpath where "state_dir = [''etc'', ''cainjekt'']"
definition state_file :: string where "state_file = ''hook-context.json''"
definition status_file :: string where "status_file = ''status.json''"

text \<open>No link stands in the way of the state and status files below \<open>root\<close>.\<close>

definition state_clear :: "fs \<Rightarrow> fpath \<Rightarrow> bool" where
  "state_clear s root = (\<forall>n \<in> {state_file, status_file}. clear (node_at s) root (state_dir @ [n]))"

lemma state_clear_step: "state_clear s root \<Longrightarrow> tree_op s s' \<Longrightarrow> wf_fs s \<Longrightarrow> state_clear s' root"
  using clear_cong [of "node_at s'" "node_at s"] by (auto simp: state_clear_def tree_op_def)

lemma state_paths:
  "hook_context_file = abs_path (state_dir @ [state_file])"
  "split_container_path hook_context_file = state_dir @ [state_file]"
  "split_container_path (path_join [path_dir (abs_path (state_dir @ [state_file])), ''status.json'']) =
     state_dir @ [status_file]"
  "valid_names (state_dir @ [state_file])" "valid_names (state_dir @ [status_file])"
  "\<not> has_prefix state_file ''.cainjekt-''"
  by code_simp+

lemma state_file_not_temp: "state_file \<noteq> temp_base k"
  by (simp add: state_file_def temp_base_def)

text \<open>A successful \<open>Write\<close> leaves the encoded state in the state file, and the status file that it
  writes afterwards does not overwrite it.\<close>

lemma hook_write_leaves_state:
  assumes ok: "root_ok s rootfs" and ne: "root_of rootfs \<noteq> []" and cl: "state_clear s (root_of rootfs)"
    and path: "context_file_path penv = hook_context_file"
    and run: "hook_write J penv rootfs st s = (Inr (), s')"
  obtains b mt where "enc_state J st = Inr b"
    and "node_at s' (root_of rootfs @ state_dir @ [state_file]) = Some (NReg (b @ [CHR 0x0A]) mt)"
proof -
  let ?q = "root_of rootfs @ state_dir @ [state_file]"
  have wf: "wf_fs s" and abs: "is_abs rootfs" using ok by (auto simp: root_ok_def)
  obtain b where b: "enc_state J st = Inr b" using run by (cases "enc_state J st") (auto simp: hook_write_def)
  obtain x s1 where w: "write_file rootfs hook_context_file (b @ [CHR 0x0A]) s = (x, s1)"
    by (cases "write_file rootfs hook_context_file (b @ [CHR 0x0A]) s")
  obtain r where x: "x = Inr r" using run b w by (cases x) (auto simp: hook_write_def path)
  have res: "resolve_symlinks s rootfs hook_context_file = Inr r"
    using w x by (auto simp: write_file_def Let_def split: sum.splits prod.splits)
  have r: "r = abs_path (state_dir @ [state_file])"
    using resolve_symlinks_no_links [OF ok _ res, unfolded state_paths(2)] cl by (simp add: state_clear_def)
  have c: "comps r = state_dir @ [state_file]" unfolding r by (rule comps_abs_path [OF state_paths(4)])
  have nr: "r \<noteq> [slash]" using c by auto
  obtain mt where n1: "node_at s1 ?q = Some (NReg (b @ [CHR 0x0A]) mt)"
    using write_file_Inr(2) [OF ok w [unfolded x] nr] c state_paths(6) by auto
  have t1: "tree_op s s1" using write_file_bounds [OF ok ne, of hook_context_file "b @ [CHR 0x0A]"] w by simp
  have ok1: "root_ok s1 rootfs" by (rule tree_op_root_ok [OF t1 ok])
  have cl1: "state_clear s1 (root_of rootfs)" by (rule state_clear_step [OF cl t1 wf])
  let ?sp = "path_join [path_dir (abs_path (state_dir @ [state_file])), ''status.json'']"
  have "path_in_rootfs rootfs r2 \<noteq> abs_path ?q" if "resolve_symlinks s1 rootfs ?sp = Inr r2" for r2
  proof -
    have "r2 = abs_path (state_dir @ [status_file])"
      using resolve_symlinks_no_links [OF ok1 _ that, unfolded state_paths(3)] cl1 by (simp add: state_clear_def)
    then have "path_in_rootfs rootfs r2 = abs_path (root_of rootfs @ state_dir @ [status_file])"
      using path_in_rootfs_abs_path [OF abs state_paths(5)] by simp
    moreover have "valid_names (root_of rootfs @ state_dir @ [status_file])" "valid_names ?q"
      using state_paths(4,5) by simp_all
    ultimately show ?thesis
      using abs_path_inj [of "root_of rootfs @ state_dir @ [status_file]" ?q]
      by (auto simp: state_file_def status_file_def)
  qed
  then have "node_at (snd (write_file rootfs ?sp data s1)) ?q = node_at s1 ?q" for data
    using write_file_keeps [OF ok1 ne, of ?q] n1 state_file_not_temp by simp
  then have "node_at s' ?q = node_at s1 ?q"
    using run b w x by (auto simp: hook_write_def path r split: sum.splits)
  then show thesis using that [OF b] n1 by simp
qed

text \<open>What a run of the hook that succeeds leaves behind.\<close>

lemma hook_run_leaves_state:
  assumes rg: "register_all (all_processors C) empty_registry = Inr rg"
    and inp: "hook_input J penv stdin (breadcrumb_now J penv breadcrumb_started s) = Some ctx"
    and rdy: "hook_ready rootfs D B penv ctx s" and cl: "state_clear s (root_of rootfs)"
    and path: "context_file_path penv = hook_context_file"
    and run: "hook_run J rg penv stdin s = (Inr (), s')"
    and procs: "run_processors penv (selected_processors rg penv ctx) ctx
      (breadcrumb_now J penv breadcrumb_started s) = (ds, ctx', u)"
  obtains b mt where "enc_state J (new_state_from_context ctx' ds) = Inr b"
    and "node_at s' (root_of rootfs @ state_dir @ [state_file]) = Some (NReg (b @ [CHR 0x0A]) mt)"
    and "wf_fs s'"
proof -
  let ?q = "root_of rootfs @ state_dir @ [state_file]"
  define s1 where "s1 = breadcrumb_now J penv breadcrumb_started s"
  have rg': "default_registry C rg" using rg by (simp add: default_registry_def)
  have wf: "wf_fs s" using rdy by (simp add: hook_ready_def root_ok_def)
  have t1: "tree_op s s1" unfolding s1_def breadcrumb_now_def using breadcrumb_ok(2) [OF rdy] by simp
  have rdy1: "hook_ready rootfs D B penv ctx s1" by (rule hook_ready_step [OF rdy t1]) simp_all
  have p: "run_processors penv (selected_processors rg penv ctx) ctx s1 = (ds, ctx', u)"
    using procs by (simp add: s1_def)
  note ran = run_processors_ok [OF rg' rdy1 p]
  have tu: "tree_op s u" using tree_op_trans [OF t1] ran by blast
  have rdyu: "hook_ready rootfs D B penv ctx' u" using ran by blast
  then have oku: "root_ok u rootfs" "root_of rootfs \<noteq> []" "cx_rootfs ctx' = rootfs" by (simp_all add: hook_ready_def)
  have body: "hook_body J rg penv ctx s1 = (Inr (), s')"
    using run inp by (auto simp: hook_run_def hook_input_def Let_def s1_def split: if_splits sum.splits)
  obtain r w where w: "hook_write J penv rootfs (new_state_from_context ctx' ds) u = (r, w)"
    by (cases "hook_write J penv rootfs (new_state_from_context ctx' ds) u")
  have r: "r = Inr ()" and s': "s' = breadcrumb_now J penv breadcrumb_done w"
    using body p w oku(3) by (auto simp: hook_body_def persist_wrapper_context_def split: sum.splits)
  obtain b mt where b: "enc_state J (new_state_from_context ctx' ds) = Inr b"
      and n: "node_at w ?q = Some (NReg (b @ [CHR 0x0A]) mt)"
    using hook_write_leaves_state [OF oku(1,2) state_clear_step [OF cl tu wf] path w [unfolded r]] .
  have io: "io_ok rootfs D u w" using hook_write_ok [OF oku(1,2), of D J penv "new_state_from_context ctx' ds"] w by simp
  then have rdyw: "hook_ready rootfs D B penv ctx' w"
    by (intro hook_ready_step [OF rdyu]) (simp_all add: io_ok_def)
  have "?q \<notin> {B @ [breadcrumb_done]}" by (auto simp: state_file_def breadcrumb_done_def)
  from changes_only_node [OF breadcrumb_only [OF rdyw] this]
  have "node_at s' ?q = node_at w ?q" by (simp add: s' breadcrumb_now_def)
  moreover have "tree_op w s'" unfolding s' breadcrumb_now_def using breadcrumb_ok(2) [OF rdyw] by simp
  then have "wf_fs s'" using rdyw by (simp add: tree_op_def hook_ready_def root_ok_def)
  ultimately show thesis using that b n by simp
qed

section \<open>Inside the container\<close>

text \<open>The container sees the subtree below \<open>root\<close> as its own file system.\<close>

definition container_view :: "fs \<Rightarrow> fpath \<Rightarrow> fs \<Rightarrow> bool" where
  "container_view s root c = ((\<forall>q. node_at c q = node_at s (root @ q)) \<and> (\<forall>call p. fs_faults c call p = None))"

lemma container_reads:
  assumes v: "container_view s root c" and wf: "wf_fs s" and d: "valid_names (d @ [n])"
    and f: "node_at s (root @ d @ [n]) = Some (NReg b mt)"
  shows "os_read_file c (abs_path (d @ [n])) = Inr b"
proof -
  have node: "node_at c q = node_at s (root @ q)" and nf: "fs_faults c call p = None" for q call p
    using v by (simp_all add: container_view_def)
  have "is_dir (node_at c p)" if p: "prefix p d" for p
  proof -
    obtain e where "d = p @ e" using p by (auto simp: prefix_def)
    then have "node_at s ((root @ p) @ (e @ [n])) \<noteq> None" using f by simp
    then show ?thesis using wf_tree_prefix_dir [of "node_at s" "root @ p" "e @ [n]"] wf node by (simp add: wf_fs_def)
  qed
  then have "real_dir (node_at c) d" using d by (simp add: real_dir_def)
  moreover have "node_at c (d @ [n]) = Some (NReg b mt)" using f by (simp add: node)
  ultimately have "host_walk c True (abs_path (d @ [n])) = Inr (d @ [n])"
    using host_walk_not_link [of c d n True] d by simp
  then show ?thesis
    using nf f by (simp add: os_read_file_def sys_open_read_def sys_read_def node)
qed

text \<open>What the wrapper reads is the state the hook wrote, facts and annotations copied.\<close>

lemma hook_read_state:
  assumes v: "container_view s root c" and wf: "wf_fs s" and path: "context_file_path penv = hook_context_file"
    and f: "node_at s (root @ state_dir @ [state_file]) = Some (NReg b mt)" and dec: "dec_state J b = Inr st"
  obtains st' where "hook_read J penv c = Inr st'" and "hs_detected st' = hs_detected st"
    and "map_of (pc_facts (hs_context st')) = map_of (pc_facts (hs_context st))"
proof -
  have "os_read_file c hook_context_file = Inr b"
    unfolding state_paths(1) by (rule container_reads [OF v wf state_paths(4) f])
  then show thesis using that dec by (simp add: hook_read_def path Let_def)
qed

lemma exports_of_cong: "map_of m = map_of m' \<Longrightarrow> exports_of m ds = exports_of m' ds"
  using ca_exports_cong [of m m'] by (simp add: exports_of_def)

section \<open>From the hook's processors to the command's environment\<close>

text \<open>
  C33: the whole trip. Let a run of the hook succeed on a rootfs in which no link stands in the
  way of the two state files, and let the container later see that rootfs as its file system.
  If the codec decodes the state it encoded, then the command that the wrapper executes finds
  in each of the bundle variables what the facts and detections of the hook's run stand for,
  and the container's own value where they stand for none.
\<close>

theorem hook_reaches_command:
  assumes "register_all (all_processors C) empty_registry = Inr rg"
    and "hook_input J penv stdin (breadcrumb_now J penv breadcrumb_started s) = Some ctx"
    and "hook_ready rootfs D B penv ctx s" and "state_clear s (root_of rootfs)"
    and "context_file_path penv = hook_context_file" and "context_file_path wenv = hook_context_file"
    and "run_processors penv (selected_processors rg penv ctx) ctx
      (breadcrumb_now J penv breadcrumb_started s) = (ds, ctx', u)"
    and "st = new_state_from_context ctx' ds"
    and "\<forall>b. enc_state J st = Inr b \<longrightarrow> dec_state J (b @ [CHR 0x0A]) = Inr st"
    and "hook_run J rg penv stdin s = (Inr (), s')" and "container_view s' (root_of rootfs) c"
    and "distinct (env_keys (pr_environ P))" and "\<forall>e \<in> set (pr_environ P). nul_free e"
    and "\<forall>k v. map_of (pc_facts (hs_context st)) k = Some v \<longrightarrow> nul_free v"
    and "wrapper_run J rg wenv P c = Replaced argv0 args env" and "k \<in> set bundle_variables"
  shows "get_value env k = exported (exports_of (pc_facts (hs_context st)) ds) (pr_environ P) k"
proof -
  obtain b mt where b: "enc_state J st = Inr b" "wf_fs s'"
      and n: "node_at s' (root_of rootfs @ state_dir @ [state_file]) = Some (NReg (b @ [CHR 0x0A]) mt)"
    using hook_run_leaves_state [OF assms(1-5,10,7)] assms(8) by metis
  obtain st' where r: "hook_read J wenv c = Inr st'" and st': "hs_detected st' = hs_detected st"
      "map_of (pc_facts (hs_context st')) = map_of (pc_facts (hs_context st))"
    using hook_read_state [OF assms(11) b(2) assms(6) n assms(9) [rule_format, OF b(1)]] .
  have "get_value env k = exported (exports_of (pc_facts (hs_context st')) (hs_detected st')) (pr_environ P) k"
    by (rule wrapper_run_exports [OF assms(1) r assms(15,12,13) _ assms(16)]) (use assms(14) st'(2) in simp)
  then show ?thesis using exports_of_cong [OF st'(2)] st'(1) assms(8) by (simp add: new_state_from_context_def)
qed

text \<open>A container with Ruby whose annotations select the Ruby processor alone. Without a trust store
  there are no facts, so the variable keeps the container's own value.\<close>

definition trip_tree :: tree where
  "trip_tree = [([], dir_node), ([''b''], dir_node), ([''b'', ''config.json''], file_node ''spec''),
     ([''s''], dir_node), ([''s'', ''ca-bundle.pem''], file_node ''PA.''), ([''r''], dir_node),
     ([''r'', ''bin''], dir_node), ([''r'', ''bin'', ''ruby''], file_node ''x'')]"

definition trip_annotations :: strmap where
  "trip_annotations = [(''cainjekt.natron.io/processors.include'', ''lang-ruby'')]"

definition trip_state :: hook_state where
  "trip_state = \<lparr>hs_context = \<lparr>pc_mode = ''createruntime'', pc_bundle = ''/b'', pc_annotations = trip_annotations,
      pc_ca_file = ''/s/ca-bundle.pem'', pc_fail_policy = ''fail-open'', pc_facts = []\<rparr>,
     hs_detected = [\<lparr>dp_name = ''lang-ruby'', dp_category = ''language'', dp_applicable = True,
       dp_priority = 100, dp_reason = []\<rparr>]\<rparr>"

definition trip_codec :: codec where
  "trip_codec = sample_codec\<lparr>dec_state := (\<lambda>b. Inr trip_state),
     dec_oci_state := (\<lambda>b. Inr \<lparr>oci_version = ''1.0'', oci_id = ''c1'', oci_status = ''created'', oci_pid = 1,
       oci_bundle = ''/b'', oci_annotations = Some trip_annotations\<rparr>)\<rparr>"

definition trip_start :: fs where
  "trip_start = breadcrumb_now trip_codec host_env breadcrumb_started (fs_of trip_tree)"

definition trip_ctx :: hctx where
  "trip_ctx = (case hook_input trip_codec host_env (Inr ''stdin'') trip_start of Some ctx \<Rightarrow> ctx | None \<Rightarrow> broken_ctx)"

definition trip_ran :: "detected_processor list \<times> hctx \<times> fs" where
  "trip_ran = run_processors host_env (selected_processors sample_registry host_env trip_ctx) trip_ctx trip_start"

definition trip_out :: "unit res \<times> fs" where
  "trip_out = hook_run trip_codec sample_registry host_env (Inr ''stdin'') (fs_of trip_tree)"

definition own_process :: process where
  "own_process = sample_process\<lparr>pr_environ := [''SSL_CERT_FILE=/own.pem'']\<rparr>"

lemma trip_input: "hook_input trip_codec host_env (Inr ''stdin'') trip_start = Some trip_ctx"
  by code_simp

lemma trip_paths: "cx_rootfs trip_ctx = ''/r'' \<and> path_dir (cx_ca_file trip_ctx) = ''/s''"
  by code_simp

lemma trip_new_state: "new_state_from_context (fst (snd trip_ran)) (fst trip_ran) = trip_state"
  by code_simp

lemma trip_succeeds: "fst trip_out = Inr ()"
  by code_simp

lemma trip_ready: "hook_ready ''/r'' [''s''] [''s''] host_env trip_ctx (fs_of trip_tree)"
proof -
  have wf: "wf_tree_check trip_tree" by code_simp
  have e: "getenv host_env env_breadcrumb_dir = ''/s''" "abs_path [''s''] = ''/s''" "root_of ''/r'' = [''r'']"
    "is_abs ''/r''" "is_dir (map_of trip_tree [''s''])" "is_dir (map_of trip_tree [''r''])"
    "list_all (\<lambda>q. \<not> is_link (map_of trip_tree q)) [[''s'', breadcrumb_started], [''s'', breadcrumb_progress], [''s'', breadcrumb_done]]"
    by code_simp+
  have "\<forall>q \<in> crumb_area [''s'']. \<not> is_link (map_of trip_tree q)"
    using e(7) by (auto simp: crumb_area_def)
  then show ?thesis
    using e(1-6) trip_paths wf_fs_of [OF wf] real_dir_fs_of [OF wf]
    by (simp add: hook_ready_def root_ok_def)
qed

text \<open>The subtree of a file system as one of its own.\<close>

definition subtree :: "fpath \<Rightarrow> fs \<Rightarrow> fs" where
  "subtree root s = s\<lparr>fs_nodes := map (\<lambda>(p, n). (drop (length root) p, n)) (filter (\<lambda>(p, n). prefix root p) (fs_nodes s)),
     fs_faults := (\<lambda>call p. None)\<rparr>"

lemma subtree_view: "container_view s root (subtree root s)"
proof -
  have "map_of (map (\<lambda>(p, n). (drop (length root) p, n)) (filter (\<lambda>(p, n). prefix root p) ns)) q =
      map_of ns (root @ q)" for ns :: tree and q
  proof (induction ns)
    case (Cons x ns)
    then show ?case by (cases x; cases "prefix root (fst x)") (auto simp: prefix_def)
  qed simp
  then show ?thesis by (simp add: container_view_def subtree_def node_at_def)
qed

theorem hook_reaches_command_witness:
  "\<exists>argv0 args env. wrapper_run trip_codec sample_registry [] own_process (subtree [''r''] (snd trip_out)) =
     Replaced argv0 args env \<and> get_value env env_ssl_cert_file = ''/own.pem''"
proof -
  obtain ds ctx' u where ran: "trip_ran = (ds, ctx', u)" by (cases trip_ran)
  have st: "trip_state = new_state_from_context ctx' ds" using trip_new_state by (simp add: ran)
  have ds: "ds = hs_detected trip_state" by (subst st) (simp add: new_state_from_context_def)
  have root: "root_of ''/r'' = [''r'']" by code_simp
  have "\<not> is_link (map_of trip_tree q)" for q
    by (auto simp: trip_tree_def dir_node_def file_node_def)
  then have cl: "state_clear (fs_of trip_tree) (root_of ''/r'')"
    by (simp add: state_clear_def clear_def)
  have paths: "context_file_path host_env = hook_context_file" "context_file_path [] = hook_context_file" by code_simp+
  have out: "hook_run trip_codec sample_registry host_env (Inr ''stdin'') (fs_of trip_tree) = (Inr (), snd trip_out)"
    using trip_succeeds by (simp add: trip_out_def prod_eq_iff)
  have env: "distinct (env_keys (pr_environ own_process))" "\<forall>e \<in> set (pr_environ own_process). nul_free e"
    "exported (exports_of (pc_facts (hs_context trip_state)) (hs_detected trip_state)) (pr_environ own_process)
       env_ssl_cert_file = ''/own.pem''" by code_simp+
  have nf: "\<forall>k v. map_of (pc_facts (hs_context trip_state)) k = Some v \<longrightarrow> nul_free v" by (simp add: trip_state_def)
  have dec: "\<forall>b. enc_state trip_codec trip_state = Inr b \<longrightarrow> dec_state trip_codec (b @ [CHR 0x0A]) = Inr trip_state"
    by (simp add: trip_codec_def)
  have k: "env_ssl_cert_file \<in> set bundle_variables" by (simp add: bundle_variables_def)
  have "resolve_command own_process = Inr ''/app''" by code_simp
  then have "\<exists>env. exec_with own_process e = Replaced ''/app'' (tl (pr_args own_process)) env" for e
    by (simp add: exec_with_def own_process_def sample_process_def)
  moreover have "\<not> length (pr_args own_process) < 2" by code_simp
  then have "\<exists>e. wrapper_run trip_codec sample_registry [] own_process (subtree [''r''] (snd trip_out)) = exec_with own_process e"
    by (auto simp: wrapper_run_def exec_original_def exec_with_environ Let_def split: sum.split prod.split option.split)
  ultimately obtain argv0 args env where w: "wrapper_run trip_codec sample_registry [] own_process
      (subtree [''r''] (snd trip_out)) = Replaced argv0 args env"
    by metis
  show ?thesis
    using hook_reaches_command [OF sample_registry_ok trip_input [unfolded trip_start_def] trip_ready cl paths
        ran [unfolded trip_ran_def trip_start_def] st dec out _ env(1,2) nf w k] subtree_view [of "snd trip_out" "[''r'']"]
      env(3) ds w root by auto
qed

end
