(* ===== verification/Os_Trust.thy ===== *)
theory Os_Trust
  imports Hook_Correct
begin

text \<open>
  What the trust store processors achieve: after an injection in place the distribution's store
  trusts exactly what it trusted before and the CA bundle, the facts point to it, and the
  processors that run later leave it alone.
\<close>

section \<open>The store\<close>

definition store_bytes :: "fs \<Rightarrow> fpath \<Rightarrow> bytes" where
  "store_bytes s q = (case node_at s q of Some (NReg b mt) \<Rightarrow> b | _ \<Rightarrow> [])"

text \<open>A target of \<open>detectTrustStorePath\<close>: a resolved path below the root that no trimming changes and
  that is no temporary file.\<close>

definition plain_target :: "string \<Rightarrow> fpath \<Rightarrow> string \<Rightarrow> bool" where
  "plain_target target d n = (target = abs_path (d @ [n]) \<and> valid_names (d @ [n]) \<and>
     trim_space target = target \<and> \<not> has_prefix n ''.cainjekt-'')"

lemma plain_target_split: "plain_target target d n \<Longrightarrow> split_container_path target = d @ [n]"
  using split_container_path_abs_path [of "d @ [n]"] by (auto simp: plain_target_def)

lemma plain_not_temp: "plain_target target d n \<Longrightarrow> n \<noteq> temp_base k" "plain_target target d n \<Longrightarrow> n \<noteq> probe_name"
  by (auto simp: plain_target_def temp_base_def probe_name_def has_prefix_def)

lemma plain_resolves:
  assumes "plain_target target d n" and "root_ok s rootfs" and "clear (node_at s) (root_of rootfs) (d @ [n])"
    and "resolve_symlinks s rootfs target = Inr r"
  shows "r = abs_path (d @ [n])" and "comps r = d @ [n]" and "r \<noteq> [slash]"
proof -
  show r: "r = abs_path (d @ [n])"
    using resolve_symlinks_no_links [OF assms(2) _ assms(4)] assms(3) plain_target_split [OF assms(1)] by simp
  show c: "comps r = d @ [n]" using assms(1) unfolding r by (intro comps_abs_path) (simp add: plain_target_def)
  show "r \<noteq> [slash]" using c by auto
qed

lemma os_current_store_bytes:
  assumes pt: "plain_target target d n" and ok: "root_ok s rootfs"
    and cl: "clear (node_at s) (root_of rootfs) (d @ [n])" and run: "os_current_store s rootfs target = Inr b"
  shows "b = store_bytes s (root_of rootfs @ d @ [n])"
proof (cases "fst (read_file s rootfs target)")
  case (Inl e)
  then have "is_not_exist e" "b = []" using run by (auto simp: os_current_store_def split: if_splits)
  moreover have "node_at s (root_of rootfs @ d @ [n]) = None"
    using read_file_missing [OF ok _ cl plain_target_split [OF pt] Inl] pt \<open>is_not_exist e\<close>
    by (simp add: plain_target_def)
  ultimately show ?thesis by (simp add: store_bytes_def)
next
  case (Inr x)
  then obtain r where rd: "read_file s rootfs target = (Inr b, r)"
    using run by (cases "read_file s rootfs target") (auto simp: os_current_store_def)
  note f = read_file_Inr [OF ok rd]
  then have "comps r = d @ [n]" using plain_resolves(2) [OF pt ok cl] by blast
  then show ?thesis using f by (auto simp: store_bytes_def)
qed

text \<open>A write to the store or elsewhere: the store then holds the data, or what it held.\<close>

lemma write_file_store:
  assumes pt: "plain_target target d n" and ok: "root_ok s rootfs" and ne: "root_of rootfs \<noteq> []"
    and run: "write_file rootfs cp data s = (Inr r, s')"
    and q: "node_at s (root_of rootfs @ d @ [n]) \<noteq> None \<or> r = abs_path (d @ [n])"
  shows "store_bytes s' (root_of rootfs @ d @ [n]) =
    (if r = abs_path (d @ [n]) then data else store_bytes s (root_of rootfs @ d @ [n])) \<and>
    node_at s' (root_of rootfs @ d @ [n]) \<noteq> None"
proof (cases "r = abs_path (d @ [n])")
  case True
  have v: "valid_names (d @ [n])" using pt by (simp add: plain_target_def)
  have c: "comps r = d @ [n]" unfolding True by (rule comps_abs_path [OF v])
  then have "r \<noteq> [slash]" by auto
  then obtain mt where "node_at s' (root_of rootfs @ d @ [n]) = Some (NReg data mt)"
    using write_file_Inr(2) [OF ok run] c pt by (auto simp: plain_target_def)
  then show ?thesis using True by (simp add: store_bytes_def)
next
  case False
  have res: "resolve_symlinks s rootfs cp = Inr r"
    using run by (auto simp: write_file_def Let_def split: sum.splits prod.splits)
  obtain ns where ns: "r = abs_path ns" "valid_names ns" "path_in_rootfs rootfs r = abs_path (root_of rootfs @ ns)"
    using resolve_clear [OF ok res] by metis
  have v: "valid_names (root_of rootfs @ d @ [n])" "valid_names (root_of rootfs @ ns)"
    using pt ns(2) by (simp_all add: plain_target_def)
  have "abs_path (root_of rootfs @ ns) \<noteq> abs_path (root_of rootfs @ d @ [n])"
    using abs_path_inj [OF v(2,1)] False ns(1) by auto
  then have other: "path_in_rootfs rootfs r' \<noteq> abs_path (root_of rootfs @ d @ [n])"
    if "resolve_symlinks s rootfs cp = Inr r'" for r'
    using that res ns(3) by simp
  have "node_at s (root_of rootfs @ d @ [n]) \<noteq> None" using q False by simp
  moreover from write_file_keeps [where cp = cp and data = data, OF ok ne this _ other] plain_not_temp(1) [OF pt] run
  have "node_at s' (root_of rootfs @ d @ [n]) = node_at s (root_of rootfs @ d @ [n])" by simp
  ultimately show ?thesis using False by (simp add: store_bytes_def)
qed

lemma os_write_store_bytes:
  assumes pt: "plain_target target d n" and ok: "root_ok s rootfs" and ne: "root_of rootfs \<noteq> []"
    and cl: "clear (node_at s) (root_of rootfs) (d @ [n])"
    and run: "os_write_store p rootfs target m s = (Inr (), s')"
  shows "if mr_added m = 0 then s' = s else store_bytes s' (root_of rootfs @ d @ [n]) = mr_merged m \<and>
    node_at s' (root_of rootfs @ d @ [n]) \<noteq> None"
proof (cases "mr_added m = 0")
  case True
  then show ?thesis using run by (simp add: os_write_store_def)
next
  case False
  let ?q = "root_of rootfs @ d @ [n]"
  obtain x s1 where w: "write_file rootfs target (mr_merged m) s = (x, s1)"
    by (cases "write_file rootfs target (mr_merged m) s")
  obtain r where x: "x = Inr r" using run w False by (cases x) (auto simp: os_write_store_def)
  have res: "resolve_symlinks s rootfs target = Inr r"
    using w x by (auto simp: write_file_def Let_def split: sum.splits prod.splits)
  note r = plain_resolves [OF pt ok cl res]
  have b1: "store_bytes s1 ?q = mr_merged m"
    using write_file_store [OF pt ok ne w [unfolded x]] r(1) by simp
  have n1: "node_at s1 ?q \<noteq> None"
    using write_file_Inr(2) [OF ok w [unfolded x] r(3)] r(2) pt by (auto simp: plain_target_def)
  have ok1: "root_ok s1 rootfs"
    using write_file_bounds [OF ok ne, of target "mr_merged m"] w tree_op_root_ok [OF _ ok] by simp
  show ?thesis
  proof (cases "os_distro p = ''alpine''")
    case False
    then show ?thesis using run w x \<open>mr_added m \<noteq> 0\<close> b1 n1 by (simp add: os_write_store_def)
  next
    case True
    obtain y s2 where w2: "write_file rootfs ''/etc/ssl/cert.pem'' (mr_merged m) s1 = (y, s2)"
      by (cases "write_file rootfs ''/etc/ssl/cert.pem'' (mr_merged m) s1")
    obtain r2 where y: "y = Inr r2" and s2: "s' = s2"
      using run w x w2 False True by (cases y) (auto simp: os_write_store_def)
    have "store_bytes s2 ?q = mr_merged m \<and> node_at s2 ?q \<noteq> None"
      using write_file_store [OF pt ok1 ne w2 [unfolded y]] n1 b1 by simp
    then show ?thesis using False s2 by simp
  qed
qed

lemma write_individual_keeps:
  assumes pt: "plain_target target d n" and ok: "root_ok s rootfs" and ne: "root_of rootfs \<noteq> []"
    and anchor: "anchor = [] \<or> clear (node_at s) (root_of rootfs) (split_container_path (path_join [anchor, individual_ca_file_name])) \<and>
      split_container_path (path_join [anchor, individual_ca_file_name]) \<noteq> d @ [n]"
  shows "store_bytes (snd (write_individual_ca rootfs anchor content s)) (root_of rootfs @ d @ [n]) =
    store_bytes s (root_of rootfs @ d @ [n]) \<or> node_at s (root_of rootfs @ d @ [n]) = None"
proof (cases "anchor = [] \<or> node_at s (root_of rootfs @ d @ [n]) = None")
  case True
  then show ?thesis by (auto simp: write_individual_ca_def)
next
  case False
  let ?cp = "path_join [anchor, individual_ca_file_name]" and ?q = "root_of rootfs @ d @ [n]"
  have abs: "is_abs rootfs" using ok by (simp add: root_ok_def)
  have cl: "clear (node_at s) (root_of rootfs) (split_container_path ?cp)"
    and diff: "split_container_path ?cp \<noteq> d @ [n]" using anchor False by auto
  have "path_in_rootfs rootfs r \<noteq> abs_path ?q" if "resolve_symlinks s rootfs ?cp = Inr r" for r
  proof -
    have "path_in_rootfs rootfs r = abs_path (root_of rootfs @ split_container_path ?cp)"
      using resolve_symlinks_no_links [OF ok cl that] path_in_rootfs_abs_path [OF abs, of "split_container_path ?cp"]
      by simp
    moreover have "valid_names (root_of rootfs @ split_container_path ?cp)" "valid_names ?q"
      using pt by (simp_all add: plain_target_def)
    ultimately show ?thesis using diff abs_path_inj by auto
  qed
  from write_file_keeps [where cp = ?cp and data = content, OF ok ne _ _ this] False plain_not_temp(1) [OF pt]
  have "node_at (snd (write_file rootfs ?cp content s)) ?q = node_at s ?q" by simp
  then show ?thesis using False by (auto simp: write_individual_ca_def store_bytes_def split: prod.split sum.split)
qed

lemma detected_target_clear:
  assumes ok: "root_ok s rootfs" and det: "detect_trust_store_path s rootfs cs = Inr target"
    and pt: "plain_target target d n"
  shows "clear (node_at s) (root_of rootfs) (d @ [n])"
proof -
  have first: "\<exists>c. resolve_symlinks s rootfs c = Inr x" if "first_regular s rootfs cs = Some x" for x
    using that by (induction cs) (auto simp: regular_file_def Let_def split: prod.splits sum.splits if_splits)
  obtain c where res: "resolve_symlinks s rootfs c = Inr target"
    using det first by (auto simp: detect_trust_store_path_def split: option.splits if_splits)
  obtain ns where "target = abs_path ns" "valid_names ns" "clear (node_at s) (root_of rootfs) ns"
    using resolve_clear [OF ok res] by metis
  then show ?thesis using pt abs_path_inj [of ns "d @ [n]"] by (simp add: plain_target_def)
qed

section \<open>An injection in place\<close>

lemma os_apply_in_place_bytes:
  assumes pt: "plain_target target d n" and ok: "root_ok s (cx_rootfs ctx)" and ne: "root_of (cx_rootfs ctx) \<noteq> []"
    and cl: "clear (node_at s) (root_of (cx_rootfs ctx)) (d @ [n])"
    and anchor: "os_anchor_dir p = [] \<or>
      clear (node_at s) (root_of (cx_rootfs ctx)) (split_container_path (path_join [os_anchor_dir p, individual_ca_file_name])) \<and>
      split_container_path (path_join [os_anchor_dir p, individual_ca_file_name]) \<noteq> d @ [n]"
    and org: "trusted C org \<noteq> {}" and closed: "closed_bundle C (store_bytes s (root_of (cx_rootfs ctx) @ d @ [n]))"
    and codec: "\<forall>c \<in> set (bundle_certs C (parse_cert_pem_blocks C org)). encodes_back C c \<and> raw_reparses C c"
    and run: "os_apply_in_place C p target org ctx s = (Inr (), ctx', s')"
  shows "trusted C (store_bytes s' (root_of (cx_rootfs ctx) @ d @ [n])) =
      trusted C (store_bytes s (root_of (cx_rootfs ctx) @ d @ [n])) \<union> trusted C org"
    and "\<exists>individual. ctx' = os_record_facts p target individual ctx"
proof -
  let ?root = "cx_rootfs ctx" let ?q = "root_of ?root @ d @ [n]"
  obtain current m s1 where cur: "os_current_store s ?root target = Inr current"
    and mg: "merge_pem C current org = Inr m"
    and st: "os_write_store p ?root target m s = (Inr (), s1)"
    using run by (auto simp: os_apply_in_place_def split: sum.splits prod.splits)
  obtain x s2 where iw: "write_individual_ca ?root (os_anchor_dir p) org s1 = (x, s2)"
    by (cases "write_individual_ca ?root (os_anchor_dir p) org s1")
  have fin: "\<exists>individual. x = Inr individual \<and> ctx' = os_record_facts p target individual ctx \<and> s' = s2"
    using run cur mg st iw by (auto simp: os_apply_in_place_def split: sum.splits)
  then show "\<exists>individual. ctx' = os_record_facts p target individual ctx" by blast
  have c: "current = store_bytes s ?q" by (rule os_current_store_bytes [OF pt ok cl cur])
  have t: "trusted C (mr_merged m) = trusted C (store_bytes s ?q) \<union> trusted C org"
    using merge_pem_trusted [OF mg _ codec] closed by (simp add: c)
  note w = os_write_store_bytes [OF pt ok ne cl st]
  have s1: "store_bytes s1 ?q = mr_merged m \<and> node_at s1 ?q \<noteq> None"
  proof (cases "mr_added m = 0")
    case True
    then have "mr_merged m = current" using mg by (auto simp: merge_pem_def split: sum.splits if_splits)
    moreover have "node_at s ?q \<noteq> None"
    proof
      assume "node_at s ?q = None"
      then have "current = []" by (simp add: c store_bytes_def)
      then have "trusted C (mr_merged m) = {}"
        using \<open>mr_merged m = current\<close> by (simp add: trusted_def bundle_certs_def)
      then show False using t org by simp
    qed
    ultimately show ?thesis using w True c by simp
  qed (use w in simp)
  have ts: "tree_op s s1"
    using os_write_store_io_ok [OF ok ne st] by (simp add: io_ok_def)
  have ok1: "root_ok s1 ?root" by (rule tree_op_root_ok [OF ts ok])
  have wf: "wf_fs s" using ok by (simp add: root_ok_def)
  have anchor1: "os_anchor_dir p = [] \<or>
      clear (node_at s1) (root_of ?root) (split_container_path (path_join [os_anchor_dir p, individual_ca_file_name])) \<and>
      split_container_path (path_join [os_anchor_dir p, individual_ca_file_name]) \<noteq> d @ [n]"
    using anchor clear_cong [of "node_at s1" "node_at s"] ts wf by (auto simp: tree_op_def)
  have "store_bytes s' ?q = store_bytes s1 ?q"
    using write_individual_keeps [OF pt ok1 ne anchor1, of org] iw fin s1 by auto
  then show "trusted C (store_bytes s' ?q) = trusted C (store_bytes s ?q) \<union> trusted C org"
    using s1 t by simp
qed

text \<open>
  C36: an injection into a trust store does what it is for. When \<open>Apply\<close> succeeds on a writable
  rootfs whose store has not been configured yet, the store trusts exactly what it trusted
  before and the CA bundle, the preferred bundle that the language processors export is this
  store, and any further trust store processor, the fallback included, succeeds at once and
  changes nothing. The individual copy of the CA must not go through links, or it could
  overwrite the store.
\<close>

theorem os_apply_extends_trust:
  assumes "root_ok s (cx_rootfs ctx)" and "root_of (cx_rootfs ctx) \<noteq> []" and "cx_facts ctx = Some m"
    and "\<not> trust_store_configured (Some ctx)" and "read_ca_bundle ctx s = Inr org"
    and "detect_trust_store_path s (cx_rootfs ctx) (os_candidates p) = Inr target" and "plain_target target d n"
    and "fst (writable (cx_rootfs ctx) s)"
    and "os_anchor_dir p = [] \<or>
      clear (node_at s) (root_of (cx_rootfs ctx)) (split_container_path (path_join [os_anchor_dir p, individual_ca_file_name])) \<and>
      split_container_path (path_join [os_anchor_dir p, individual_ca_file_name]) \<noteq> d @ [n]"
    and "trusted C org \<noteq> {}" and "closed_bundle C (store_bytes s (root_of (cx_rootfs ctx) @ d @ [n]))"
    and "\<forall>c \<in> set (bundle_certs C (parse_cert_pem_blocks C org)). encodes_back C c \<and> raw_reparses C c"
    and "os_apply C p ctx s = (Inr (), ctx', s')"
  shows "trusted C (store_bytes s' (root_of (cx_rootfs ctx) @ d @ [n])) =
      trusted C (store_bytes s (root_of (cx_rootfs ctx) @ d @ [n])) \<union> trusted C org \<and>
    preferred_ca_bundle_path (cx_facts ctx') = target \<and>
    (\<forall>p2 u. os_apply C p2 ctx' u = (Inr (), ctx', u))"
proof -
  let ?root = "cx_rootfs ctx" let ?q = "root_of ?root @ d @ [n]"
  obtain s1 where w: "writable ?root s = (True, s1)" using assms(8) by (cases "writable ?root s") simp
  have run: "os_apply_in_place C p target org ctx s1 = (Inr (), ctx', s')"
    using assms(4,5,6,13) w by (simp add: os_apply_def)
  have t1: "tree_op s s1" using writable_bounds [OF assms(1)] w by simp
  have wf: "wf_fs s" using assms(1) by (simp add: root_ok_def)
  have ok1: "root_ok s1 ?root" by (rule tree_op_root_ok [OF t1 assms(1)])
  have links: "is_link (node_at s1 q) \<Longrightarrow> is_link (node_at s q)" for q using t1 wf by (simp add: tree_op_def)
  have cl1: "clear (node_at s1) (root_of ?root) (d @ [n])"
    using clear_cong [of "node_at s1" "node_at s"] links detected_target_clear [OF assms(1,6,7)] by blast
  have anchor1: "os_anchor_dir p = [] \<or>
      clear (node_at s1) (root_of ?root) (split_container_path (path_join [os_anchor_dir p, individual_ca_file_name])) \<and>
      split_container_path (path_join [os_anchor_dir p, individual_ca_file_name]) \<noteq> d @ [n]"
    using assms(9) clear_cong [of "node_at s1" "node_at s"] links by blast
  have "?q \<notin> {root_of ?root @ [probe_name]}" using plain_not_temp(2) [OF assms(7)] by auto
  from changes_only_node [OF writable_probe [OF assms(1)] this]
  have b: "store_bytes s1 ?q = store_bytes s ?q" using w by (simp add: store_bytes_def)
  note inj = os_apply_in_place_bytes [OF assms(7) ok1 assms(2) cl1 anchor1 assms(10) _ assms(12) run]
  obtain individual where ctx': "ctx' = os_record_facts p target individual ctx"
    using inj(2) assms(11) b by auto
  have tgt: "trim_space target = target" "target \<noteq> []" using assms(7) by (auto simp: plain_target_def abs_path_def)
  have get: "get_fact ctx' fact_merged_ca_path = Some target" "get_fact ctx' fact_trust_store_path = Some target"
    using assms(3) by (simp_all add: ctx' os_record_facts_def Let_def get_set_fact fact_defs del: not_None_eq)
  then obtain m' where m': "cx_facts ctx' = Some m'" "facts_get m' fact_merged_ca_path = Some target"
      "facts_get m' fact_trust_store_path = Some target"
    by (auto simp: get_fact_def split: option.splits)
  have "os_apply C p2 ctx' u = (Inr (), ctx', u)" for p2 u
    using m' tgt by (simp add: os_apply_def trust_store_configured_def)
  moreover have "preferred_ca_bundle_path (cx_facts ctx') = target"
    using preferred_merged [OF m'(2)] tgt m'(1) by simp
  ultimately show ?thesis using inj(1) assms(11) b by simp
qed

text \<open>A store that trusts B, a CA bundle with A, and the fallback processor.\<close>

definition store_tree :: tree where
  "store_tree = [([], dir_node), ([''s''], dir_node), ([''s'', ''ca-bundle.pem''], file_node ''PA.''), ([''r''], dir_node),
     ([''r'', ''etc''], dir_node), ([''r'', ''etc'', ''ssl''], dir_node), ([''r'', ''etc'', ''ssl'', ''certs''], dir_node),
     ([''r'', ''etc'', ''ssl'', ''certs'', ''ca-certificates.crt''], file_node ''PB.'')]"

definition store_ctx :: hctx where
  "store_ctx = \<lparr>cx_mode = mode_create_rt, cx_bundle = ''/b'', cx_annotations = [], cx_rootfs = ''/r'',
     cx_ca_file = ''/s/ca-bundle.pem'', cx_fail_policy = fail_policy_open, cx_env = [], cx_facts = Some [],
     cx_results = []\<rparr>"

lemma store_apply_succeeds: "fst (os_apply toy_crypto new_fallback store_ctx (fs_of store_tree)) = Inr ()"
  by code_simp

theorem os_apply_extends_trust_witness:
  "\<exists>ctx' s'. os_apply toy_crypto new_fallback store_ctx (fs_of store_tree) = (Inr (), ctx', s') \<and>
     preferred_ca_bundle_path (cx_facts ctx') = ''/etc/ssl/certs/ca-certificates.crt'' \<and>
     trusted toy_crypto ''PB.'' \<union> trusted toy_crypto ''PA.'' =
       trusted toy_crypto (store_bytes s' [''r'', ''etc'', ''ssl'', ''certs'', ''ca-certificates.crt''])"
proof -
  let ?s = "fs_of store_tree" let ?d = "[''etc'', ''ssl'', ''certs'']" let ?n = "''ca-certificates.crt''"
  obtain ctx' s' where run: "os_apply toy_crypto new_fallback store_ctx ?s = (Inr (), ctx', s')"
    using store_apply_succeeds by (cases "os_apply toy_crypto new_fallback store_ctx ?s") auto
  have wf: "wf_tree_check store_tree" and root: "root_of ''/r'' = [''r'']" and c: "cx_rootfs store_ctx = ''/r''"
    "\<not> trust_store_configured (Some store_ctx)" "read_ca_bundle store_ctx ?s = Inr ''PA.''"
    "detect_trust_store_path ?s ''/r'' (os_candidates new_fallback) = Inr ''/etc/ssl/certs/ca-certificates.crt''"
    "fst (writable ''/r'' ?s)" "os_anchor_dir new_fallback = []" "is_abs ''/r''" "is_dir (map_of store_tree [''r''])"
    "store_bytes ?s ([''r''] @ ?d @ [?n]) = ''PB.''"
    by code_simp+
  have ok: "root_ok ?s (cx_rootfs store_ctx)"
    using c(1,7,8) root wf_fs_of [OF wf] real_dir_fs_of [OF wf] by (simp add: root_ok_def)
  have pt: "plain_target ''/etc/ssl/certs/ca-certificates.crt'' ?d ?n"
    unfolding plain_target_def by code_simp
  have certs: "bundle_certs toy_crypto (parse_cert_pem_blocks toy_crypto ''PA.'') =
      [\<lparr>cert_raw = ''A'', cert_cn = ''A'', cert_subject = ''A''\<rparr>]"
    by code_simp
  have "trim_right_nl ''PB.'' = ''PB.''" by code_simp
  then have closed: "closed_bundle toy_crypto ''PB.''"
    by (simp add: closed_bundle_def toy_parse_skip toy_parse_block)
  have codec: "\<forall>c \<in> set (bundle_certs toy_crypto (parse_cert_pem_blocks toy_crypto ''PA.'')).
      encodes_back toy_crypto c \<and> raw_reparses toy_crypto c"
    using toy_encodes_back by (simp add: certs raw_reparses_def)
  have ne: "trusted toy_crypto ''PA.'' \<noteq> {}" by (simp add: trusted_def certs)
  show ?thesis
    using os_apply_extends_trust [OF ok _ _ c(2,3) _ pt _ _ ne _ codec run, of "[]"] c root closed run
    by (simp add: store_ctx_def)
qed

end
