(* ===== verification/Ns_Cache.thy ===== *)
theory Ns_Cache
  imports Config
begin

text \<open>
  \<open>internal/nri/namespace.go\<close>: labels of a namespace, fetched from the API server with a
  cache, a token that is re-read, and retries inside a time budget.

  Time is a natural number of milliseconds that every operation takes and returns. The world
  outside the program is a parameter: what a file holds at a time, what the API server
  answers to a request begun at a time and how long that takes. A request is cut off when
  its context ends, as \<open>net/http\<close> documents.
\<close>

section \<open>The world\<close>

record world =
  w_file :: "nat \<Rightarrow> string \<Rightarrow> bytes res"
  w_reply :: "nat \<Rightarrow> string \<Rightarrow> string \<Rightarrow> goerr + (nat \<times> bytes res)"
  w_delay :: "nat \<Rightarrow> nat"
  w_labels :: "bytes \<Rightarrow> strmap res"

text \<open>A context: its deadline, and when it is cancelled.\<close>

record go_context =
  c_deadline :: "nat option"
  c_cancel :: "nat option"

definition min_opt :: "nat \<Rightarrow> nat option \<Rightarrow> nat" where
  "min_opt t d = (case d of None \<Rightarrow> t | Some u \<Rightarrow> min t u)"

definition reached :: "nat option \<Rightarrow> nat \<Rightarrow> bool" where
  "reached d t = (case d of None \<Rightarrow> False | Some u \<Rightarrow> u \<le> t)"

definition done_by :: "go_context \<Rightarrow> nat \<Rightarrow> bool" where
  "done_by ctx t = (reached (c_deadline ctx) t \<or> reached (c_cancel ctx) t)"

section \<open>The cache\<close>

definition default_token_path :: string where
  "default_token_path = ''/var/run/secrets/kubernetes.io/serviceaccount/token''"

definition sa_ca_path :: string where
  "sa_ca_path = ''/var/run/secrets/kubernetes.io/serviceaccount/ca.crt''"

definition ns_lookup_budget :: nat where "ns_lookup_budget = 1200"
definition ns_lookup_attempt_timeout :: nat where "ns_lookup_attempt_timeout = 300"
definition ns_lookup_retry_delay :: nat where "ns_lookup_retry_delay = 100"

lemmas ns_lookup_defs = ns_lookup_budget_def ns_lookup_attempt_timeout_def ns_lookup_retry_delay_def

definition err_unauthorized :: goerr where "err_unauthorized = Msg ''unauthorized''"

text \<open>\<open>errors.Is(err, errUnauthorized)\<close>.\<close>

fun is_unauthorized :: "goerr \<Rightarrow> bool" where
  "is_unauthorized (Wrapped m e) = is_unauthorized e"
| "is_unauthorized e = (e = err_unauthorized)"

record ns_entry =
  ne_labels :: strmap
  ne_fetched :: nat

record ns_cache =
  nc_entries :: "(string \<times> ns_entry) list"
  nc_ttl :: nat
  nc_client :: bool
  nc_api_url :: string
  nc_token_path :: string
  nc_token_ttl :: nat
  nc_token :: string
  nc_token_fetched :: nat
  nc_lookup_errors :: nat

text \<open>\<open>net.JoinHostPort\<close>.\<close>

definition join_host_port :: "string \<Rightarrow> string \<Rightarrow> string" where
  "join_host_port host port =
     (if CHR '':'' \<in> set host then ''['' @ host @ '']:'' @ port else host @ '':'' @ port)"

definition api_server_url :: "strmap \<Rightarrow> string" where
  "api_server_url penv =
     (let host = getenv penv ''KUBERNETES_SERVICE_HOST''; port = getenv penv ''KUBERNETES_SERVICE_PORT'' in
      if host = [] \<or> port = [] then ''https://kubernetes.default.svc''
      else ''https://'' @ join_host_port host port)"

definition tls_config_from_service_account :: "world \<Rightarrow> nat \<Rightarrow> unit res" where
  "tls_config_from_service_account W now = (case w_file W now sa_ca_path of
     Inl e \<Rightarrow> Inl (Wrapped ''failed to read SA CA cert'' e) | Inr _ \<Rightarrow> Inr ())"

definition new_ns_label_cache :: "world \<Rightarrow> strmap \<Rightarrow> nat \<Rightarrow> ns_cache" where
  "new_ns_label_cache W penv now =
     (let cache = \<lparr>nc_entries = [], nc_ttl = 60000, nc_client = False,
          nc_api_url = api_server_url penv @ ''/api/v1/namespaces/'',
          nc_token_path = default_token_path, nc_token_ttl = 30000, nc_token = [],
          nc_token_fetched = 0, nc_lookup_errors = 0\<rparr> in
      (case w_file W now (nc_token_path cache) of
         Inl e \<Rightarrow> cache
       | Inr _ \<Rightarrow> (case tls_config_from_service_account W now of
             Inl e \<Rightarrow> cache
           | Inr _ \<Rightarrow> cache\<lparr>nc_client := True\<rparr>)))"

text \<open>\<open>time.Since(t) < d\<close> at \<open>now\<close> is \<open>now < t + d\<close>.\<close>

definition current_token :: "world \<Rightarrow> nat \<Rightarrow> ns_cache \<Rightarrow> string \<times> ns_cache" where
  "current_token W now c =
     (if nc_token c \<noteq> [] \<and> now < nc_token_fetched c + nc_token_ttl c then (nc_token c, c)
      else (case w_file W now (nc_token_path c) of
          Inl e \<Rightarrow> (nc_token c, c)
        | Inr b \<Rightarrow> (let c' = c\<lparr>nc_token := trim_space b, nc_token_fetched := now\<rparr>
                   in (nc_token c', c'))))"

definition get_cached_labels :: "nat \<Rightarrow> ns_cache \<Rightarrow> string \<Rightarrow> strmap option" where
  "get_cached_labels now c namespace =
     (case map_of (nc_entries c) namespace of
        None \<Rightarrow> None
      | Some e \<Rightarrow> if now > ne_fetched e + nc_ttl c then None else Some (ne_labels e))"

text \<open>One request, under a context that ends at \<open>limit\<close>. The result comes with the cache
  and the time it ended.\<close>

definition fetch_labels ::
  "world \<Rightarrow> nat \<Rightarrow> nat \<Rightarrow> ns_cache \<Rightarrow> string \<Rightarrow> strmap res \<times> ns_cache \<times> nat" where
  "fetch_labels W limit now c namespace =
     (if \<not> nc_client c then (Inl (Msg ''K8s API client not available''), c, now)
      else
       (case current_token W now c of (token, c1) \<Rightarrow>
         if token = [] then (Inl (Msg ''no service account token''), c1, now)
         else if limit < now + w_delay W now
           then (Inl (Msg ''context deadline exceeded''), c1, max now limit)
         else
          (let t = now + w_delay W now in
           (case w_reply W now (nc_api_url c1 @ namespace) token of
              Inl e \<Rightarrow> (Inl e, c1, t)
            | Inr (status, body) \<Rightarrow>
               if status = 401 then (Inl (Wrapped ''API returned 401'' err_unauthorized), c1, t)
               else if status \<noteq> 200 then (Inl (Msg ''API returned an error status''), c1, t)
               else (case body of
                   Inl e \<Rightarrow> (Inl e, c1, t)
                 | Inr b \<Rightarrow> (w_labels W b, c1, t))))))"

lemma fetch_labels_time:
  assumes "fetch_labels W limit now c namespace = (r, c', t)"
  shows "now \<le> t \<and> t \<le> max now limit"
  using assms
  by (auto simp: fetch_labels_def Let_def split: if_splits prod.splits sum.splits)

text \<open>The end of an attempt's context.\<close>

definition attempt_limit :: "go_context \<Rightarrow> nat \<Rightarrow> nat" where
  "attempt_limit ctx now = min_opt (min_opt (now + ns_lookup_attempt_timeout) (c_deadline ctx)) (c_cancel ctx)"

text \<open>The retry loop; \<open>attempt\<close> counts from 1. The result comes with the number of attempts.\<close>

function fetch_retry ::
  "world \<Rightarrow> go_context \<Rightarrow> nat \<Rightarrow> nat \<Rightarrow> nat \<Rightarrow> ns_cache \<Rightarrow> string \<Rightarrow> strmap res \<times> ns_cache \<times> nat \<times> nat" where
  "fetch_retry W ctx deadline attempt now c namespace =
     (case fetch_labels W (attempt_limit ctx now) now c namespace of
        (Inr labels, c1, t) \<Rightarrow> (Inr labels, c1, t, attempt)
      | (Inl e, c1, t) \<Rightarrow>
          if is_unauthorized e then (Inl e, c1, t, attempt)
          else if t + (ns_lookup_retry_delay + ns_lookup_attempt_timeout) > deadline
            then (Inl (Wrapped ''after several attempts'' e), c1, t, attempt)
          else if done_by ctx (t + ns_lookup_retry_delay)
            then (Inl (Wrapped ''after several attempts'' (Msg ''context done'')), c1,
                  max t (min_opt (min_opt (t + ns_lookup_retry_delay) (c_deadline ctx)) (c_cancel ctx)), attempt)
          else fetch_retry W ctx deadline (attempt + 1) (t + ns_lookup_retry_delay) c1 namespace)"
  by pat_completeness auto
termination
proof (relation "measure (\<lambda>(W, ctx, deadline, attempt, now, c, ns). deadline - now)", goal_cases)
  case (2 W ctx deadline attempt now c ns a b e c1 t)
  have "now \<le> t" using fetch_labels_time [of W "attempt_limit ctx now" now c ns a c1 t] 2 by simp
  then show ?case using 2 by (simp add: ns_lookup_defs)
qed simp

declare fetch_retry.simps [simp del]

definition fetch_labels_with_retry ::
  "world \<Rightarrow> go_context \<Rightarrow> nat \<Rightarrow> ns_cache \<Rightarrow> string \<Rightarrow> strmap res \<times> ns_cache \<times> nat \<times> nat" where
  "fetch_labels_with_retry W ctx now c namespace =
     fetch_retry W ctx (min_opt (now + ns_lookup_budget) (c_deadline ctx)) 1 now c namespace"

text \<open>\<open>getLabel\<close>: the label, its absence, or a failed lookup.\<close>

definition get_label ::
  "world \<Rightarrow> go_context \<Rightarrow> nat \<Rightarrow> ns_cache \<Rightarrow> string \<Rightarrow> string \<Rightarrow> string option res \<times> ns_cache \<times> nat" where
  "get_label W ctx now c namespace key =
     (if \<not> nc_client c then (Inr None, c, now)
      else (case get_cached_labels now c namespace of
          Some labels \<Rightarrow> (Inr (map_of labels key), c, now)
        | None \<Rightarrow>
           (case fetch_labels_with_retry W ctx now c namespace of
              (Inl e, c1, t, n) \<Rightarrow> (Inl e, c1\<lparr>nc_lookup_errors := Suc (nc_lookup_errors c1)\<rparr>, t)
            | (Inr labels, c1, t, n) \<Rightarrow>
                (Inr (map_of labels key),
                 c1\<lparr>nc_entries := AList.update namespace \<lparr>ne_labels = labels, ne_fetched = t\<rparr> (nc_entries c1)\<rparr>, t))))"

section \<open>Time\<close>

lemma fetch_retry_time:
  assumes "fetch_retry W ctx deadline attempt now c namespace = (r, c', t, n)"
    and "start \<le> now" and "attempt \<le> Suc ((now - start) div 100)"
    and "now + 300 \<le> start + 1200" and "deadline \<le> start + 1200"
  shows "now \<le> t \<and> t \<le> start + 1200 \<and> attempt \<le> n \<and> n \<le> 10"
  using assms
proof (induction W ctx deadline attempt now c namespace rule: fetch_retry.induct)
  case (1 W ctx deadline attempt now c namespace)
  obtain a c1 t1 where f: "fetch_labels W (attempt_limit ctx now) now c namespace = (a, c1, t1)"
    by (cases "fetch_labels W (attempt_limit ctx now) now c namespace")
  have lim: "attempt_limit ctx now \<le> now + 300"
    by (auto simp: attempt_limit_def min_opt_def ns_lookup_attempt_timeout_def split: option.split)
  have t1: "now \<le> t1" "t1 \<le> now + 300" using fetch_labels_time [OF f] lim by auto
  have n10: "attempt \<le> 10" using "1.prems"(2-4) by linarith
  have eq: "fetch_retry W ctx deadline attempt now c namespace =
      (case a of Inr labels \<Rightarrow> (Inr labels, c1, t1, attempt)
       | Inl e \<Rightarrow> if is_unauthorized e then (Inl e, c1, t1, attempt)
          else if t1 + 400 > deadline then (Inl (Wrapped ''after several attempts'' e), c1, t1, attempt)
          else if done_by ctx (t1 + 100)
            then (Inl (Wrapped ''after several attempts'' (Msg ''context done'')), c1,
                  max t1 (min_opt (min_opt (t1 + 100) (c_deadline ctx)) (c_cancel ctx)), attempt)
          else fetch_retry W ctx deadline (attempt + 1) (t1 + 100) c1 namespace)"
    by (subst fetch_retry.simps) (simp add: f ns_lookup_defs split: sum.split)
  show ?case
  proof (cases "\<exists>e. a = Inl e \<and> \<not> is_unauthorized e \<and> \<not> t1 + 400 > deadline")
    case False
    then have "t = t1" "n = attempt" using "1.prems"(1) unfolding eq by (auto split: sum.splits if_splits)
    then show ?thesis using t1 "1.prems"(4) n10 by simp
  next
    case True
    then obtain e where e: "a = Inl e" "\<not> is_unauthorized e" and fit: "t1 + 400 \<le> deadline" by auto
    show ?thesis
    proof (cases "done_by ctx (t1 + 100)")
      case True
      have "t = max t1 (min_opt (min_opt (t1 + 100) (c_deadline ctx)) (c_cancel ctx))" "n = attempt"
        using "1.prems"(1) e fit True unfolding eq by auto
      moreover have "min_opt (min_opt (t1 + 100) (c_deadline ctx)) (c_cancel ctx) \<le> t1 + 100"
        by (auto simp: min_opt_def split: option.split)
      ultimately show ?thesis using t1 fit "1.prems"(5) n10 by auto
    next
      case False
      have rec: "fetch_retry W ctx deadline (attempt + 1) (t1 + 100) c1 namespace = (r, c', t, n)"
        using "1.prems"(1) e fit False unfolding eq by simp
      have "attempt + 1 \<le> Suc ((t1 + 100 - start) div 100)"
      proof -
        have "(now - start) div 100 + 1 = (now - start + 100) div 100" by simp
        also have "\<dots> \<le> (t1 + 100 - start) div 100"
          by (rule div_le_mono) (use t1 "1.prems"(2) in linarith)
        finally show ?thesis using "1.prems"(3) by simp
      qed
      then have "t1 + 100 \<le> t \<and> t \<le> start + 1200 \<and> attempt + 1 \<le> n \<and> n \<le> 10"
        using "1.IH" [OF f [symmetric] e(1) refl e(2)] rec False fit t1 "1.prems"(2,5)
        by (simp add: ns_lookup_defs)
      then show ?thesis using t1 by simp
    qed
  qed
qed

end
