(* ===== verification/Dynamic_Ca.thy ===== *)
theory Dynamic_Ca
  imports Config Container_Fs_Writes Certs "HOL-Library.Word"
begin

text \<open>
  \<open>internal/nri/dynamic_ca.go\<close>, \<open>cleanup.go\<close> and the pure helpers of \<open>helpers.go\<close>: the
  per-container staging directories of the plugin, their names, their removal, and the
  cleaner that removes abandoned ones.
\<close>

section \<open>What the runtime tells about a container\<close>

text \<open>The fields of NRI's pods and containers that the plugin reads.\<close>

record pod =
  pod_id :: string
  pod_namespace :: string
  pod_annotations :: strmap
  pod_labels :: strmap

record container =
  ct_id :: string
  ct_name :: string
  ct_pod :: string
  ct_running :: bool
  ct_args :: "string list"
  ct_env :: "string list"

section \<open>Path tokens\<close>

definition byte_in :: "nat \<Rightarrow> nat \<Rightarrow> char \<Rightarrow> bool" where
  "byte_in a b c = (a \<le> of_char c \<and> (of_char c :: nat) \<le> b)"

text \<open>How many bytes the first rune of a string takes: UTF-8 as Go decodes it, where a byte
  that starts no valid sequence counts as one rune.\<close>

definition rune_len :: "string \<Rightarrow> nat" where
  "rune_len s = (case s of
     b0 # b1 # b2 # b3 # _ \<Rightarrow>
       if byte_in 0xC2 0xDF b0 \<and> byte_in 0x80 0xBF b1 then 2
       else if byte_in 0x80 0xBF b2 \<and>
           (byte_in 0xE0 0xE0 b0 \<and> byte_in 0xA0 0xBF b1 \<or> byte_in 0xE1 0xEC b0 \<and> byte_in 0x80 0xBF b1 \<or>
            byte_in 0xED 0xED b0 \<and> byte_in 0x80 0x9F b1 \<or> byte_in 0xEE 0xEF b0 \<and> byte_in 0x80 0xBF b1) then 3
       else if byte_in 0x80 0xBF b2 \<and> byte_in 0x80 0xBF b3 \<and>
           (byte_in 0xF0 0xF0 b0 \<and> byte_in 0x90 0xBF b1 \<or> byte_in 0xF1 0xF3 b0 \<and> byte_in 0x80 0xBF b1 \<or>
            byte_in 0xF4 0xF4 b0 \<and> byte_in 0x80 0x8F b1) then 4
       else 1
   | b0 # b1 # b2 # _ \<Rightarrow>
       if byte_in 0xC2 0xDF b0 \<and> byte_in 0x80 0xBF b1 then 2
       else if byte_in 0x80 0xBF b2 \<and>
           (byte_in 0xE0 0xE0 b0 \<and> byte_in 0xA0 0xBF b1 \<or> byte_in 0xE1 0xEC b0 \<and> byte_in 0x80 0xBF b1 \<or>
            byte_in 0xED 0xED b0 \<and> byte_in 0x80 0x9F b1 \<or> byte_in 0xEE 0xEF b0 \<and> byte_in 0x80 0xBF b1) then 3
       else 1
   | b0 # b1 # _ \<Rightarrow> if byte_in 0xC2 0xDF b0 \<and> byte_in 0x80 0xBF b1 then 2 else 1
   | _ \<Rightarrow> 1)"

lemma rune_len_pos: "0 < rune_len s"
  by (auto simp: rune_len_def split: list.split)

definition safe_path_char :: "char \<Rightarrow> bool" where
  "safe_path_char c = (byte_in 65 90 c \<or> byte_in 97 122 c \<or> byte_in 48 57 c \<or>
     c = CHR ''.'' \<or> c = CHR ''_'' \<or> c = CHR ''-'')"

text \<open>\<open>unsafePathChars.ReplaceAllString(s, "_")\<close>: every rune outside the class.\<close>

function replace_unsafe :: "string \<Rightarrow> string" where
  "replace_unsafe [] = []"
| "replace_unsafe (c # cs) =
     (if safe_path_char c then c # replace_unsafe cs
      else CHR ''_'' # replace_unsafe (drop (rune_len (c # cs)) (c # cs)))"
  by pat_completeness auto
termination
proof (relation "measure length", goal_cases)
  case (3 c cs)
  have "0 < rune_len (c # cs)" by (rule rune_len_pos)
  then have "length (drop (rune_len (c # cs)) (c # cs)) < length (c # cs)" by (simp only: length_drop) simp
  then show ?case by (simp only: in_measure)
qed simp_all

declare replace_unsafe.simps(2) [simp del]

definition trim_set :: "char list \<Rightarrow> string \<Rightarrow> string" where
  "trim_set cutset s =
     rev (dropWhile (\<lambda>c. c \<in> set cutset) (rev (dropWhile (\<lambda>c. c \<in> set cutset) s)))"

definition sanitize_path_token :: "string \<Rightarrow> string" where
  "sanitize_path_token v =
     (let trimmed = trim_space v in
      if trimmed = [] then [] else trim_set ''._-'' (replace_unsafe trimmed))"

definition container_ca_key :: "container \<Rightarrow> string res" where
  "container_ca_key ctr =
     (let id = sanitize_path_token (ct_id ctr) in
      if id = [] then Inl (Msg ''container id is empty'') else Inr id)"

definition container_ca_dir :: "string \<Rightarrow> container \<Rightarrow> string res" where
  "container_ca_dir root ctr = (case container_ca_key ctr of
     Inl e \<Rightarrow> Inl e | Inr key \<Rightarrow> Inr (path_join [root, key]))"

definition short_id :: "container \<Rightarrow> string" where
  "short_id ctr = (let id = sanitize_path_token (ct_id ctr) in
     if length id > 12 then drop (length id - 12) id else id)"

definition dynamic_ca_root :: "strmap \<Rightarrow> string" where
  "dynamic_ca_root penv = getenv_or penv env_dynamic_ca_root default_dynamic_ca_root"

section \<open>Staging and removal\<close>

definition dynamic_ca_file_name :: string where "dynamic_ca_file_name = ''ca-bundle.pem''"

definition dynamic_options :: write_options where
  "dynamic_options = \<lparr>wo_fallback_mode = 384, wo_refuse_symlink = True, wo_preserve_owner = True\<rparr>"

definition stage_dynamic_ca_file ::
  "packages \<Rightarrow> string \<Rightarrow> string \<Rightarrow> container \<Rightarrow> (string \<times> bytes) io" where
  "stage_dynamic_ca_file C source root ctr s =
     (case os_read_file s source of
        Inl e \<Rightarrow> (Inl (Wrapped ''failed to read source CA file'' e), s)
      | Inr content \<Rightarrow>
        (case validate_pem C content of
           Inl e \<Rightarrow> (Inl (Wrapped ''invalid CA bundle'' e), s)
         | Inr _ \<Rightarrow>
           (case container_ca_dir root ctr of
              Inl e \<Rightarrow> (Inl e, s)
            | Inr target_dir \<Rightarrow>
              (case os_mkdir_all target_dir 448 s of
                 (Inl e, s1) \<Rightarrow> (Inl (Wrapped ''failed to create dynamic CA directory'' e), s1)
               | (Inr _, s1) \<Rightarrow>
                 (let target = path_join [target_dir, dynamic_ca_file_name] in
                  (case atomic_write target content dynamic_options s1 of
                     (Inl e, s2) \<Rightarrow> (Inl (Wrapped ''failed to write dynamic CA file'' e), s2)
                   | (Inr _, s2) \<Rightarrow> (Inr (target, content), s2)))))))"

definition cleanup_dynamic_ca_file :: "string \<Rightarrow> container \<Rightarrow> unit io" where
  "cleanup_dynamic_ca_file root ctr s =
     (case container_ca_dir root ctr of
        Inl e \<Rightarrow> (Inl e, s)
      | Inr target_dir \<Rightarrow>
        (case sys_remove_all target_dir s of
           (Inl e, s1) \<Rightarrow> if \<not> is_not_exist e
             then (Inl (Wrapped ''failed to remove dynamic CA directory'' e), s1) else (Inr (), s1)
         | (Inr _, s1) \<Rightarrow> (Inr (), s1)))"

section \<open>The orphan cleaner\<close>

definition orphan_interval :: nat where "orphan_interval = 300000"
definition orphan_age :: nat where "orphan_age = 600000"

text \<open>The entries \<open>os.ReadDir\<close> reports: name, and whether it is a directory itself.\<close>

definition read_dir_entries :: "fs \<Rightarrow> string \<Rightarrow> errno + (string \<times> bool) list" where
  "read_dir_entries s root = (case sys_read_dir s root of Inl e \<Rightarrow> Inl e
     | Inr names \<Rightarrow> (case host_walk s True root of Inl e \<Rightarrow> Inl e
         | Inr d \<Rightarrow> Inr (map (\<lambda>n. (n, is_dir (node_at s (d @ [n])))) names)))"

text \<open>\<open>entry.Info().ModTime()\<close>: the entry itself, also when it is a link.\<close>

definition entry_mtime :: "fs \<Rightarrow> string \<Rightarrow> errno + nat" where
  "entry_mtime s path = (case sys_lstat s path of Inl e \<Rightarrow> Inl e
     | Inr _ \<Rightarrow> (case host_walk s False path of Inl e \<Rightarrow> Inl e | Inr q \<Rightarrow> Inr (fs_mtimes s q)))"

text \<open>One entry of the sweep: the number of removed directories and the file system.\<close>

definition sweep_entry :: "string \<Rightarrow> string list \<Rightarrow> string \<times> bool \<Rightarrow> nat \<times> fs \<Rightarrow> nat \<times> fs" where
  "sweep_entry root tracked e ns =
     (case (e, ns) of ((name, dir), (n, s)) \<Rightarrow>
        if \<not> dir then (n, s)
        else if name \<in> set tracked then (n, s)
        else
         (let path = path_join [root, name] in
          (case entry_mtime s path of
             Inl _ \<Rightarrow> (n, s)
           | Inr t \<Rightarrow>
              if fs_clock s < t + orphan_age then (n, s)
              else (case sys_remove_all path s of
                  (Inl _, s1) \<Rightarrow> (n, s1) | (Inr _, s1) \<Rightarrow> (Suc n, s1)))))"

definition sweep :: "string \<Rightarrow> string list \<Rightarrow> fs \<Rightarrow> nat \<times> fs" where
  "sweep root tracked s = (case read_dir_entries s root of
     Inl _ \<Rightarrow> (0, s)
   | Inr entries \<Rightarrow> fold (sweep_entry root tracked) entries (0, s))"

section \<open>Settings\<close>

text \<open>\<open>strconv.Atoi\<close>: an optional sign, digits, within the range of a 64-bit integer.\<close>

definition is_digit :: "char \<Rightarrow> bool" where
  "is_digit c = byte_in 48 57 c"

definition atoi :: "string \<Rightarrow> int option" where
  "atoi s =
     (let neg = has_prefix s ''-'';
          ds = (if neg \<or> has_prefix s ''+'' then tl s else s) in
      if ds = [] \<or> \<not> list_all is_digit ds then None
      else (let v = (if neg then - int (read_nat ds) else int (read_nat ds)) in
            if - (2 ^ 63) \<le> v \<and> v < 2 ^ 63 then Some v else None))"

definition hook_timeout_sec :: "strmap \<Rightarrow> int" where
  "hook_timeout_sec penv =
     (let v = trim_space (getenv penv env_hook_timeout_sec) in
      if v \<noteq> [] then (case atoi v of
          Some n \<Rightarrow> if n > 0 then n else default_hook_timeout_sec
        | None \<Rightarrow> default_hook_timeout_sec)
      else default_hook_timeout_sec)"

text \<open>\<open>time.Duration(n) * time.Second\<close>: nanoseconds in a signed 64-bit word.\<close>

definition seconds_duration :: "int \<Rightarrow> int" where
  "seconds_duration n = sint (word_of_int n * word_of_int 1000000000 :: 64 word)"

function pem_cert_count :: "packages \<Rightarrow> bytes \<Rightarrow> nat" where
  "pem_cert_count C rest = (case pem_decode C rest of
     None \<Rightarrow> 0
   | Some (block, r) \<Rightarrow>
       (if pb_type block = certificate_type then 1 else 0) + pem_cert_count C r)"
  by pat_completeness auto
termination
  by (relation "measure (\<lambda>(C, d). length d)") (auto dest: pem_decode_shorter)

declare pem_cert_count.simps [simp del]

definition is_container_excluded :: "strmap \<Rightarrow> pod \<Rightarrow> container \<Rightarrow> bool" where
  "is_container_excluded penv p ctr =
     (case map_of (pod_annotations p) (anno_exclude_containers penv) of
        None \<Rightarrow> False
      | Some raw \<Rightarrow> trim_space (ct_name ctr) \<in> set (map trim_space (split_on (CHR '','') raw)))"

section \<open>Laws\<close>

lemma pem_cert_count_blocks: "pem_cert_count C d = length (parse_cert_pem_blocks C d)"
proof (induction C d rule: pem_cert_count.induct)
  case (1 C d)
  show ?case
  proof (cases "pem_decode C d")
    case (Some br)
    then obtain b r where "pem_decode C d = Some (b, r)" by (cases br) auto
    then show ?thesis
      using "1.IH" by (subst pem_cert_count.simps, subst parse_cert_pem_blocks.simps) simp
  qed (subst pem_cert_count.simps, subst parse_cert_pem_blocks.simps, simp)
qed

lemma replace_unsafe_safe: "c \<in> set (replace_unsafe s) \<Longrightarrow> safe_path_char c"
proof (induction s rule: replace_unsafe.induct)
  case (2 x xs)
  show ?case
  proof (cases "safe_path_char x")
    case True
    then show ?thesis using 2 by (auto simp: replace_unsafe.simps)
  next
    case False
    then show ?thesis using 2 by (auto simp: replace_unsafe.simps) (simp add: safe_path_char_def)
  qed
qed simp

lemma trim_set_subset: "set (trim_set cs s) \<subseteq> set s"
  unfolding trim_set_def by (auto dest!: set_dropWhileD)

lemma trim_set_start:
  assumes "trim_set cs s \<noteq> []"
  shows "hd (trim_set cs s) \<notin> set cs"
proof -
  let ?P = "\<lambda>c. c \<in> set cs"
  define t where "t = dropWhile ?P s"
  have ts: "trim_set cs s = rev (dropWhile ?P (rev t))" by (simp add: trim_set_def t_def)
  have "\<exists>u. rev t = u @ dropWhile ?P (rev t)" by (metis takeWhile_dropWhile_id)
  then obtain u where "t = trim_set cs s @ u" unfolding ts by (metis rev_append rev_rev_ident)
  then have "hd (trim_set cs s) = hd t" "t \<noteq> []" using assms by auto
  then show ?thesis unfolding t_def using hd_dropWhile [of ?P s] by simp
qed

text \<open>A key names a directory entry: no separator, and neither of the two dots.\<close>

lemma sanitize_valid_name:
  assumes "sanitize_path_token v \<noteq> []"
  shows "valid_name (sanitize_path_token v)"
proof -
  let ?k = "sanitize_path_token v"
  have k: "?k = trim_set ''._-'' (replace_unsafe (trim_space v))"
    using assms by (auto simp: sanitize_path_token_def Let_def split: if_splits)
  have "slash \<notin> set ?k"
  proof
    assume "slash \<in> set ?k"
    then have "slash \<in> set (replace_unsafe (trim_space v))" using trim_set_subset unfolding k by blast
    then have "safe_path_char slash" by (rule replace_unsafe_safe)
    then show False by (simp add: safe_path_char_def byte_in_def slash_def)
  qed
  moreover have "hd ?k \<notin> set ''._-''" using trim_set_start assms unfolding k by blast
  then have "?k \<noteq> dot" "?k \<noteq> dotdot" by (auto simp: dot_def dotdot_def)
  ultimately show ?thesis using assms by (simp add: valid_name_def)
qed

end
