(* ===== verification/Nri_Plugin.thy ===== *)
theory Nri_Plugin
  imports Ns_Cache Dynamic_Ca Env_Util
begin

text \<open>
  \<open>internal/nri/plugin.go\<close>, \<open>metrics.go\<close> and the opt-in decision of \<open>helpers.go\<close>: the plugin's
  state, its handlers, and the loop that keeps it connected to the runtime.

  The plugin's clock is the file system's \<open>fs_clock\<close>, in milliseconds: a namespace lookup
  moves it. What the plugin logs is a list of events that carry the logged attributes the
  code computes.
\<close>

section \<open>State\<close>

text \<open>\<open>Metrics\<close>: counters never decrease, gauges may. The counter of failed namespace lookups
  is \<open>nc_lookup_errors\<close>, as the cache alone increments it.\<close>

record metrics =
  m_injections :: nat
  m_injection_errors :: nat
  m_skipped :: nat
  m_cleanups :: nat
  m_cleanup_errors :: nat
  m_orphans_cleaned :: nat
  m_active :: int
  m_bundle_hash :: "(string \<times> nat) list"
  m_bundle_modified :: nat
  m_bundle_certs :: nat
  m_nri_available :: "(string \<times> nat) list"
  m_hook_incomplete :: nat
  m_ns_lookup_skipped :: nat
  m_missed :: int

definition new_metrics :: metrics where
  "new_metrics = \<lparr>m_injections = 0, m_injection_errors = 0, m_skipped = 0, m_cleanups = 0,
     m_cleanup_errors = 0, m_orphans_cleaned = 0, m_active = 0, m_bundle_hash = [],
     m_bundle_modified = 0, m_bundle_certs = 0, m_nri_available = [], m_hook_incomplete = 0,
     m_ns_lookup_skipped = 0, m_missed = 0\<rparr>"

datatype event =
    SkipLookupFailed goerr
  | SkipSuspicious "string list"
  | SkipOptedOut string string
  | SkipNotOptedIn string
  | SkipExcluded
  | StagingFailed goerr
  | Injected string string nat nat string
  | CleanupFailed goerr
  | HookDidNotRun int
  | HookKilled string int
  | Adopted nat
  | ScanTimedOut nat
  | MissedInjection string
  | MissedSummary nat nat
  | Reconnecting "goerr option" nat

record plugin =
  pl_metrics :: metrics
  pl_tracked :: "string list"
  pl_missed :: "string list"
  pl_cache :: "ns_cache option"
  pl_ready :: bool
  pl_stopped :: bool
  pl_verifying :: "string list"
  pl_log :: "event list"

definition new_plugin :: "world \<Rightarrow> strmap \<Rightarrow> nat \<Rightarrow> plugin" where
  "new_plugin W penv now = \<lparr>pl_metrics = new_metrics, pl_tracked = [], pl_missed = [],
     pl_cache = Some (new_ns_label_cache W penv now), pl_ready = False, pl_stopped = False,
     pl_verifying = [], pl_log = []\<rparr>"

text \<open>What the plugin's process is given: its environment, its own executable, the world of the
  namespace lookups and the packages it imports.\<close>

record nri_env =
  ne_penv :: strmap
  ne_executable :: "string res"
  ne_world :: world
  ne_packages :: packages

definition upd_metrics :: "(metrics \<Rightarrow> metrics) \<Rightarrow> plugin \<Rightarrow> plugin" where
  "upd_metrics f p = p\<lparr>pl_metrics := f (pl_metrics p)\<rparr>"

definition say :: "event \<Rightarrow> plugin \<Rightarrow> plugin" where
  "say e p = p\<lparr>pl_log := pl_log p @ [e]\<rparr>"

definition node_name :: "strmap \<Rightarrow> string" where
  "node_name penv = getenv_or penv ''NODE_NAME'' ''unknown''"

section \<open>The opt-in decision (helpers.go)\<close>

record decision =
  de_inject :: bool
  de_source :: string
  de_reason :: string
  de_value :: string
  de_err :: "goerr option"

definition decision_from_value :: "string \<Rightarrow> string \<Rightarrow> decision" where
  "decision_from_value v source =
     (if equal_fold v ''true''
      then \<lparr>de_inject = True, de_source = source, de_reason = ''opted-in'', de_value = [], de_err = None\<rparr>
      else \<lparr>de_inject = False, de_source = source, de_reason = ''explicit-opt-out'', de_value = v,
            de_err = None\<rparr>)"

definition not_opted_in :: decision where
  "not_opted_in = \<lparr>de_inject = False, de_source = ''default'', de_reason = ''not-opted-in'',
     de_value = [], de_err = None\<rparr>"

definition lookup_failed :: "goerr \<Rightarrow> decision" where
  "lookup_failed e = \<lparr>de_inject = False, de_source = ''namespace-label'', de_reason = ''lookup-failed'',
     de_value = [], de_err = Some e\<rparr>"

text \<open>The decision, the cache afterwards and the time it was made.\<close>

definition decide ::
  "world \<Rightarrow> strmap \<Rightarrow> go_context \<Rightarrow> pod \<Rightarrow> ns_cache option \<Rightarrow> nat \<Rightarrow> decision \<times> ns_cache option \<times> nat" where
  "decide W penv ctx pod cache now =
     (let key = anno_enabled penv in
      case map_of (pod_annotations pod) key of
        Some v \<Rightarrow> (decision_from_value v ''pod-annotation'', cache, now)
      | None \<Rightarrow>
        (case map_of (pod_labels pod) key of
           Some v \<Rightarrow> (decision_from_value v ''pod-label'', cache, now)
         | None \<Rightarrow>
           (case cache of
              None \<Rightarrow> (not_opted_in, cache, now)
            | Some c \<Rightarrow>
               if pod_namespace pod = [] then (not_opted_in, cache, now)
               else (case get_label W ctx now c (pod_namespace pod) key of
                   (Inl e, c1, t) \<Rightarrow> (lookup_failed e, Some c1, t)
                 | (Inr (Some v), c1, t) \<Rightarrow> (decision_from_value v ''namespace-label'', Some c1, t)
                 | (Inr None, c1, t) \<Rightarrow> (not_opted_in, Some c1, t)))))"

text \<open>The map iteration gives the keys in no particular order; the model lists them in the
  order of the maps.\<close>

definition suspicious_keys :: "strmap \<Rightarrow> pod \<Rightarrow> ns_cache option \<Rightarrow> nat \<Rightarrow> string list" where
  "suspicious_keys penv pod cache now =
     (let pre = annotation_prefix penv @ ''/'';
          known = [anno_enabled penv, anno_exclude_containers penv,
            pre @ ''processors.include'', pre @ ''processors.exclude''];
          collect = (\<lambda>m :: strmap. filter (\<lambda>k. has_prefix k pre \<and> k \<notin> set known) (map fst m)) in
      remdups (collect (pod_annotations pod) @ collect (pod_labels pod) @
        (case cache of None \<Rightarrow> []
         | Some c \<Rightarrow> if pod_namespace pod = [] then []
             else (case get_cached_labels now c (pod_namespace pod) of
                 None \<Rightarrow> [] | Some labels \<Rightarrow> collect labels))))"

text \<open>\<open>decide\<close> on the plugin's own cache and clock.\<close>

definition plugin_decide ::
  "nri_env \<Rightarrow> go_context \<Rightarrow> pod \<Rightarrow> plugin \<Rightarrow> fs \<Rightarrow> decision \<times> plugin \<times> fs" where
  "plugin_decide E ctx pod p s =
     (case decide (ne_world E) (ne_penv E) ctx pod (pl_cache p) (fs_clock s) of
        (d, cache, t) \<Rightarrow> (d, p\<lparr>pl_cache := cache\<rparr>, s\<lparr>fs_clock := t\<rparr>))"

section \<open>CreateContainer\<close>

record mount =
  mt_destination :: string
  mt_type :: string
  mt_source :: string
  mt_options :: "string list"

record hook_spec =
  hk_path :: string
  hk_env :: "string list"
  hk_timeout :: int

record adjustment =
  adj_env :: strmap
  adj_args :: "string list option"
  adj_mounts :: "mount list"
  adj_hooks :: "hook_spec list"

text \<open>The skip branch.\<close>

definition skip_container :: "nri_env \<Rightarrow> decision \<Rightarrow> pod \<Rightarrow> plugin \<Rightarrow> fs \<Rightarrow> plugin" where
  "skip_container E d pod p s =
     (let suspects = suspicious_keys (ne_penv E) pod (pl_cache p) (fs_clock s) in
      if de_reason d = ''lookup-failed''
      then upd_metrics (\<lambda>m. m\<lparr>m_ns_lookup_skipped := Suc (m_ns_lookup_skipped m)\<rparr>)
             (say (SkipLookupFailed (the (de_err d))) p)
      else upd_metrics (\<lambda>m. m\<lparr>m_skipped := Suc (m_skipped m)\<rparr>)
             (if suspects \<noteq> [] then say (SkipSuspicious suspects) p
              else if de_reason d = ''explicit-opt-out''
                then say (SkipOptedOut (de_source d) (de_value d)) p
              else say (SkipNotOptedIn (de_source d)) p))"

definition plugin_binary :: "nri_env \<Rightarrow> string res" where
  "plugin_binary E = (let self = getenv_or (ne_penv E) env_plugin_binary_path [] in
     if self = [] then (case ne_executable E of
         Inl e \<Rightarrow> Inl (Wrapped ''failed to determine plugin binary path'' e) | Inr b \<Rightarrow> Inr b)
     else Inr self)"

text \<open>\<open>os.Stat(path).ModTime().Unix()\<close>.\<close>

definition file_mtime :: "fs \<Rightarrow> string \<Rightarrow> errno + nat" where
  "file_mtime s path = (case sys_stat s path of Inl e \<Rightarrow> Inl e
     | Inr _ \<Rightarrow> (case host_walk s True path of Inl e \<Rightarrow> Inl e | Inr q \<Rightarrow> Inr (fs_mtimes s q)))"

definition update_ca_bundle_gauges :: "packages \<Rightarrow> string \<Rightarrow> bytes \<Rightarrow> fs \<Rightarrow> metrics \<Rightarrow> metrics" where
  "update_ca_bundle_gauges C path content s m =
     (let m1 = (case file_mtime s path of Inl _ \<Rightarrow> m | Inr t \<Rightarrow> m\<lparr>m_bundle_modified := t div 1000\<rparr>) in
      m1\<lparr>m_bundle_certs := pem_cert_count C content\<rparr>)"

definition incr :: "string \<Rightarrow> (string \<times> nat) list \<Rightarrow> (string \<times> nat) list" where
  "incr k m = AList.update k (case map_of m k of None \<Rightarrow> 1 | Some n \<Rightarrow> Suc n) m"

definition hook_for :: "strmap \<Rightarrow> string \<Rightarrow> string \<Rightarrow> hook_spec" where
  "hook_for penv self ca_file =
     \<lparr>hk_path = self,
      hk_env = [env_entry env_hook_mode mode_create_rt, env_entry env_ca_file ca_file,
        env_entry env_fail_policy fail_policy_open, env_entry env_hook_context_file hook_context_file,
        env_entry env_annotation_prefix (annotation_prefix penv),
        env_entry env_log_level (getenv_or penv env_log_level ''info''),
        env_entry env_breadcrumb_dir (path_dir ca_file)],
      hk_timeout = hook_timeout_sec penv\<rparr>"

definition adjustment_for :: "strmap \<Rightarrow> string \<Rightarrow> string \<Rightarrow> container \<Rightarrow> adjustment" where
  "adjustment_for penv self ca_file ctr =
     \<lparr>adj_env = (env_wrapper_mode, ''1'') #
        (if has_env (ct_env ctr) env_hook_context_file then []
         else [(env_hook_context_file, hook_context_file)]),
      adj_args = (if ct_args ctr \<noteq> [] \<and> hd (ct_args ctr) \<noteq> wrapper_path
        then Some (wrapper_path # ct_args ctr) else None),
      adj_mounts = [\<lparr>mt_destination = wrapper_path, mt_type = ''bind'', mt_source = self,
        mt_options = [''bind'', ''ro'']\<rparr>],
      adj_hooks = [hook_for penv self ca_file]\<rparr>"

text \<open>From the successful staging on.\<close>

definition track :: "string \<Rightarrow> plugin \<Rightarrow> plugin" where
  "track key p = upd_metrics (\<lambda>m. m\<lparr>m_active := m_active m + 1\<rparr>)
     (p\<lparr>pl_tracked := List.insert key (pl_tracked p)\<rparr>)"

definition inject_container ::
  "nri_env \<Rightarrow> decision \<Rightarrow> string \<Rightarrow> string \<Rightarrow> container \<Rightarrow> string \<Rightarrow> bytes \<Rightarrow> plugin \<Rightarrow> fs \<Rightarrow> adjustment \<times> plugin" where
  "inject_container E d self source ctr ca_file content p s =
     (let C = ne_packages E;
          key = (case container_ca_key ctr of Inl _ \<Rightarrow> [] | Inr k \<Rightarrow> k);
          p1 = (if key \<noteq> [] then track key p else p);
          hash12 = take 12 (hex_encode (sha256 C content));
          p2 = upd_metrics (\<lambda>m. m\<lparr>m_bundle_hash := incr hash12 (m_bundle_hash m)\<rparr>) p1;
          p3 = upd_metrics (update_ca_bundle_gauges C source content s) p2;
          p4 = say (Injected (de_source d) hash12 (pem_cert_count C content) (length content) ca_file) p3;
          p5 = (if key \<noteq> [] then p4\<lparr>pl_verifying := pl_verifying p4 @ [key]\<rparr> else p4) in
      (adjustment_for (ne_penv E) self ca_file ctr, p5))"

definition create_container ::
  "nri_env \<Rightarrow> go_context \<Rightarrow> pod \<Rightarrow> container \<Rightarrow> plugin \<Rightarrow> fs \<Rightarrow> adjustment option res \<times> plugin \<times> fs" where
  "create_container E ctx pod ctr p s =
     (case plugin_decide E ctx pod p s of (d, p1, s1) \<Rightarrow>
        if \<not> de_inject d then (Inr None, skip_container E d pod p1 s1, s1)
        else if is_container_excluded (ne_penv E) pod ctr
          then (Inr None, upd_metrics (\<lambda>m. m\<lparr>m_skipped := Suc (m_skipped m)\<rparr>) (say SkipExcluded p1), s1)
        else
         (let p2 = upd_metrics (\<lambda>m. m\<lparr>m_injections := Suc (m_injections m)\<rparr>) p1;
              failed = upd_metrics (\<lambda>m. m\<lparr>m_injection_errors := Suc (m_injection_errors m)\<rparr>) in
          (case plugin_binary E of
             Inl e \<Rightarrow> (Inl e, failed p2, s1)
           | Inr self \<Rightarrow>
              (let source = getenv_or (ne_penv E) env_ca_file default_ca_file;
                   root = dynamic_ca_root (ne_penv E) in
               (case stage_dynamic_ca_file (ne_packages E) source root ctr s1 of
                  (Inl e, s2) \<Rightarrow>
                    (Inl e, failed (say (StagingFailed e) p2), snd (cleanup_dynamic_ca_file root ctr s2))
                | (Inr (ca_file, content), s2) \<Rightarrow>
                    (case inject_container E d self source ctr ca_file content p2 s2 of
                       (adj, p3) \<Rightarrow> (Inr (Some adj), p3, s2)))))))"

section \<open>RemoveContainer\<close>

definition untrack :: "string \<Rightarrow> plugin \<Rightarrow> plugin" where
  "untrack key p =
     (let p1 = (if key \<in> set (pl_tracked p)
            then upd_metrics (\<lambda>m. m\<lparr>m_active := m_active m - 1\<rparr>)
                   (p\<lparr>pl_tracked := removeAll key (pl_tracked p)\<rparr>) else p) in
      if key \<in> set (pl_missed p1)
      then upd_metrics (\<lambda>m. m\<lparr>m_missed := m_missed m - 1\<rparr>)
             (p1\<lparr>pl_missed := removeAll key (pl_missed p1)\<rparr>)
      else p1)"

definition remove_container ::
  "nri_env \<Rightarrow> go_context \<Rightarrow> pod \<Rightarrow> container \<Rightarrow> plugin \<Rightarrow> fs \<Rightarrow> plugin \<times> fs" where
  "remove_container E ctx pod ctr p s =
     (let key = (case container_ca_key ctr of Inl _ \<Rightarrow> [] | Inr k \<Rightarrow> k);
          p1 = (if key \<noteq> [] then untrack key p else p) in
      (case plugin_decide E ctx pod p1 s of (d, p2, s1) \<Rightarrow>
         if \<not> de_inject d \<and> de_reason d \<noteq> ''lookup-failed'' then (p2, s1)
         else
          (let p3 = upd_metrics (\<lambda>m. m\<lparr>m_cleanups := Suc (m_cleanups m)\<rparr>) p2 in
           (case cleanup_dynamic_ca_file (dynamic_ca_root (ne_penv E)) ctr s1 of
              (Inl e, s2) \<Rightarrow>
                (say (CleanupFailed e)
                   (upd_metrics (\<lambda>m. m\<lparr>m_cleanup_errors := Suc (m_cleanup_errors m)\<rparr>) p3), s2)
            | (Inr _, s2) \<Rightarrow> (p3, s2)))))"

section \<open>Synchronize\<close>

definition adopt_one :: "string \<Rightarrow> fs \<Rightarrow> container \<Rightarrow> string list \<times> nat \<Rightarrow> string list \<times> nat" where
  "adopt_one root s ctr tn = (case tn of (tracked, n) \<Rightarrow>
     (case container_ca_key ctr of
        Inl _ \<Rightarrow> (tracked, n)
      | Inr key \<Rightarrow> (case sys_stat s (path_join [root, key]) of
            Inl _ \<Rightarrow> (tracked, n)
          | Inr _ \<Rightarrow> (List.insert key tracked, Suc n))))"

definition adopt_staged_containers :: "nri_env \<Rightarrow> container list \<Rightarrow> fs \<Rightarrow> plugin \<Rightarrow> plugin" where
  "adopt_staged_containers E ctrs s p =
     (case fold (adopt_one (dynamic_ca_root (ne_penv E)) s) ctrs (pl_tracked p, 0) of
        (tracked, staged) \<Rightarrow>
          (let p1 = upd_metrics (\<lambda>m. m\<lparr>m_active := int staged\<rparr>) (p\<lparr>pl_tracked := tracked\<rparr>) in
           if staged > 0 then say (Adopted staged) p1 else p1))"

text \<open>\<open>Synchronize\<close> up to its return; the scan for missed containers runs on its own.\<close>

definition synchronize :: "nri_env \<Rightarrow> container list \<Rightarrow> plugin \<Rightarrow> fs \<Rightarrow> plugin" where
  "synchronize E ctrs p s = adopt_staged_containers E ctrs s (p\<lparr>pl_ready := True\<rparr>)"

text \<open>\<open>byID[ctr.GetPodSandboxId()]\<close>: the last pod with the id.\<close>

definition pod_by_id :: "pod list \<Rightarrow> string \<Rightarrow> pod option" where
  "pod_by_id pods i = map_of (rev (map (\<lambda>p. (pod_id p, p)) pods)) i"

text \<open>One container of the scan: its key when its injection was missed.\<close>

definition missed_key ::
  "nri_env \<Rightarrow> go_context \<Rightarrow> pod list \<Rightarrow> container \<Rightarrow> plugin \<Rightarrow> fs \<Rightarrow> string option \<times> plugin \<times> fs" where
  "missed_key E ctx pods ctr p s =
     (if \<not> ct_running ctr then (None, p, s)
      else (case pod_by_id pods (ct_pod ctr) of
          None \<Rightarrow> (None, p, s)
        | Some pod \<Rightarrow>
           (case plugin_decide E ctx pod p s of (d, p1, s1) \<Rightarrow>
              if \<not> de_inject d \<or> is_container_excluded (ne_penv E) pod ctr then (None, p1, s1)
              else (case container_ca_key ctr of
                  Inl _ \<Rightarrow> (None, p1, s1)
                | Inr key \<Rightarrow>
                   (case sys_stat s1 (path_join [dynamic_ca_root (ne_penv E), key, breadcrumb_done]) of
                      Inr _ \<Rightarrow> (None, p1, s1)
                    | Inl _ \<Rightarrow> (Some key, say (MissedInjection key) p1, s1))))))"

text \<open>The scan. \<open>stop_at\<close> is the time \<open>stopCh\<close> is closed; \<open>None\<close> means it gave up.\<close>

fun scan_missed ::
  "nri_env \<Rightarrow> go_context \<Rightarrow> nat option \<Rightarrow> pod list \<Rightarrow> container list \<Rightarrow> string list \<Rightarrow> plugin \<Rightarrow> fs \<Rightarrow>
   string list option \<times> plugin \<times> fs" where
  "scan_missed E ctx stop_at pods [] keys p s = (Some keys, p, s)"
| "scan_missed E ctx stop_at pods (ctr # ctrs) keys p s =
     (if reached stop_at (fs_clock s) then (None, p, s)
      else if done_by ctx (fs_clock s) then (None, say (ScanTimedOut (length keys)) p, s)
      else (case missed_key E ctx pods ctr p s of (k, p1, s1) \<Rightarrow>
        scan_missed E ctx stop_at pods ctrs (keys @ (case k of None \<Rightarrow> [] | Some key \<Rightarrow> [key])) p1 s1))"

text \<open>The calls that commit a scan, in their order, and the one with which a removal ends. They take
  no common lock: each is atomic, and the calls of two goroutines can alternate.\<close>

datatype missed_op = ClearMissed | StoreMissed string | SetMissed nat | SummariseMissed nat nat | DecMissed

fun run_missed_op :: "missed_op \<Rightarrow> plugin \<Rightarrow> plugin" where
  "run_missed_op ClearMissed p = p\<lparr>pl_missed := []\<rparr>"
| "run_missed_op (StoreMissed k) p = p\<lparr>pl_missed := List.insert k (pl_missed p)\<rparr>"
| "run_missed_op (SetMissed n) p = upd_metrics (\<lambda>m. m\<lparr>m_missed := int n\<rparr>) p"
| "run_missed_op (SummariseMissed n scanned) p = say (MissedSummary n scanned) p"
| "run_missed_op DecMissed p = upd_metrics (\<lambda>m. m\<lparr>m_missed := m_missed m - 1\<rparr>) p"

definition commit_ops :: "string list \<Rightarrow> nat \<Rightarrow> missed_op list" where
  "commit_ops keys scanned =
     ClearMissed # map StoreMissed keys @ SetMissed (length keys) #
     (if keys \<noteq> [] then [SummariseMissed (length keys) scanned] else [])"

text \<open>The commit when nothing comes between its calls.\<close>

definition commit_missed :: "string list \<Rightarrow> nat \<Rightarrow> plugin \<Rightarrow> plugin" where
  "commit_missed keys scanned p = fold run_missed_op (commit_ops keys scanned) p"

definition scan_timeout :: nat where "scan_timeout = 120000"

definition report_missed_containers ::
  "nri_env \<Rightarrow> nat option \<Rightarrow> pod list \<Rightarrow> container list \<Rightarrow> plugin \<Rightarrow> fs \<Rightarrow> plugin \<times> fs" where
  "report_missed_containers E stop_at pods ctrs p s =
     (case scan_missed E \<lparr>c_deadline = Some (fs_clock s + scan_timeout), c_cancel = None\<rparr> stop_at
          pods ctrs [] p s of
        (None, p1, s1) \<Rightarrow> (p1, s1)
      | (Some keys, p1, s1) \<Rightarrow> (commit_missed keys (length ctrs) p1, s1))"

section \<open>The orphan cleaner's step\<close>

definition clean_orphans :: "nri_env \<Rightarrow> plugin \<Rightarrow> fs \<Rightarrow> plugin \<times> fs" where
  "clean_orphans E p s =
     (case sweep (dynamic_ca_root (ne_penv E)) (pl_tracked p) s of (n, s1) \<Rightarrow>
        (upd_metrics (\<lambda>m. m\<lparr>m_orphans_cleaned := m_orphans_cleaned m + n\<rparr>) p, s1))"

section \<open>Hook verification\<close>

text \<open>The goroutine looks at the file system again and again; \<open>view\<close> is what it finds at a
  time. \<open>stop_at\<close> is when \<open>stopCh\<close> is closed; a wait it interrupts ends the goroutine.\<close>

datatype verdict = Aborted | HookDone | ContainerGone | NeverStarted | Killed string

definition stopped_by :: "nat option \<Rightarrow> nat \<Rightarrow> bool" where
  "stopped_by stop_at t = (case stop_at of None \<Rightarrow> False | Some u \<Rightarrow> u < t)"

definition crumb_exists :: "(nat \<Rightarrow> fs) \<Rightarrow> nat \<Rightarrow> string \<Rightarrow> string \<Rightarrow> bool" where
  "crumb_exists view t dir name = (case sys_stat (view t) (path_join [dir, name]) of Inl _ \<Rightarrow> False | Inr _ \<Rightarrow> True)"

text \<open>The polls left, and the time. The last state of the wait is examined by \<open>verify_late\<close>.\<close>

definition verify_late :: "(nat \<Rightarrow> fs) \<Rightarrow> string \<Rightarrow> nat \<Rightarrow> verdict" where
  "verify_late view dir t =
     (case sys_stat (view t) dir of
        Inl ENOENT \<Rightarrow> ContainerGone
      | _ \<Rightarrow> if \<not> crumb_exists view t dir breadcrumb_started then NeverStarted
             else Killed (case os_read_file (view t) (path_join [dir, breadcrumb_progress]) of
               Inl _ \<Rightarrow> [] | Inr b \<Rightarrow> trim_space b))"

fun verify_poll :: "(nat \<Rightarrow> fs) \<Rightarrow> nat option \<Rightarrow> string \<Rightarrow> nat \<Rightarrow> nat \<Rightarrow> verdict" where
  "verify_poll view stop_at dir 0 t = verify_late view dir t"
| "verify_poll view stop_at dir (Suc n) t =
     (if crumb_exists view t dir breadcrumb_done then HookDone
      else if stopped_by stop_at (t + 100) then Aborted
      else verify_poll view stop_at dir n (t + 100))"

definition verify_hook_completion ::
  "strmap \<Rightarrow> (nat \<Rightarrow> fs) \<Rightarrow> nat option \<Rightarrow> string \<Rightarrow> nat \<Rightarrow> verdict" where
  "verify_hook_completion penv view stop_at key t0 =
     (let t = t0 + nat (seconds_duration (hook_timeout_sec penv) div 1000000) in
      if stopped_by stop_at t then Aborted
      else verify_poll view stop_at (path_join [dynamic_ca_root penv, key]) 5 t)"

text \<open>What the goroutine does to the plugin when it ends.\<close>

definition verify_finish :: "strmap \<Rightarrow> string \<Rightarrow> verdict \<Rightarrow> plugin \<Rightarrow> plugin" where
  "verify_finish penv key v p =
     (let p1 = p\<lparr>pl_verifying := remove1 key (pl_verifying p)\<rparr>;
          alarm = (\<lambda>e. upd_metrics (\<lambda>m. m\<lparr>m_hook_incomplete := Suc (m_hook_incomplete m)\<rparr>) (say e p1)) in
      (case v of NeverStarted \<Rightarrow> alarm (HookDidNotRun (hook_timeout_sec penv))
       | Killed progress \<Rightarrow> alarm (HookKilled progress (hook_timeout_sec penv))
       | _ \<Rightarrow> p1))"

section \<open>Staying connected (runNRI)\<close>

definition nri_backoff_min :: nat where "nri_backoff_min = 100"
definition nri_backoff_max :: nat where "nri_backoff_max = 2000"
definition nri_give_up :: nat where "nri_give_up = 120000"

text \<open>What one call of \<open>stub.Run\<close> turned out to be: how long it took, whether the runtime
  synchronised during it, its error, whether the context was cancelled when it returned or
  during the wait after it.\<close>

record session =
  sn_took :: nat
  sn_ready :: bool
  sn_err :: "goerr option"
  sn_cancelled :: bool
  sn_wait_cancelled :: bool

text \<open>The loop's variables: \<open>backoff\<close>, and \<open>failingSince\<close> unless it is the zero time.\<close>

record reconnect =
  rc_backoff :: nat
  rc_failing :: "nat option"

definition reconnect_start :: reconnect where
  "reconnect_start = \<lparr>rc_backoff = nri_backoff_min, rc_failing = None\<rparr>"

datatype nri_exit = Stopped | GaveUp "goerr option"

text \<open>The loop body after \<open>stub.Run\<close> returned at \<open>now\<close>: the loop's result, or the wait and the
  variables of the next turn.\<close>

definition after_session :: "nat \<Rightarrow> session \<Rightarrow> reconnect \<Rightarrow> nri_exit + nat \<times> reconnect" where
  "after_session now sn rc =
     (if sn_cancelled sn then Inl Stopped
      else
       (let fresh = (sn_ready sn \<or> rc_failing rc = None);
            failing = (if fresh then now else the (rc_failing rc));
            backoff = (if fresh then nri_backoff_min else rc_backoff rc) in
        if now - failing > nri_give_up then Inl (GaveUp (sn_err sn))
        else if sn_wait_cancelled sn then Inl Stopped
        else Inr (backoff, \<lparr>rc_backoff = min (backoff * 2) nri_backoff_max, rc_failing = Some failing\<rparr>)))"

text \<open>The loop over the sessions of a run: its result, unless it is still going after the last
  one, and the waits between them.\<close>

fun run_nri :: "session list \<Rightarrow> nat \<Rightarrow> reconnect \<Rightarrow> nri_exit option \<times> nat list" where
  "run_nri [] now rc = (None, [])"
| "run_nri (sn # sns) now rc =
     (let t = now + sn_took sn in
      (case after_session t sn rc of
         Inl x \<Rightarrow> (Some x, [])
       | Inr (wait, rc1) \<Rightarrow> (case run_nri sns (t + wait) rc1 of (x, ws) \<Rightarrow> (x, wait # ws))))"

section \<open>Health (server.go)\<close>

text \<open>Status code and body of \<open>/healthz\<close> and \<open>/readyz\<close>.\<close>

definition handle_health :: "nat \<times> string" where
  "handle_health = (200, ''ok'')"

definition handle_ready :: "plugin \<Rightarrow> nat \<times> string" where
  "handle_ready p = (if \<not> pl_ready p then (503, ''not ready: NRI not synchronised'') else (200, ''ok''))"

end
