(* ===== verification/Dynamic_Ca_Correct.thy ===== *)
theory Dynamic_Ca_Correct
  imports Dynamic_Ca File_Ops Sample_Fs
begin

text \<open>
  The staging directories: each container's files stay below its own directory, a staged
  bundle is the validated source, and the cleaner removes exactly the directories that
  nobody tracks and nobody touched for ten minutes.
\<close>

section \<open>The root of the staging directories\<close>

text \<open>The root is a real directory without links in it: only the plugin creates entries there.\<close>

definition stage_root :: "fpath \<Rightarrow> fs \<Rightarrow> bool" where
  "stage_root D s = (wf_fs s \<and> real_dir (node_at s) D \<and> (\<forall>q. \<not> is_link (node_at s (D @ q))))"

definition key_area :: "fpath \<Rightarrow> string \<Rightarrow> fpath set" where
  "key_area D k = {q. prefix (D @ [k]) q}"

lemma key_areas_disjoint: "k \<noteq> k' \<Longrightarrow> key_area D k \<inter> key_area D k' = {}"
  by (auto simp: key_area_def prefix_def)

lemma key_area_above: "prefix p D \<Longrightarrow> p \<notin> key_area D k"
  by (auto simp: key_area_def prefix_def)

lemma stage_path:
  assumes "real_dir m D" and "valid_name k"
  shows "path_join [abs_path D, k] = abs_path (D @ [k])"
proof -
  have "clean_comps True [] (comps (abs_path D)) = D"
    using real_dir_names [OF assms(1)] clean_comps_valid [of D True "[]"] by simp
  then show ?thesis using path_join_two [of "abs_path D" "[k]"] assms(2) by simp
qed

lemma container_ca_key_valid: "container_ca_key ctr = Inr key \<Longrightarrow> valid_name key"
  using sanitize_valid_name by (auto simp: container_ca_key_def Let_def split: if_splits)

lemma container_ca_dir_eq:
  assumes "real_dir m D" and "container_ca_key ctr = Inr key"
  shows "container_ca_dir (abs_path D) ctr = Inr (abs_path (D @ [key]))"
  using stage_path [OF assms(1), of key] container_ca_key_valid [OF assms(2)] assms(2)
  by (simp add: container_ca_dir_def)

lemma stage_root_step:
  assumes "stage_root D s" and "tree_op s s'"
  shows "stage_root D s'"
  using assms tree_op_real_dir [OF assms(2)] by (auto simp: stage_root_def tree_op_def)

section \<open>Staging\<close>

lemma ca_file_valid [simp]: "valid_name dynamic_ca_file_name"
  by (simp add: valid_name_def dynamic_ca_file_name_def dot_def dotdot_def slash_def)

lemma stage_mkdir:
  assumes ok: "stage_root D s" and k: "valid_name k"
    and run: "os_mkdir_all (abs_path (D @ [k])) 448 s = (r, s1)"
  shows "changes_only (key_area D k) s s1 \<and> tree_op s s1 \<and> (r = Inr () \<longrightarrow> real_dir (node_at s1) (D @ [k]))"
proof -
  have rd: "real_dir (node_at s) D" and wf: "wf_fs s" and nl: "\<not> is_link (node_at s (D @ [k]))"
    using ok by (auto simp: stage_root_def)
  have v: "valid_names (D @ [k])" using real_dir_names [OF rd] k by simp
  have c: "clear (node_at s) [] (D @ [k])"
    using real_dir_clear [OF rd] nl by (simp add: clear_append clear_Cons)
  have "mkdir_all_rev (rev (D @ [k])) 448 s = (r, s1)"
    using run by (simp only: os_mkdir_all_def comps_abs_path [OF v])
  then have *: "dirs_added (D @ [k]) s s1 \<and> wf_fs s1 \<and> (r = Inr () \<longrightarrow> is_dir (node_at s1 (D @ [k])))"
    using mkdir_all_rev_spec [of s "rev (D @ [k])"] wf c v by (auto simp: list_all_iff)
  have "{q. prefix q (D @ [k]) \<and> node_at s q = None} \<subseteq> key_area D k"
    using rd by (auto simp: key_area_def real_dir_def dest: is_dir_not_None)
  then have "changes_only (key_area D k) s s1"
    using * changes_only_mono unfolding dirs_added_def by blast
  moreover have "tree_op s s1" using * dirs_added_tree_op by blast
  moreover have "r = Inr () \<longrightarrow> real_dir (node_at s1) (D @ [k])"
    using * wf_tree_real_dir unfolding wf_fs_def by blast
  ultimately show ?thesis by blast
qed

text \<open>What staging promises: nothing outside the container's directory changes, and on success the
  bundle file holds the bytes of the source, which are a valid bundle.\<close>

lemma stage_write:
  assumes rd: "real_dir (node_at s) (D @ [k])" and wf: "wf_fs s"
    and nl: "\<not> is_link (node_at s ((D @ [k]) @ [dynamic_ca_file_name]))"
    and run: "atomic_write (abs_path (D @ [k, dynamic_ca_file_name])) content dynamic_options s = (r, s')"
  shows "changes_only (key_area D k) s s' \<and> tree_op s s' \<and>
    (r = Inr () \<longrightarrow> (\<exists>mt. node_at s' (D @ [k, dynamic_ca_file_name]) = Some (NReg content mt) \<and>
       fmode mt = new_mode s (D @ [k, dynamic_ca_file_name]) 384))"
proof -
  let ?f = "(D @ [k]) @ [dynamic_ca_file_name]"
  have run': "atomic_write (abs_path ?f) content dynamic_options s = (r, s')" using run by simp
  have "insert ?f (temps (D @ [k])) \<subseteq> key_area D k" by (auto simp: key_area_def temps_def)
  then have c: "changes_only (key_area D k) s s'"
    using changes_only_mono [OF atomic_write_changes [OF rd ca_file_valid, of content dynamic_options]] run' by simp
  have t: "tree_op s s'"
    using atomic_write_file_op [OF rd wf ca_file_valid, of content dynamic_options] run' file_op_tree_op by simp
  have np: "\<not> has_prefix dynamic_ca_file_name ''.cainjekt-''"
    by (simp add: dynamic_ca_file_name_def has_prefix_def)
  have "\<exists>mt. node_at s' ?f = Some (NReg content mt) \<and> fmode mt = new_mode s ?f 384" if "r = Inr ()"
  proof -
    from atomic_write_contract [OF rd ca_file_valid np nl, of content dynamic_options]
    show ?thesis using run' that by (auto simp: aw_contract_def dynamic_options_def)
  qed
  with c t show ?thesis by simp
qed

lemma stage_ok:
  assumes ok: "stage_root D s" and k: "container_ca_key ctr = Inr key"
    and run: "stage_dynamic_ca_file C source (abs_path D) ctr s = (r, s')"
  shows "changes_only (key_area D key) s s' \<and> stage_root D s' \<and>
    (\<forall>ca_file content. r = Inr (ca_file, content) \<longrightarrow>
       ca_file = abs_path (D @ [key, dynamic_ca_file_name]) \<and> os_read_file s source = Inr content \<and>
       validate_pem C content = Inr () \<and>
       (\<exists>mt. node_at s' (D @ [key, dynamic_ca_file_name]) = Some (NReg content mt)))"
proof -
  have rd: "real_dir (node_at s) D" using ok by (simp add: stage_root_def)
  have v: "valid_name key" using container_ca_key_valid [OF k] .
  obtain r1 s1 where m: "os_mkdir_all (abs_path (D @ [key])) 448 s = (r1, s1)"
    by (cases "os_mkdir_all (abs_path (D @ [key])) 448 s")
  note made = stage_mkdir [OF ok v m]
  have ok1: "stage_root D s1" using stage_root_step [OF ok] made by blast
  note dir = container_ca_dir_eq [OF rd k]
  show ?thesis
  proof (cases "\<exists>content. os_read_file s source = Inr content \<and> validate_pem C content = Inr () \<and> r1 = Inr ()")
    case False
    then have "(\<exists>e. r = Inl e) \<and> (s' = s \<or> s' = s1)"
      using run m by (auto simp: stage_dynamic_ca_file_def dir split: sum.splits prod.splits)
    then show ?thesis using made ok ok1 by auto
  next
    case True
    then obtain content where c: "os_read_file s source = Inr content" "validate_pem C content = Inr ()"
      and r1: "r1 = Inr ()" by blast
    have rd1: "real_dir (node_at s1) (D @ [key])" using made r1 by blast
    have tgt: "path_join [abs_path (D @ [key]), dynamic_ca_file_name] = abs_path (D @ [key, dynamic_ca_file_name])"
      using stage_path [OF rd1 ca_file_valid] by simp
    obtain r2 s2 where a: "atomic_write (abs_path (D @ [key, dynamic_ca_file_name])) content dynamic_options s1 = (r2, s2)"
      by (cases "atomic_write (abs_path (D @ [key, dynamic_ca_file_name])) content dynamic_options s1")
    have nl: "\<not> is_link (node_at s1 ((D @ [key]) @ [dynamic_ca_file_name]))"
      using ok1 by (simp add: stage_root_def)
    have "wf_fs s1" using ok1 by (simp add: stage_root_def)
    note written = stage_write [OF rd1 this nl a]
    have "stage_root D s2" using stage_root_step [OF ok1] written by blast
    moreover have "changes_only (key_area D key) s s2" using made written changes_only_trans by blast
    moreover have "s' = s2 \<and> r = (case r2 of Inl e \<Rightarrow> Inl (Wrapped ''failed to write dynamic CA file'' e)
        | Inr _ \<Rightarrow> Inr (abs_path (D @ [key, dynamic_ca_file_name]), content))"
      using run c r1 m a dir tgt by (auto simp: stage_dynamic_ca_file_def Let_def split: sum.splits)
    ultimately show ?thesis using written c by (auto split: sum.splits)
  qed
qed

section \<open>Removal\<close>

definition removed :: "fpath \<Rightarrow> fs \<Rightarrow> fs \<Rightarrow> bool" where
  "removed q s s' = (changes_only {p. prefix q p} s s' \<and> fs_clock s' = fs_clock s \<and>
     (\<forall>p. node_at s' p = (if prefix q p then None else node_at s p)) \<and>
     (\<forall>p. p \<noteq> butlast q \<longrightarrow> fs_mtimes s' p = fs_mtimes s p))"

lemma map_of_filter_keys: "map_of (filter (\<lambda>(k, v). P k) xs) = (\<lambda>k. if P k then map_of xs k else None)"
  by (induction xs) (auto simp: fun_eq_iff)

lemma removed_refl: "node_at s q = None \<Longrightarrow> wf_fs s \<Longrightarrow> removed q s s"
  using wf_tree_below_missing [of "node_at s" q] by (auto simp: removed_def wf_fs_def prefix_def)

lemma remove_all_entry:
  assumes rd: "real_dir (node_at s) d" and wf: "wf_fs s" and n: "valid_name n"
    and run: "sys_remove_all (abs_path (d @ [n])) s = (r, s')"
  shows "(r = Inr () \<and> removed (d @ [n]) s s') \<or>
    ((\<exists>f. r = Inl (Sys (Fault f))) \<and> s' = s \<and> fs_faults s RemoveAll (d @ [n]) \<noteq> None)"
proof -
  have v: "comps (abs_path (d @ [n])) = d @ [n]" using real_dir_names [OF rd] n by simp
  define u where "u = commit (filter (\<lambda>(p, x). \<not> prefix (d @ [n]) p) (fs_nodes s)) s"
  have nodes: "node_at u = (\<lambda>p. if prefix (d @ [n]) p then None else node_at s p)"
    unfolding u_def node_at_commit map_of_filter_keys map_of_fs_nodes by (auto simp: fun_eq_iff)
  have "changes_only {p. prefix (d @ [n]) p} s u"
    unfolding u_def by (rule changes_only_commit) (simp add: map_of_filter_keys map_of_fs_nodes)
  then have "removed (d @ [n]) s (touch_dir (d @ [n]) u)"
    by (simp add: removed_def nodes) (simp add: touch_dir_def u_def commit_def)
  moreover have "removed (d @ [n]) s s" if "node_at s (d @ [n]) = None"
    using removed_refl [OF that wf] .
  ultimately show ?thesis
    using run host_walk_entry [OF rd n]
    by (auto simp: sys_remove_all_def v u_def [symmetric] split: option.splits if_splits)
qed

lemma removed_stage_root:
  assumes ok: "stage_root D s" and r: "removed (D @ [k]) s s'"
  shows "stage_root D s'"
proof -
  have n: "node_at s' = (\<lambda>p. if prefix (D @ [k]) p then None else node_at s p)"
    using r by (auto simp: removed_def)
  have wf: "wf_tree (node_at s)" and rd: "real_dir (node_at s) D" using ok by (auto simp: stage_root_def wf_fs_def)
  have above: "\<not> prefix (D @ [k]) p" if "prefix p D" for p using that by (auto simp: prefix_def)
  have "wf_tree (node_at s')" unfolding wf_tree_def
  proof (intro conjI allI impI)
    show "is_dir (node_at s' [])" using wf_tree_root [OF wf] by (simp add: n)
    fix p c assume "node_at s' (p @ [c]) \<noteq> None"
    then have "node_at s (p @ [c]) \<noteq> None" "\<not> prefix (D @ [k]) (p @ [c])" by (auto simp: n split: if_splits)
    then show "valid_name c" "is_dir (node_at s' p)" using wf_treeD [OF wf] by (auto simp: n)
  qed
  moreover have "real_dir (node_at s') D"
    using rd above by (auto simp: n real_dir_def)
  moreover have "\<not> is_link (node_at s' (D @ q))" for q using ok by (simp add: n stage_root_def)
  ultimately show ?thesis by (simp add: stage_root_def wf_fs_def)
qed

lemma cleanup_ok:
  assumes ok: "stage_root D s" and k: "container_ca_key ctr = Inr key"
    and run: "cleanup_dynamic_ca_file (abs_path D) ctr s = (r, s')"
  shows "changes_only (key_area D key) s s' \<and> stage_root D s' \<and> (r = Inr () \<longrightarrow> removed (D @ [key]) s s')"
proof -
  have rd: "real_dir (node_at s) D" and wf: "wf_fs s" using ok by (auto simp: stage_root_def)
  obtain r1 s1 where m: "sys_remove_all (abs_path (D @ [key])) s = (r1, s1)"
    by (cases "sys_remove_all (abs_path (D @ [key])) s")
  have cases: "r1 = Inr () \<and> removed (D @ [key]) s s1 \<or> (\<exists>f. r1 = Inl (Sys (Fault f))) \<and> s1 = s"
    using remove_all_entry [OF rd wf container_ca_key_valid [OF k] m] by auto
  have run': "(r, s') = (case r1 of Inr _ \<Rightarrow> (Inr (), s1) | Inl e \<Rightarrow> if \<not> is_not_exist e
      then (Inl (Wrapped ''failed to remove dynamic CA directory'' e), s1) else (Inr (), s1))"
    unfolding run [symmetric] cleanup_dynamic_ca_file_def container_ca_dir_eq [OF rd k]
    by (simp add: m split: sum.split)
  from cases show ?thesis
  proof
    assume 1: "r1 = Inr () \<and> removed (D @ [key]) s s1"
    then have "removed (D @ [key]) s s'" using run' by simp
    moreover from this have "stage_root D s'" by (rule removed_stage_root [OF ok])
    ultimately show ?thesis by (simp add: removed_def key_area_def)
  next
    assume 2: "(\<exists>f. r1 = Inl (Sys (Fault f))) \<and> s1 = s"
    then have "s' = s" "r \<noteq> Inr ()" using run' by auto
    then show ?thesis using ok by simp
  qed
qed

section \<open>The cleaner\<close>

definition orphan :: "fpath \<Rightarrow> string list \<Rightarrow> fs \<Rightarrow> string \<Rightarrow> bool" where
  "orphan D tracked s k = (k \<notin> set tracked \<and> is_dir (node_at s (D @ [k])) \<and>
     fs_mtimes s (D @ [k]) + orphan_age \<le> fs_clock s)"

text \<open>What holds after some entries, of which \<open>ks\<close> are the names, have been looked at.\<close>

definition swept :: "fpath \<Rightarrow> string list \<Rightarrow> fs \<Rightarrow> string set \<Rightarrow> nat \<times> fs \<Rightarrow> bool" where
  "swept D tracked s ks ns =
     (stage_root D (snd ns) \<and> changes_only {q. \<exists>k \<in> ks. orphan D tracked s k \<and> prefix (D @ [k]) q} s (snd ns) \<and>
      fs_clock (snd ns) = fs_clock s \<and> (\<forall>k. fs_mtimes (snd ns) (D @ [k]) = fs_mtimes s (D @ [k])) \<and>
      (\<forall>q. node_at (snd ns) q = node_at s q \<or> node_at (snd ns) q = None) \<and>
      ((\<forall>c p. fs_faults s c p = None) \<longrightarrow>
         (\<forall>k \<in> ks. orphan D tracked s k \<longrightarrow> (\<forall>q. prefix (D @ [k]) q \<longrightarrow> node_at (snd ns) q = None)) \<and>
         fst ns = card {k \<in> ks. orphan D tracked s k}))"

lemma swept_complete:
  assumes "swept D tracked s ks (n, s')" and "\<forall>c p. fs_faults s c p = None"
  shows "(\<forall>k \<in> ks. orphan D tracked s k \<longrightarrow> (\<forall>q. prefix (D @ [k]) q \<longrightarrow> node_at s' q = None)) \<and>
    n = card {k \<in> ks. orphan D tracked s k}"
  using assms by (simp add: swept_def)

lemma swept_skip:
  assumes "swept D tracked s ks ns" and "\<not> orphan D tracked s k"
  shows "swept D tracked s (insert k ks) ns"
proof -
  have "{x \<in> insert k ks. orphan D tracked s x} = {x \<in> ks. orphan D tracked s x}" using assms(2) by auto
  moreover have "changes_only {q. \<exists>x \<in> insert k ks. orphan D tracked s x \<and> prefix (D @ [x]) q} s (snd ns)"
    using assms by (auto simp: swept_def elim!: changes_only_mono)
  ultimately show ?thesis using assms by (simp add: swept_def)
qed

lemma swept_removed:
  assumes sw: "swept D tracked s ks (n, u)" and o: "orphan D tracked s k" and k: "k \<notin> ks" "finite ks"
    and rm: "removed (D @ [k]) u u'"
  shows "swept D tracked s (insert k ks) (Suc n, u')"
proof -
  let ?R = "\<lambda>ks. {q. \<exists>x \<in> ks. orphan D tracked s x \<and> prefix (D @ [x]) q}"
  have node: "node_at u' q = (if prefix (D @ [k]) q then None else node_at u q)" for q
    using rm by (simp add: removed_def)
  have "changes_only (?R (insert k ks)) s u"
    using sw by (auto simp: swept_def elim!: changes_only_mono)
  moreover have "changes_only (?R (insert k ks)) u u'"
    by (rule changes_only_mono [of "{p. prefix (D @ [k]) p}"]) (use rm o in \<open>auto simp: removed_def\<close>)
  ultimately have c: "changes_only (?R (insert k ks)) s u'" by (rule changes_only_trans)
  have root: "stage_root D u'" using sw removed_stage_root [OF _ rm] by (simp add: swept_def)
  have "{x \<in> insert k ks. orphan D tracked s x} = insert k {x \<in> ks. orphan D tracked s x}" using o by auto
  then have "card {x \<in> insert k ks. orphan D tracked s x} = Suc (card {x \<in> ks. orphan D tracked s x})"
    using k by simp
  moreover have "\<forall>q. node_at u' q = node_at s q \<or> node_at u' q = None" using sw by (auto simp: swept_def node)
  moreover have "fs_clock u' = fs_clock s \<and> (\<forall>x. fs_mtimes u' (D @ [x]) = fs_mtimes s (D @ [x]))"
    using sw rm by (auto simp: swept_def removed_def)
  ultimately show ?thesis using sw c root by (auto simp: swept_def node)
qed

lemma sweep_entry_swept:
  assumes sw: "swept D tracked s ks (n, u)" and v: "valid_name k" and k: "k \<notin> ks" "finite ks"
    and same: "node_at u (D @ [k]) = node_at s (D @ [k])"
  shows "swept D tracked s (insert k ks)
    (sweep_entry (abs_path D) tracked (k, is_dir (node_at s (D @ [k]))) (n, u))"
proof (cases "is_dir (node_at s (D @ [k])) \<and> k \<notin> set tracked")
  case False
  then show ?thesis
    using swept_skip [OF sw, of k] by (auto simp: sweep_entry_def orphan_def)
next
  case True
  have root: "stage_root D u" and faults: "fs_faults u = fs_faults s" and clock: "fs_clock u = fs_clock s"
    and mt: "fs_mtimes u (D @ [k]) = fs_mtimes s (D @ [k])"
    using sw by (auto simp: swept_def dest: changes_only_faults)
  have rd: "real_dir (node_at u) D" and wf: "wf_fs u" using root by (auto simp: stage_root_def)
  have path: "path_join [abs_path D, k] = abs_path (D @ [k])" using stage_path [OF rd v] .
  obtain x where x: "node_at u (D @ [k]) = Some x" using True same by (cases "node_at s (D @ [k])") auto
  have mtime: "entry_mtime u (abs_path (D @ [k])) = (case fs_faults s Lstat (D @ [k]) of
      Some f \<Rightarrow> Inl (Fault f) | None \<Rightarrow> Inr (fs_mtimes s (D @ [k])))"
    by (simp add: entry_mtime_def sys_lstat_entry [OF rd v] x host_walk_entry [OF rd v] mt faults split: option.split)
  obtain r1 u1 where rm: "sys_remove_all (abs_path (D @ [k])) u = (r1, u1)"
    by (cases "sys_remove_all (abs_path (D @ [k])) u")
  have step: "sweep_entry (abs_path D) tracked (k, is_dir (node_at s (D @ [k]))) (n, u) =
      (case fs_faults s Lstat (D @ [k]) of Some f \<Rightarrow> (n, u)
       | None \<Rightarrow> if fs_clock s < fs_mtimes s (D @ [k]) + orphan_age then (n, u)
           else (case r1 of Inl _ \<Rightarrow> (n, u1) | Inr _ \<Rightarrow> (Suc n, u1)))"
    using True by (simp add: sweep_entry_def path Let_def mtime clock rm split: option.split sum.split)
  note out = remove_all_entry [OF rd wf v rm]
  have keep: "swept D tracked s (insert k ks) (n, u)" if "fs_faults s c (D @ [k]) \<noteq> None" for c
    using sw that by (auto simp: swept_def elim!: changes_only_mono)
  show ?thesis
  proof (cases "orphan D tracked s k")
    case False
    then have "fs_clock s < fs_mtimes s (D @ [k]) + orphan_age" using True by (simp add: orphan_def)
    then show ?thesis using step swept_skip [OF sw False] by (simp split: option.split)
  next
    case orph: True
    then have old: "\<not> fs_clock s < fs_mtimes s (D @ [k]) + orphan_age" by (simp add: orphan_def)
    show ?thesis
      using out step old keep [of Lstat] keep [of RemoveAll] swept_removed [OF sw orph k] faults
      by (auto split: option.splits)
  qed
qed

lemma sweep_fold:
  "distinct names \<Longrightarrow> set names \<inter> ks = {} \<Longrightarrow> finite ks \<Longrightarrow> list_all valid_name names \<Longrightarrow>
   swept D tracked s ks (n, u) \<Longrightarrow>
   swept D tracked s (set names \<union> ks)
     (fold (sweep_entry (abs_path D) tracked) (map (\<lambda>k. (k, is_dir (node_at s (D @ [k])))) names) (n, u))"
proof (induction names arbitrary: ks n u)
  case (Cons k names)
  have same: "node_at u (D @ [k]) = node_at s (D @ [k])"
    using Cons.prems(2,5) by (intro changes_only_node [of "{q. \<exists>x \<in> ks. orphan D tracked s x \<and> prefix (D @ [x]) q}"])
      (auto simp: swept_def prefix_def)
  obtain n1 u1 where e: "sweep_entry (abs_path D) tracked (k, is_dir (node_at s (D @ [k]))) (n, u) = (n1, u1)"
    by (cases "sweep_entry (abs_path D) tracked (k, is_dir (node_at s (D @ [k]))) (n, u)")
  have "swept D tracked s (insert k ks) (n1, u1)"
    using sweep_entry_swept [OF Cons.prems(5) _ _ Cons.prems(3) same] e Cons.prems(2,4) by auto
  from Cons.IH [OF _ _ _ _ this] show ?case using Cons.prems e by (simp add: Un_commute)
qed simp

lemma dir_names_set: "set (dir_names (fs_nodes s) d) = {k. node_at s (d @ [k]) \<noteq> None}"
proof -
  have "k \<in> set (dir_names (fs_nodes s) d) \<longleftrightarrow> node_at s (d @ [k]) \<noteq> None" for k
  proof
    assume "k \<in> set (dir_names (fs_nodes s) d)"
    then obtain q where "q \<noteq> []" "butlast q = d" "last q = k" "map_of (fs_nodes s) q \<noteq> None"
      by (auto simp: dir_names_def)
    then show "node_at s (d @ [k]) \<noteq> None"
      using append_butlast_last_id [of q] by (simp add: node_at_def)
  next
    assume "node_at s (d @ [k]) \<noteq> None"
    then have *: "map_of (fs_nodes s) (d @ [k]) \<noteq> None" by (simp add: node_at_def)
    then have "d @ [k] \<in> fst ` set (fs_nodes s)" by (simp only: map_of_eq_None_iff) simp
    with * show "k \<in> set (dir_names (fs_nodes s) d)"
      by (force simp: dir_names_def image_iff intro!: bexI [of _ "d @ [k]"])
  qed
  then show ?thesis by blast
qed

lemma dir_names_distinct: "distinct (dir_names m d)"
  by (simp add: dir_names_def)

lemma sweep_swept:
  assumes ok: "stage_root D s"
  shows "swept D tracked s (if fs_faults s ReadDir D = None then {k. node_at s (D @ [k]) \<noteq> None} else {})
    (sweep (abs_path D) tracked s)"
proof -
  have rd: "real_dir (node_at s) D" and wf: "wf_tree (node_at s)" using ok by (auto simp: stage_root_def wf_fs_def)
  have start: "swept D tracked s {} (0, s)" using ok by (simp add: swept_def)
  have d: "is_dir (node_at s D)" using rd by (simp add: real_dir_def)
  then obtain mt where mt: "node_at s D = Some (NDir mt)" by (cases "node_at s D" rule: is_dir.cases) auto
  have v: "list_all valid_name (dir_names (fs_nodes s) D)"
    using wf_treeD [OF wf] by (auto simp: list_all_iff dir_names_set)
  have entries: "read_dir_entries s (abs_path D) = (case fs_faults s ReadDir D of Some f \<Rightarrow> Inl (Fault f)
      | None \<Rightarrow> Inr (map (\<lambda>k. (k, is_dir (node_at s (D @ [k])))) (dir_names (fs_nodes s) D)))"
    by (simp add: read_dir_entries_def sys_read_dir_def host_walk_self [OF rd] mt real_dir_names [OF rd]
        split: option.split)
  show ?thesis
    using start sweep_fold [OF dir_names_distinct _ _ v start]
    by (auto simp: sweep_def entries dir_names_set split: option.split)
qed

end
