(* ===== verification/Nri_Safety.thy ===== *)
theory Nri_Safety
  imports Nri_Plugin Dynamic_Ca_Correct
begin

text \<open>
  The plugin's life on a node as a step relation: containers are created and removed, the
  runtime (re)connects, the scan for missed containers ends whenever it does, the cleaner
  ticks, hooks and other programs write their own files. The invariant: the bundle of a
  container that was injected and not removed is tracked and stays as it was staged. The
  handlers are taken one at a time, but for the calls on the set and the gauge of missed
  containers, which two goroutines share: each of these is a step of its own.
\<close>

section \<open>The state of a node\<close>

text \<open>\<open>nd_live\<close> is a ghost: the key and the staged bundle of each injected container that has not
  been removed. \<open>nd_ops\<close> holds, for each goroutine that works on the missed containers, the
  calls it has still to make: the commits of finished scans, and the \<open>Dec\<close> of a removal.\<close>

record node_state =
  nd_plugin :: plugin
  nd_fs :: fs
  nd_live :: "(string \<times> bytes) list"
  nd_ops :: "missed_op list list"

definition bundle_at :: "fpath \<Rightarrow> fs \<Rightarrow> string \<Rightarrow> bytes option" where
  "bundle_at D s key = (case node_at s (D @ [key, dynamic_ca_file_name]) of
     Some (NReg b mt) \<Rightarrow> Some b | _ \<Rightarrow> None)"

definition live_after :: "fpath \<Rightarrow> container \<Rightarrow> adjustment option res \<Rightarrow> fs \<Rightarrow> (string \<times> bytes) list \<Rightarrow>
    (string \<times> bytes) list" where
  "live_after D ctr r s live = (case (container_ca_key ctr, r) of
     (Inr key, Inr (Some adj)) \<Rightarrow> (key, case bundle_at D s key of Some b \<Rightarrow> b | None \<Rightarrow> []) # live
   | _ \<Rightarrow> live)"

definition live_without :: "container \<Rightarrow> (string \<times> bytes) list \<Rightarrow> (string \<times> bytes) list" where
  "live_without ctr live = filter (\<lambda>(k, b). container_ca_key ctr \<noteq> Inr k) live"

text \<open>Other programs, hooks among them, leave the bundles of live containers alone and put no
  links into the staging directories.\<close>

definition foreign_step :: "fpath \<Rightarrow> (string \<times> bytes) list \<Rightarrow> fs \<Rightarrow> fs \<Rightarrow> bool" where
  "foreign_step D live s s' = (stage_root D s' \<and> fs_faults s' = fs_faults s \<and>
     (\<forall>(k, b) \<in> set live. bundle_at D s' k = bundle_at D s k))"

text \<open>A removal that found its container among the missed ones still owes the gauge its \<open>Dec\<close>.\<close>

definition owed_ops :: "plugin \<Rightarrow> plugin \<Rightarrow> missed_op list" where
  "owed_ops p p' = (if pl_missed p' = pl_missed p then [] else [DecMissed])"

definition without_dec :: "plugin \<Rightarrow> plugin \<Rightarrow> plugin" where
  "without_dec p p' = upd_metrics (\<lambda>m. m\<lparr>m_missed := m_missed (pl_metrics p)\<rparr>) p'"

text \<open>A container is created with an identifier no live container has; the runtime reports each
  container once.\<close>

inductive nri_step :: "nri_env \<Rightarrow> fpath \<Rightarrow> node_state \<Rightarrow> node_state \<Rightarrow> bool" for E D where
  Create: "\<forall>(k, b) \<in> set (nd_live st). container_ca_key ctr \<noteq> Inr k \<Longrightarrow>
    create_container E ctx pod ctr (nd_plugin st) (nd_fs st) = (r, p', s') \<Longrightarrow>
    nri_step E D st (st\<lparr>nd_plugin := p', nd_fs := s', nd_live := live_after D ctr r s' (nd_live st)\<rparr>)"
| Remove: "remove_container E ctx pod ctr (nd_plugin st) (nd_fs st) = (p', s') \<Longrightarrow>
    nri_step E D st (st\<lparr>nd_plugin := without_dec (nd_plugin st) p', nd_fs := s',
      nd_live := live_without ctr (nd_live st), nd_ops := owed_ops (nd_plugin st) p' # nd_ops st\<rparr>)"
| Synchronize: "nri_step E D st (st\<lparr>nd_plugin := synchronize E ctrs (nd_plugin st) (nd_fs st)\<rparr>)"
| ScanEnds: "distinct (map container_ca_key ctrs) \<Longrightarrow>
    scan_missed E ctx stop_at pods ctrs [] (nd_plugin st) (nd_fs st) = (result, p', s') \<Longrightarrow>
    nri_step E D st (st\<lparr>nd_plugin := p', nd_fs := s',
      nd_ops := (case result of None \<Rightarrow> [] | Some keys \<Rightarrow> commit_ops keys (length ctrs)) # nd_ops st\<rparr>)"
| MissedOp: "nd_ops st = ts @ (op # ops) # us \<Longrightarrow>
    nri_step E D st (st\<lparr>nd_plugin := run_missed_op op (nd_plugin st), nd_ops := ts @ ops # us\<rparr>)"
| Sweep: "clean_orphans E (nd_plugin st) (nd_fs st) = (p', s') \<Longrightarrow>
    nri_step E D st (st\<lparr>nd_plugin := p', nd_fs := s'\<rparr>)"
| Verified: "nri_step E D st (st\<lparr>nd_plugin := verify_finish (ne_penv E) key v (nd_plugin st)\<rparr>)"
| Disconnect: "nri_step E D st (st\<lparr>nd_plugin := (nd_plugin st)\<lparr>pl_ready := False\<rparr>\<rparr>)"
| Tick: "fs_clock (nd_fs st) \<le> t \<Longrightarrow>
    nri_step E D st (st\<lparr>nd_fs := (nd_fs st)\<lparr>fs_clock := t\<rparr>\<rparr>)"
| Foreign: "foreign_step D (nd_live st) (nd_fs st) s' \<Longrightarrow> nri_step E D st (st\<lparr>nd_fs := s'\<rparr>)"

text \<open>A plugin that has just started and synchronised. Live containers are those of an earlier
  instance: the runtime reports them and their directories can be examined.\<close>

definition nri_init :: "nri_env \<Rightarrow> fpath \<Rightarrow> node_state \<Rightarrow> bool" where
  "nri_init E D st = (\<exists>now ctrs. stage_root D (nd_fs st) \<and>
     nd_plugin st = synchronize E ctrs (new_plugin (ne_world E) (ne_penv E) now) (nd_fs st) \<and>
     nd_ops st = [] \<and>
     (\<forall>(k, b) \<in> set (nd_live st). bundle_at D (nd_fs st) k = Some b \<and>
        fs_faults (nd_fs st) Stat (D @ [k]) = None \<and>
        (\<exists>ctr \<in> set ctrs. container_ca_key ctr = Inr k)))"

inductive nri_reachable :: "nri_env \<Rightarrow> fpath \<Rightarrow> node_state \<Rightarrow> bool" for E D where
  Start: "nri_init E D st \<Longrightarrow> nri_reachable E D st"
| Step: "nri_reachable E D st \<Longrightarrow> nri_step E D st st' \<Longrightarrow> nri_reachable E D st'"

section \<open>The invariant\<close>

definition node_ok :: "fpath \<Rightarrow> node_state \<Rightarrow> bool" where
  "node_ok D st = (stage_root D (nd_fs st) \<and>
     (\<forall>(k, b) \<in> set (nd_live st). k \<in> set (pl_tracked (nd_plugin st)) \<and> bundle_at D (nd_fs st) k = Some b))"

text \<open>What a step of the plugin keeps when it does not touch the set of missed containers.\<close>

definition same_missed :: "plugin \<Rightarrow> plugin \<Rightarrow> bool" where
  "same_missed p p' = (pl_missed p' = pl_missed p \<and> m_missed (pl_metrics p') = m_missed (pl_metrics p))"

lemma same_missed_refl [simp]: "same_missed p p"
  by (simp add: same_missed_def)

lemma same_missed_trans: "same_missed p q \<Longrightarrow> same_missed q r \<Longrightarrow> same_missed p r"
  by (simp add: same_missed_def)

lemma upd_metrics_simps [simp]:
  "pl_tracked (upd_metrics f p) = pl_tracked p" "pl_missed (upd_metrics f p) = pl_missed p"
  "pl_metrics (upd_metrics f p) = f (pl_metrics p)" "pl_cache (upd_metrics f p) = pl_cache p"
  "pl_ready (upd_metrics f p) = pl_ready p" "pl_verifying (upd_metrics f p) = pl_verifying p"
  "pl_log (upd_metrics f p) = pl_log p"
  by (simp_all add: upd_metrics_def)

lemma say_simps [simp]:
  "pl_tracked (say e p) = pl_tracked p" "pl_missed (say e p) = pl_missed p"
  "pl_metrics (say e p) = pl_metrics p" "pl_cache (say e p) = pl_cache p"
  "pl_ready (say e p) = pl_ready p" "pl_verifying (say e p) = pl_verifying p"
  by (simp_all add: say_def)

lemma plugin_decide_keeps:
  assumes "plugin_decide E ctx pod p s = (d, p', s')"
  shows "pl_tracked p' = pl_tracked p" and "pl_missed p' = pl_missed p"
    and "pl_metrics p' = pl_metrics p" and "pl_log p' = pl_log p" and "pl_ready p' = pl_ready p"
    and "\<exists>t. s' = s\<lparr>fs_clock := t\<rparr>"
  using assms by (auto simp: plugin_decide_def split: prod.splits)

lemma skip_container_keeps:
  "pl_tracked (skip_container E d pod p s) = pl_tracked p" "same_missed p (skip_container E d pod p s)"
  by (simp_all add: skip_container_def Let_def same_missed_def)

lemma node_at_clock [simp]: "node_at (s\<lparr>fs_clock := t\<rparr>) = node_at s"
  by (simp add: node_at_def [abs_def])

lemma stage_root_clock [simp]: "stage_root D (s\<lparr>fs_clock := t\<rparr>) = stage_root D s"
  by (simp add: stage_root_def wf_fs_def)

lemma bundle_at_clock [simp]: "bundle_at D (s\<lparr>fs_clock := t\<rparr>) = bundle_at D s"
  by (simp add: bundle_at_def [abs_def])

lemma bundle_at_other:
  assumes "changes_only (key_area D key) s s'" and "k \<noteq> key"
  shows "bundle_at D s' k = bundle_at D s k"
proof -
  have "D @ [k, dynamic_ca_file_name] \<notin> key_area D key" using assms(2) by (auto simp: key_area_def)
  from changes_only_node [OF assms(1) this] show ?thesis by (simp add: bundle_at_def)
qed

lemma changes_only_clock [simp]:
  "changes_only R (s\<lparr>fs_clock := t\<rparr>) s' \<longleftrightarrow> changes_only R s s'"
  by (simp add: changes_only_def)

section \<open>The handlers\<close>

text \<open>What handling a container does to the files: its own directory changes, or nothing does.\<close>

definition handled :: "fpath \<Rightarrow> container \<Rightarrow> fs \<Rightarrow> fs \<Rightarrow> bool" where
  "handled D ctr s s' = (stage_root D s' \<and> (case container_ca_key ctr of
     Inl e \<Rightarrow> node_at s' = node_at s | Inr key \<Rightarrow> changes_only (key_area D key) s s'))"

lemma handled_clock: "stage_root D s \<Longrightarrow> handled D ctr s (s\<lparr>fs_clock := t\<rparr>)"
  by (auto simp: handled_def changes_only_def split: sum.split)

lemma handled_bundle:
  assumes "handled D ctr s s'" and "container_ca_key ctr \<noteq> Inr k"
  shows "bundle_at D s' k = bundle_at D s k"
  using assms bundle_at_other [of D _ s s' k]
  by (auto simp: handled_def bundle_at_def split: sum.splits)

lemma stage_handled:
  assumes ok: "stage_root D s" and run: "stage_dynamic_ca_file C source (abs_path D) ctr s = (r, s')"
  shows "handled D ctr s s' \<and> (\<forall>f c. r = Inr (f, c) \<longrightarrow> (\<exists>key. container_ca_key ctr = Inr key \<and>
     f = abs_path (D @ [key, dynamic_ca_file_name]) \<and> bundle_at D s' key = Some c \<and>
     os_read_file s source = Inr c \<and> validate_pem C c = Inr ()))"
proof (cases "container_ca_key ctr")
  case (Inl e)
  then have "s' = s \<and> (\<exists>e. r = Inl e)"
    using run by (auto simp: stage_dynamic_ca_file_def container_ca_dir_def split: sum.splits)
  then show ?thesis using ok Inl by (auto simp: handled_def)
next
  case (Inr key)
  from stage_ok [OF ok Inr run] show ?thesis by (auto simp: handled_def Inr bundle_at_def)
qed

lemma cleanup_handled:
  assumes ok: "stage_root D s" and run: "cleanup_dynamic_ca_file (abs_path D) ctr s = (r, s')"
  shows "handled D ctr s s'"
proof (cases "container_ca_key ctr")
  case (Inl e)
  then show ?thesis using ok run by (simp add: handled_def cleanup_dynamic_ca_file_def container_ca_dir_def)
next
  case (Inr key)
  from cleanup_ok [OF ok Inr run] show ?thesis by (simp add: handled_def Inr)
qed

lemma handled_trans: "handled D ctr s s1 \<Longrightarrow> handled D ctr s1 s2 \<Longrightarrow> handled D ctr s s2"
  by (auto simp: handled_def elim: changes_only_trans split: sum.splits)

lemma inject_container_keeps:
  assumes "inject_container E d self source ctr ca_file content p s = (adj, p')" and "container_ca_key ctr = Inr key"
  shows "same_missed p p'" and "pl_tracked p' = List.insert key (pl_tracked p)"
    and "adj = adjustment_for (ne_penv E) self ca_file ctr"
proof -
  have "key \<noteq> []" using container_ca_key_valid [OF assms(2)] by (auto simp: valid_name_def)
  then show "same_missed p p'" "pl_tracked p' = List.insert key (pl_tracked p)"
    "adj = adjustment_for (ne_penv E) self ca_file ctr"
    using assms by (auto simp: inject_container_def Let_def same_missed_def track_def
        update_ca_bundle_gauges_def split: sum.splits)
qed

text \<open>The ways \<open>create_container\<close> can go.\<close>

lemma create_container_cases:
  assumes "create_container E ctx pod ctr p s = (r, p', s')"
  obtains (skip) d p1 s1 where "plugin_decide E ctx pod p s = (d, p1, s1)" "r = Inr None" "s' = s1"
      "\<not> de_inject d" "p' = skip_container E d pod p1 s1"
  | (excluded) d p1 s1 where "plugin_decide E ctx pod p s = (d, p1, s1)" "r = Inr None" "s' = s1"
      "de_inject d" "is_container_excluded (ne_penv E) pod ctr"
      "p' = upd_metrics (\<lambda>m. m\<lparr>m_skipped := Suc (m_skipped m)\<rparr>) (say SkipExcluded p1)"
  | (nobinary) d p1 s1 e where "plugin_decide E ctx pod p s = (d, p1, s1)" "r = Inl e" "s' = s1"
      "de_inject d" "\<not> is_container_excluded (ne_penv E) pod ctr" "plugin_binary E = Inl e"
      "p' = upd_metrics (\<lambda>m. m\<lparr>m_injection_errors := Suc (m_injection_errors m)\<rparr>)
         (upd_metrics (\<lambda>m. m\<lparr>m_injections := Suc (m_injections m)\<rparr>) p1)"
  | (unstaged) d p1 s1 e s2 self where "plugin_decide E ctx pod p s = (d, p1, s1)" "r = Inl e"
      "de_inject d" "\<not> is_container_excluded (ne_penv E) pod ctr" "plugin_binary E = Inr self"
      "stage_dynamic_ca_file (ne_packages E) (getenv_or (ne_penv E) env_ca_file default_ca_file)
         (dynamic_ca_root (ne_penv E)) ctr s1 = (Inl e, s2)"
      "s' = snd (cleanup_dynamic_ca_file (dynamic_ca_root (ne_penv E)) ctr s2)"
      "p' = upd_metrics (\<lambda>m. m\<lparr>m_injection_errors := Suc (m_injection_errors m)\<rparr>)
         (say (StagingFailed e) (upd_metrics (\<lambda>m. m\<lparr>m_injections := Suc (m_injections m)\<rparr>) p1))"
  | (injected) d p1 s1 self ca_file content adj where "plugin_decide E ctx pod p s = (d, p1, s1)"
      "r = Inr (Some adj)" "de_inject d" "\<not> is_container_excluded (ne_penv E) pod ctr"
      "plugin_binary E = Inr self"
      "stage_dynamic_ca_file (ne_packages E) (getenv_or (ne_penv E) env_ca_file default_ca_file)
         (dynamic_ca_root (ne_penv E)) ctr s1 = (Inr (ca_file, content), s')"
      "inject_container E d self (getenv_or (ne_penv E) env_ca_file default_ca_file) ctr ca_file content
         (upd_metrics (\<lambda>m. m\<lparr>m_injections := Suc (m_injections m)\<rparr>) p1) s' = (adj, p')"
proof -
  obtain d p1 s1 where d: "plugin_decide E ctx pod p s = (d, p1, s1)" by (cases "plugin_decide E ctx pod p s")
  let ?src = "getenv_or (ne_penv E) env_ca_file default_ca_file" and ?root = "dynamic_ca_root (ne_penv E)"
  obtain r2 s2 where st: "stage_dynamic_ca_file (ne_packages E) ?src ?root ctr s1 = (r2, s2)"
    by (cases "stage_dynamic_ca_file (ne_packages E) ?src ?root ctr s1")
  consider "\<not> de_inject d" | "de_inject d" "is_container_excluded (ne_penv E) pod ctr"
    | e where "de_inject d" "\<not> is_container_excluded (ne_penv E) pod ctr" "plugin_binary E = Inl e"
    | self e where "de_inject d" "\<not> is_container_excluded (ne_penv E) pod ctr" "plugin_binary E = Inr self"
        "r2 = Inl e"
    | self f c where "de_inject d" "\<not> is_container_excluded (ne_penv E) pod ctr" "plugin_binary E = Inr self"
        "r2 = Inr (f, c)"
    by (cases "plugin_binary E"; cases r2) auto
  then show ?thesis
  proof cases
    case 1
    show ?thesis by (rule skip [OF d]) (use assms d 1 in \<open>auto simp: create_container_def\<close>)
  next
    case 2
    show ?thesis by (rule excluded [OF d]) (use assms d 2 in \<open>auto simp: create_container_def\<close>)
  next
    case 3
    show ?thesis by (rule nobinary [OF d]) (use assms d 3 in \<open>auto simp: create_container_def Let_def\<close>)
  next
    case 4
    show ?thesis by (rule unstaged [OF d]) (use assms d st 4 in \<open>auto simp: create_container_def Let_def\<close>)
  next
    case 5
    obtain adj p3 where i: "inject_container E d self ?src ctr f c
        (upd_metrics (\<lambda>m. m\<lparr>m_injections := Suc (m_injections m)\<rparr>) p1) s2 = (adj, p3)"
      by (cases "inject_container E d self ?src ctr f c
        (upd_metrics (\<lambda>m. m\<lparr>m_injections := Suc (m_injections m)\<rparr>) p1) s2")
    have "(r, p', s') = (Inr (Some adj), p3, s2)"
      unfolding assms [symmetric] create_container_def using d st i 5 by (simp add: Let_def)
    then show ?thesis using injected [of d p1 s1 adj self f c] d st i 5 by simp
  qed
qed

lemma create_ok:
  assumes root: "dynamic_ca_root (ne_penv E) = abs_path D" and ok: "stage_root D s"
    and run: "create_container E ctx pod ctr p s = (r, p', s')"
  shows "handled D ctr s s' \<and> same_missed p p' \<and> set (pl_tracked p) \<subseteq> set (pl_tracked p') \<and>
    (\<forall>adj. r = Inr (Some adj) \<longrightarrow> (\<exists>key c. container_ca_key ctr = Inr key \<and> key \<in> set (pl_tracked p') \<and>
       bundle_at D s' key = Some c))"
  using run
proof (cases rule: create_container_cases)
  case (skip d p1 s1)
  note k = plugin_decide_keeps [OF skip(1)]
  have "handled D ctr s s'" using k(6) handled_clock [OF ok] skip(3) by auto
  then show ?thesis using k skip skip_container_keeps [where E = E and d = d and pod = pod and p = p1 and s = s1] by (simp add: same_missed_def)
next
  case (excluded d p1 s1)
  note k = plugin_decide_keeps [OF excluded(1)]
  have "handled D ctr s s'" using k(6) handled_clock [OF ok] excluded(3) by auto
  then show ?thesis using k excluded by (simp add: same_missed_def)
next
  case (nobinary d p1 s1 e)
  note k = plugin_decide_keeps [OF nobinary(1)]
  have "handled D ctr s s'" using k(6) handled_clock [OF ok] nobinary(3) by auto
  then show ?thesis using k nobinary by (simp add: same_missed_def)
next
  case (unstaged d p1 s1 e s2 self)
  note k = plugin_decide_keeps [OF unstaged(1)]
  have h1: "handled D ctr s s1" using k(6) handled_clock [OF ok] by auto
  then have ok1: "stage_root D s1" by (simp add: handled_def)
  have h2: "handled D ctr s1 s2" using stage_handled [OF ok1 unstaged(6) [unfolded root]] by blast
  then have ok2: "stage_root D s2" by (simp add: handled_def)
  have "handled D ctr s2 s'"
    using cleanup_handled [OF ok2, of ctr] unstaged(7) root by (metis prod.collapse)
  then have "handled D ctr s s'" using h1 h2 handled_trans by blast
  then show ?thesis using k unstaged by (simp add: same_missed_def)
next
  case (injected d p1 s1 self ca_file content adj)
  note k = plugin_decide_keeps [OF injected(1)]
  have h1: "handled D ctr s s1" using k(6) handled_clock [OF ok] by auto
  then have ok1: "stage_root D s1" by (simp add: handled_def)
  note st = stage_handled [OF ok1 injected(6) [unfolded root]]
  then obtain key where key: "container_ca_key ctr = Inr key" "bundle_at D s' key = Some content" by auto
  note i = inject_container_keeps [OF injected(7) key(1)]
  have "handled D ctr s s'" using h1 st handled_trans by blast
  moreover have "same_missed p p'" using i(1) k by (simp add: same_missed_def)
  moreover have "set (pl_tracked p') = insert key (set (pl_tracked p))" using i(2) k(1) by simp
  ultimately show ?thesis using key by auto
qed

text \<open>Removing a container untracks its key and no other.\<close>

lemma untrack_keeps:
  "set (pl_tracked (untrack key p)) = set (pl_tracked p) - {key}"
  "pl_missed (untrack key p) = removeAll key (pl_missed p)"
  "m_missed (pl_metrics (untrack key p)) =
     (if key \<in> set (pl_missed p) then m_missed (pl_metrics p) - 1 else m_missed (pl_metrics p))"
  by (auto simp: untrack_def Let_def)

lemma remove_ok:
  assumes root: "dynamic_ca_root (ne_penv E) = abs_path D" and ok: "stage_root D s"
    and run: "remove_container E ctx pod ctr p s = (p', s')"
  shows "handled D ctr s s' \<and> set (pl_tracked p') = set (pl_tracked p) - {k. container_ca_key ctr = Inr k} \<and>
    same_missed (case container_ca_key ctr of Inl _ \<Rightarrow> p | Inr k \<Rightarrow> untrack k p) p'"
proof -
  let ?p1 = "case container_ca_key ctr of Inl _ \<Rightarrow> p | Inr k \<Rightarrow> untrack k p"
  have p1: "(if (case container_ca_key ctr of Inl _ \<Rightarrow> [] | Inr k \<Rightarrow> k) \<noteq> []
      then untrack (case container_ca_key ctr of Inl _ \<Rightarrow> [] | Inr k \<Rightarrow> k) p else p) = ?p1"
    using container_ca_key_valid [of ctr] by (auto split: sum.split)
  obtain d p2 s1 where d: "plugin_decide E ctx pod ?p1 s = (d, p2, s1)"
    by (cases "plugin_decide E ctx pod ?p1 s")
  note k = plugin_decide_keeps [OF d]
  obtain r2 s2 where c: "cleanup_dynamic_ca_file (abs_path D) ctr s1 = (r2, s2)"
    by (cases "cleanup_dynamic_ca_file (abs_path D) ctr s1")
  have h1: "handled D ctr s s1" using k(6) handled_clock [OF ok] by auto
  then have "stage_root D s1" by (simp add: handled_def)
  from cleanup_handled [OF this c] have h2: "handled D ctr s s2" using h1 handled_trans by blast
  have out: "(s' = s1 \<or> s' = s2) \<and> pl_tracked p' = pl_tracked p2 \<and> same_missed p2 p'"
    using run unfolding remove_container_def Let_def p1 d root
    by (auto simp: c same_missed_def split: if_splits sum.splits)
  have "set (pl_tracked ?p1) = set (pl_tracked p) - {k. container_ca_key ctr = Inr k}"
    by (auto simp: untrack_keeps split: sum.split)
  then show ?thesis using out h1 h2 k(1-3) by (auto simp: same_missed_def)
qed

lemma missed_key_keeps:
  assumes "missed_key E ctx pods ctr p s = (k, p', s')"
  shows "pl_tracked p' = pl_tracked p \<and> same_missed p p' \<and> (\<exists>t. s' = s\<lparr>fs_clock := t\<rparr>) \<and>
    (\<forall>key. k = Some key \<longrightarrow> container_ca_key ctr = Inr key)"
proof -
  have same: "\<exists>t. s = s\<lparr>fs_clock := t\<rparr>" by (rule exI [of _ "fs_clock s"]) simp
  show ?thesis
  proof (cases "ct_running ctr \<and> pod_by_id pods (ct_pod ctr) \<noteq> None")
    case False
    then have "k = None \<and> p' = p \<and> s' = s" using assms by (auto simp: missed_key_def split: option.splits)
    then show ?thesis using same by simp
  next
    case True
    then obtain pod where pod: "pod_by_id pods (ct_pod ctr) = Some pod" by blast
    obtain d p1 s1 where d: "plugin_decide E ctx pod p s = (d, p1, s1)" by (cases "plugin_decide E ctx pod p s")
    note keeps = plugin_decide_keeps [OF d]
    have "(p' = p1 \<or> (\<exists>key. p' = say (MissedInjection key) p1)) \<and> s' = s1 \<and>
        (\<forall>key. k = Some key \<longrightarrow> container_ca_key ctr = Inr key)"
      using assms True by (auto simp: missed_key_def pod d split: if_splits sum.splits)
    then show ?thesis using keeps by (auto simp: same_missed_def)
  qed
qed

lemma scan_missed_keeps:
  assumes "scan_missed E ctx stop_at pods ctrs keys p s = (r, p', s')"
    and "distinct keys" and "distinct (map container_ca_key ctrs)"
    and "\<forall>k \<in> set keys. \<forall>c \<in> set ctrs. container_ca_key c \<noteq> Inr k"
  shows "pl_tracked p' = pl_tracked p \<and> same_missed p p' \<and> (\<exists>t. s' = s\<lparr>fs_clock := t\<rparr>) \<and>
    (\<forall>ks. r = Some ks \<longrightarrow> distinct ks)"
  using assms
proof (induction E ctx stop_at pods ctrs keys p s rule: scan_missed.induct)
  case (1 E ctx stop_at pods keys p s)
  then have "s' = s\<lparr>fs_clock := fs_clock s\<rparr>" by simp
  then have "\<exists>t. s' = s\<lparr>fs_clock := t\<rparr>" by blast
  with 1 show ?case by auto
next
  case (2 E ctx stop_at pods ctr ctrs keys p s)
  have same: "\<exists>t. s = s\<lparr>fs_clock := t\<rparr>" by (rule exI [of _ "fs_clock s"]) simp
  obtain k p1 s1 where mk: "missed_key E ctx pods ctr p s = (k, p1, s1)" by (cases "missed_key E ctx pods ctr p s")
  note m = missed_key_keeps [OF mk]
  show ?case
  proof (cases "reached stop_at (fs_clock s) \<or> done_by ctx (fs_clock s)")
    case True
    then show ?thesis using "2.prems"(1) same by (auto simp: same_missed_def split: if_splits)
  next
    case False
    let ?keys = "keys @ (case k of None \<Rightarrow> [] | Some key \<Rightarrow> [key])"
    have "scan_missed E ctx stop_at pods ctrs ?keys p1 s1 = (r, p', s')" using "2.prems"(1) False mk by simp
    moreover have "distinct ?keys" using "2.prems"(2,4) m by (auto split: option.split)
    moreover have "\<forall>x \<in> set ?keys. \<forall>c \<in> set ctrs. container_ca_key c \<noteq> Inr x"
      using "2.prems"(3,4) m by (force split: option.splits)
    ultimately have "pl_tracked p' = pl_tracked p1 \<and> same_missed p1 p' \<and> (\<exists>t. s' = s1\<lparr>fs_clock := t\<rparr>) \<and>
        (\<forall>ks. r = Some ks \<longrightarrow> distinct ks)"
      using "2.IH" [OF _ _ mk [symmetric] refl] False "2.prems"(3) by auto
    then show ?thesis using m same_missed_trans by auto
  qed
qed

section \<open>Synchronisation\<close>

definition staged_for :: "string \<Rightarrow> fs \<Rightarrow> container \<Rightarrow> bool" where
  "staged_for root s ctr = (case container_ca_key ctr of Inl _ \<Rightarrow> False
     | Inr key \<Rightarrow> (case sys_stat s (path_join [root, key]) of Inl _ \<Rightarrow> False | Inr _ \<Rightarrow> True))"

lemma adopt_fold:
  "fold (adopt_one root s) ctrs (tracked, n) =
     (fold List.insert (map (\<lambda>c. case container_ca_key c of Inr k \<Rightarrow> k | Inl _ \<Rightarrow> [])
        (filter (staged_for root s) ctrs)) tracked, n + length (filter (staged_for root s) ctrs))"
  by (induction ctrs arbitrary: tracked n)
    (auto simp: adopt_one_def staged_for_def split: sum.split)

lemma set_fold_insert: "set (fold List.insert ks xs) = set ks \<union> set xs"
  by (induction ks arbitrary: xs) auto

lemma staged_for_key: "staged_for root s c \<Longrightarrow> \<exists>k. container_ca_key c = Inr k"
  by (auto simp: staged_for_def split: sum.splits)

lemma synchronize_eq:
  fixes E ctrs p s
  defines "sel \<equiv> filter (staged_for (dynamic_ca_root (ne_penv E)) s) ctrs"
  shows "pl_tracked (synchronize E ctrs p s) =
      fold List.insert (map (\<lambda>c. case container_ca_key c of Inr k \<Rightarrow> k | Inl _ \<Rightarrow> []) sel) (pl_tracked p)"
    and "m_active (pl_metrics (synchronize E ctrs p s)) = int (length sel)"
    and "same_missed p (synchronize E ctrs p s)"
    and "pl_ready (synchronize E ctrs p s)"
  by (simp_all add: synchronize_def adopt_staged_containers_def adopt_fold Let_def same_missed_def sel_def)

lemma synchronize_keeps:
  "set (pl_tracked (synchronize E ctrs p s)) = set (pl_tracked p) \<union>
     {k. \<exists>c \<in> set ctrs. container_ca_key c = Inr k \<and> staged_for (dynamic_ca_root (ne_penv E)) s c}"
proof -
  let ?S = "staged_for (dynamic_ca_root (ne_penv E)) s"
  have "(\<lambda>c. case container_ca_key c of Inr k \<Rightarrow> k | Inl _ \<Rightarrow> []) ` {c \<in> set ctrs. ?S c} =
      {k. \<exists>c \<in> set ctrs. container_ca_key c = Inr k \<and> ?S c}"
    using staged_for_key [of _ s] by (force simp: image_iff)
  then show ?thesis by (simp add: synchronize_eq(1) set_fold_insert Un_commute)
qed

lemma bundle_staged_for:
  assumes ok: "stage_root D s" and b: "bundle_at D s k = Some b" and f: "fs_faults s Stat (D @ [k]) = None"
    and key: "container_ca_key c = Inr k"
  shows "staged_for (abs_path D) s c"
proof -
  have rd: "real_dir (node_at s) D" and wf: "wf_fs s" and nl: "\<not> is_link (node_at s (D @ [k]))"
    using ok by (auto simp: stage_root_def)
  note v = container_ca_key_valid [OF key]
  have "node_at s ((D @ [k]) @ [dynamic_ca_file_name]) \<noteq> None"
    using b by (auto simp: bundle_at_def split: option.splits)
  then have "node_at s (D @ [k]) \<noteq> None"
    using wf_tree_below_missing [of "node_at s" "D @ [k]" "[dynamic_ca_file_name]"] wf
    unfolding wf_fs_def by metis
  then have "\<exists>n. sys_stat s (abs_path (D @ [k])) = Inr n"
    using f host_walk_not_link [OF rd v nl] real_dir_names [OF rd] v by (auto simp: sys_stat_def)
  then show ?thesis using key stage_path [OF rd v] by (auto simp: staged_for_def)
qed

section \<open>The invariant holds\<close>

lemma sweep_keeps_area:
  assumes ok: "stage_root D s" and run: "sweep (abs_path D) tracked s = (n, s')" and k: "k \<in> set tracked"
    and q: "prefix (D @ [k]) q"
  shows "node_at s' q = node_at s q"
proof -
  let ?ks = "if fs_faults s ReadDir D = None then {k. node_at s (D @ [k]) \<noteq> None} else {}"
  have "changes_only {q. \<exists>x \<in> ?ks. orphan D tracked s x \<and> prefix (D @ [x]) q} s s'"
    using sweep_swept [OF ok, of tracked] run unfolding swept_def by simp
  moreover have "q \<notin> {q. \<exists>x \<in> ?ks. orphan D tracked s x \<and> prefix (D @ [x]) q}"
    using k q by (auto simp: orphan_def prefix_def)
  ultimately show ?thesis by (rule changes_only_node)
qed

lemma sweep_keeps_tracked:
  assumes "stage_root D s" and "sweep (abs_path D) tracked s = (n, s')" and "k \<in> set tracked"
  shows "bundle_at D s' k = bundle_at D s k"
  using sweep_keeps_area [OF assms, of "D @ [k, dynamic_ca_file_name]"] by (simp add: bundle_at_def)

lemma sweep_keeps_root: "stage_root D s \<Longrightarrow> sweep (abs_path D) tracked s = (n, s') \<Longrightarrow> stage_root D s'"
  using sweep_swept [of D s tracked] by (simp add: swept_def)

lemma run_missed_op_keeps [simp]: "pl_tracked (run_missed_op op p) = pl_tracked p"
  by (cases op) simp_all

lemma node_init_ok:
  assumes "dynamic_ca_root (ne_penv E) = abs_path D" and "nri_init E D st"
  shows "node_ok D st"
proof -
  obtain now ctrs where ok: "stage_root D (nd_fs st)"
    and p: "nd_plugin st = synchronize E ctrs (new_plugin (ne_world E) (ne_penv E) now) (nd_fs st)"
    and live: "\<forall>(k, b) \<in> set (nd_live st). bundle_at D (nd_fs st) k = Some b \<and>
        fs_faults (nd_fs st) Stat (D @ [k]) = None \<and> (\<exists>ctr \<in> set ctrs. container_ca_key ctr = Inr k)"
    using assms(2) by (auto simp: nri_init_def)
  have "k \<in> set (pl_tracked (nd_plugin st)) \<and> bundle_at D (nd_fs st) k = Some b"
    if "(k, b) \<in> set (nd_live st)" for k b
  proof -
    from that live obtain c where c: "c \<in> set ctrs" "container_ca_key c = Inr k"
      and b: "bundle_at D (nd_fs st) k = Some b" "fs_faults (nd_fs st) Stat (D @ [k]) = None" by auto
    then have "staged_for (abs_path D) (nd_fs st) c" using bundle_staged_for [OF ok] by blast
    then show ?thesis using c b unfolding p synchronize_keeps assms(1) by blast
  qed
  then show ?thesis using ok by (auto simp: node_ok_def)
qed

lemma node_step_ok:
  assumes root: "dynamic_ca_root (ne_penv E) = abs_path D" and step: "nri_step E D st st'" and ok: "node_ok D st"
  shows "node_ok D st'"
  using step
proof cases
  case (Create ctr ctx pod r p' s')
  have sr: "stage_root D (nd_fs st)" using ok by (simp add: node_ok_def)
  note c = create_ok [OF root sr Create(3)]
  have keep: "k \<in> set (pl_tracked p') \<and> bundle_at D s' k = Some b" if "(k, b) \<in> set (nd_live st)" for k b
    using that Create(2) ok c handled_bundle [of D ctr "nd_fs st" s' k] by (fastforce simp: node_ok_def)
  have "k \<in> set (pl_tracked p') \<and> bundle_at D s' k = Some b"
    if "(k, b) \<in> set (live_after D ctr r s' (nd_live st))" for k b
    using that keep c by (auto simp: live_after_def split: sum.splits option.splits)
  then show ?thesis using ok c by (auto simp: node_ok_def Create(1) handled_def same_missed_def)
next
  case (Remove ctx pod ctr p' s')
  have sr: "stage_root D (nd_fs st)" using ok by (simp add: node_ok_def)
  note c = remove_ok [OF root sr Remove(2)]
  have "k \<in> set (pl_tracked p') \<and> bundle_at D s' k = Some b"
    if "(k, b) \<in> set (live_without ctr (nd_live st))" for k b
    using that ok c handled_bundle [of D ctr "nd_fs st" s' k] by (fastforce simp: node_ok_def live_without_def)
  then show ?thesis using ok c by (auto simp: node_ok_def Remove(1) without_dec_def handled_def)
next
  case (Synchronize ctrs)
  then show ?thesis
    using ok synchronize_keeps [of E ctrs "nd_plugin st" "nd_fs st"]
      synchronize_eq(3) [where E = E and ctrs = ctrs and p = "nd_plugin st" and s = "nd_fs st"]
    by (auto simp: node_ok_def same_missed_def)
next
  case (ScanEnds ctrs ctx stop_at pods result p' s')
  have "pl_tracked p' = pl_tracked (nd_plugin st) \<and> same_missed (nd_plugin st) p' \<and>
      (\<exists>t. s' = (nd_fs st)\<lparr>fs_clock := t\<rparr>) \<and> (\<forall>ks. result = Some ks \<longrightarrow> distinct ks)"
    by (rule scan_missed_keeps [OF ScanEnds(3)]) (use ScanEnds(2) in auto)
  then show ?thesis using ok by (auto simp: node_ok_def ScanEnds(1) same_missed_def split: option.splits)
next
  case (MissedOp ts op ops us)
  then show ?thesis using ok by (auto simp: node_ok_def)
next
  case (Sweep p' s')
  obtain n where sw: "sweep (abs_path D) (pl_tracked (nd_plugin st)) (nd_fs st) = (n, s')"
    and p': "p' = upd_metrics (\<lambda>m. m\<lparr>m_orphans_cleaned := m_orphans_cleaned m + n\<rparr>) (nd_plugin st)"
    using Sweep(2) unfolding clean_orphans_def root by (auto split: prod.splits)
  have sr: "stage_root D (nd_fs st)" using ok by (simp add: node_ok_def)
  show ?thesis
    using ok sweep_keeps_root [OF sr sw] sweep_keeps_tracked [OF sr sw]
    by (auto simp: node_ok_def Sweep(1) p')
next
  case (Verified key v)
  then show ?thesis using ok by (auto simp: node_ok_def verify_finish_def Let_def split: verdict.split)
next
  case Disconnect
  then show ?thesis using ok by (simp add: node_ok_def)
next
  case (Tick t)
  then show ?thesis using ok by (simp add: node_ok_def)
next
  case (Foreign s')
  then show ?thesis using ok by (fastforce simp: node_ok_def foreign_step_def)
qed

lemma node_ok_reachable:
  assumes "dynamic_ca_root (ne_penv E) = abs_path D" and "nri_reachable E D st"
  shows "node_ok D st"
  using assms(2) by induction (auto intro: node_init_ok [OF assms(1)] node_step_ok [OF assms(1)])

end
