(* ===== verification/Nri_Correct.thy ===== *)
theory Nri_Correct
  imports Nri_Safety Certs_Correct
begin

text \<open>
  What the plugin promises: staged bundles of live containers stay, the cleaner removes
  orphans only, every container is accounted for, a failed lookup is never an opt-out, and
  every wait is bounded.
\<close>

section \<open>A node for the witnesses\<close>

definition node_tree :: tree where
  "node_tree = [([], dir_node), ([''ca''], file_node ''PA.''), ([''run''], dir_node),
     ([''run'', ''old''], dir_node), ([''run'', ''old'', ''ca-bundle.pem''], file_node ''PB.''),
     ([''run'', ''note''], file_node ''x'')]"

definition node_penv :: strmap where
  "node_penv = [(''CAINJEKT_CA_FILE'', ''/ca''), (''CAINJEKT_DYNAMIC_CA_ROOT'', ''/run'')]"

definition dead_world :: world where
  "dead_world = \<lparr>w_file = (\<lambda>t f. Inr ''token''), w_reply = (\<lambda>t u k. Inl (Msg ''refused'')),
     w_delay = (\<lambda>t. 0), w_labels = (\<lambda>b. Inr [])\<rparr>"

definition node_nri :: nri_env where
  "node_nri = \<lparr>ne_penv = node_penv, ne_executable = Inr ''/cainjekt'', ne_world = dead_world,
     ne_packages = toy_crypto\<rparr>"

definition opted_pod :: pod where
  "opted_pod = \<lparr>pod_id = ''p'', pod_namespace = ''ns'',
     pod_annotations = [(''cainjekt.natron.io/enabled'', ''True'')], pod_labels = []\<rparr>"

definition some_container :: container where
  "some_container = \<lparr>ct_id = ''../c1'', ct_name = ''app'', ct_pod = ''p'', ct_running = True,
     ct_args = [''sh'', ''-c''], ct_env = []\<rparr>"

definition no_context :: go_context where
  "no_context = \<lparr>c_deadline = None, c_cancel = None\<rparr>"

lemma node_wf: "wf_tree_check node_tree"
  by code_simp

lemma node_root: "dynamic_ca_root (ne_penv node_nri) = abs_path [''run'']"
  by code_simp

lemma node_stage_root: "stage_root [''run''] (fs_of node_tree)"
proof -
  have d: "is_dir (map_of node_tree [''run''])" by code_simp
  have "\<not> is_link (map_of node_tree q)" for q
    by (auto simp: node_tree_def dir_node_def file_node_def)
  then show ?thesis
    using wf_fs_of [OF node_wf] real_dir_fs_of [OF node_wf d] by (simp add: stage_root_def)
qed

definition created where
  "created s = create_container node_nri no_context opted_pod some_container
     (synchronize node_nri [] (new_plugin dead_world node_penv 0) s) s"

section \<open>Staged bundles\<close>

text \<open>
  C15: from the moment \<open>CreateContainer\<close> returned an adjustment until \<open>RemoveContainer\<close>, the
  container's bundle file keeps the bytes that were staged and the plugin tracks it, across
  reconnects, sweeps of the cleaner, restarts of the plugin that synchronise, the handling of
  all other containers, and whatever fails in between.
\<close>

theorem live_bundle_survives:
  assumes "dynamic_ca_root (ne_penv E) = abs_path D" and "nri_reachable E D st" and "(k, b) \<in> set (nd_live st)"
  shows "k \<in> set (pl_tracked (nd_plugin st)) \<and> bundle_at D (nd_fs st) k = Some b"
  using node_ok_reachable [OF assms(1,2)] assms(3) by (auto simp: node_ok_def)

definition node_start :: node_state where
  "node_start = \<lparr>nd_plugin = synchronize node_nri [] (new_plugin dead_world node_penv 0) (fs_of node_tree),
     nd_fs = fs_of node_tree, nd_live = [], nd_ops = []\<rparr>"

definition node_created :: node_state where
  "node_created = (case created (fs_of node_tree) of (r, p, s) \<Rightarrow>
     node_start\<lparr>nd_plugin := p, nd_fs := s, nd_live := live_after [''run''] some_container r s []\<rparr>)"

lemma node_start_reachable: "nri_reachable node_nri [''run''] node_start"
proof (rule Start)
  show "nri_init node_nri [''run''] node_start"
    using node_stage_root by (auto simp: nri_init_def node_start_def node_nri_def)
qed

lemma node_created_reachable: "nri_reachable node_nri [''run''] node_created"
proof (rule Step [OF node_start_reachable])
  obtain r p s where c: "created (fs_of node_tree) = (r, p, s)" by (cases "created (fs_of node_tree)")
  have "nri_step node_nri [''run''] node_start (node_start\<lparr>nd_plugin := p, nd_fs := s,
      nd_live := live_after [''run''] some_container r s (nd_live node_start)\<rparr>)"
    by (rule Create [where ctx = no_context and pod = opted_pod])
      (use c in \<open>simp_all add: node_start_def created_def\<close>)
  then show "nri_step node_nri [''run''] node_start node_created"
    by (simp add: node_created_def c) (simp add: node_start_def)
qed

text \<open>The container's directory is swept over when it is an hour old.\<close>

definition node_aged :: node_state where
  "node_aged = node_created\<lparr>nd_fs := (nd_fs node_created)\<lparr>fs_clock := 3600000\<rparr>\<rparr>"

definition node_swept :: node_state where
  "node_swept = (case clean_orphans node_nri (nd_plugin node_aged) (nd_fs node_aged) of (p, s) \<Rightarrow>
     node_aged\<lparr>nd_plugin := p, nd_fs := s\<rparr>)"

lemma node_swept_reachable: "nri_reachable node_nri [''run''] node_swept"
proof -
  have "fs_clock (nd_fs node_created) \<le> 3600000" by code_simp
  from Tick [OF this] have "nri_step node_nri [''run''] node_created node_aged"
    by (simp add: node_aged_def)
  then have a: "nri_reachable node_nri [''run''] node_aged" by (rule Step [OF node_created_reachable])
  obtain p s where c: "clean_orphans node_nri (nd_plugin node_aged) (nd_fs node_aged) = (p, s)"
    by (cases "clean_orphans node_nri (nd_plugin node_aged) (nd_fs node_aged)")
  from Sweep [OF c] have "nri_step node_nri [''run''] node_aged node_swept" by (simp add: node_swept_def c)
  with a show ?thesis by (rule Step)
qed

theorem live_bundle_survives_witness:
  "bundle_at [''run''] (nd_fs node_swept) ''c1'' = Some ''PA.''"
proof -
  have "nd_live node_swept = nd_live node_created"
    by (simp add: node_swept_def node_aged_def split: prod.split)
  moreover have "nd_live node_created = [(''c1'', ''PA.'')]" by code_simp
  ultimately have "(''c1'', ''PA.'') \<in> set (nd_live node_swept)" by simp
  from live_bundle_survives [OF node_root node_swept_reachable this] show ?thesis by simp
qed

section \<open>The cleaner\<close>

text \<open>
  C17: a sweep deletes nothing but directories that no tracked container owns and that were
  not modified for ten minutes, with what lies below them; and when no call fails it deletes
  all of those and reports their number.
\<close>

theorem sweep_removes_orphans:
  assumes "stage_root D s" and "sweep (abs_path D) tracked s = (n, s')"
  shows "(\<forall>q. node_at s' q = node_at s q \<or>
      node_at s' q = None \<and> (\<exists>k. orphan D tracked s k \<and> prefix (D @ [k]) q)) \<and>
    ((\<forall>c p. fs_faults s c p = None) \<longrightarrow>
      (\<forall>k q. orphan D tracked s k \<and> prefix (D @ [k]) q \<longrightarrow> node_at s' q = None) \<and>
      n = card {k. orphan D tracked s k})"
proof -
  let ?ks = "if fs_faults s ReadDir D = None then {k. node_at s (D @ [k]) \<noteq> None} else {}"
  have sw: "swept D tracked s ?ks (n, s')" using sweep_swept [OF assms(1), of tracked] assms(2) by simp
  have "node_at s' q = node_at s q \<or> node_at s' q = None \<and> (\<exists>k. orphan D tracked s k \<and> prefix (D @ [k]) q)" for q
  proof (cases "q \<in> {q. \<exists>x \<in> ?ks. orphan D tracked s x \<and> prefix (D @ [x]) q}")
    case False
    have "changes_only {q. \<exists>x \<in> ?ks. orphan D tracked s x \<and> prefix (D @ [x]) q} s s'"
      using sw by (simp only: swept_def snd_conv)
    from changes_only_node [OF this False] show ?thesis by simp
  next
    case True
    then show ?thesis using sw by (auto simp: swept_def)
  qed
  moreover have "(\<forall>k q. orphan D tracked s k \<and> prefix (D @ [k]) q \<longrightarrow> node_at s' q = None) \<and>
      n = card {k. orphan D tracked s k}" if f: "\<forall>c p. fs_faults s c p = None"
  proof -
    have ks: "k \<in> ?ks" if "orphan D tracked s k" for k
      using f that is_dir_not_None [of "node_at s (D @ [k])"] by (simp add: orphan_def)
    have eq: "{k \<in> ?ks. orphan D tracked s k} = {k. orphan D tracked s k}" using ks by blast
    note c = swept_complete [OF sw f]
    have "n = card {k. orphan D tracked s k}" using conjunct2 [OF c] by (simp only: eq)
    moreover have "node_at s' q = None" if "orphan D tracked s k" "prefix (D @ [k]) q" for k q
      using bspec [OF conjunct1 [OF c] ks [OF that(1)]] that by simp
    ultimately show ?thesis by blast
  qed
  ultimately show ?thesis by blast
qed

theorem sweep_removes_orphans_witness:
  "node_at (snd (sweep (abs_path [''run'']) [''live''] ((fs_of node_tree)\<lparr>fs_clock := 600000\<rparr>)))
     [''run'', ''old'', ''ca-bundle.pem''] = None \<and>
   node_at (snd (sweep (abs_path [''run'']) [''old''] ((fs_of node_tree)\<lparr>fs_clock := 600000\<rparr>)))
     [''run'', ''old'', ''ca-bundle.pem''] = Some (file_node ''PB.'')"
proof -
  let ?s = "(fs_of node_tree)\<lparr>fs_clock := 600000\<rparr>"
  have s: "stage_root [''run''] ?s" using node_stage_root by simp
  have o: "orphan [''run''] [''live''] ?s ''old''" by code_simp
  have f: "\<forall>c p. fs_faults ?s c p = None" by (simp add: fs_of_def no_faults_def)
  have none: "\<not> orphan [''run''] [''old''] ?s k" if "prefix ([''run''] @ [k]) [''run'', ''old'', ''ca-bundle.pem'']" for k
    using that by (auto simp: orphan_def)
  obtain n s' where a: "sweep (abs_path [''run'']) [''live''] ?s = (n, s')" by (cases "sweep (abs_path [''run'']) [''live''] ?s")
  obtain m u where b: "sweep (abs_path [''run'']) [''old''] ?s = (m, u)" by (cases "sweep (abs_path [''run'']) [''old''] ?s")
  have "node_at s' [''run'', ''old'', ''ca-bundle.pem''] = None"
    using sweep_removes_orphans [OF s a] f o by auto
  moreover have "node_at u [''run'', ''old'', ''ca-bundle.pem''] = node_at ?s [''run'', ''old'', ''ca-bundle.pem'']"
    using sweep_removes_orphans [OF s b] none by blast
  ultimately show ?thesis by (simp add: a b) (simp add: node_tree_def)
qed

end
