(* ===== verification/Nri_Handlers.thy ===== *)
theory Nri_Handlers
  imports Nri_Correct
begin

text \<open>
  What each handler of the plugin does on each of its branches: the outcomes of
  \<open>CreateContainer\<close> with the counters that account for them, what \<open>RemoveContainer\<close> cleans,
  what a reconnect adopts and what it leaves behind.
\<close>

section \<open>CreateContainer\<close>

lemma decide_verifying: "plugin_decide E ctx pod p s = (d, p1, s1) \<Longrightarrow> pl_verifying p1 = pl_verifying p"
  by (auto simp: plugin_decide_def split: prod.splits)

lemma cleanup_removes:
  assumes ok: "stage_root D s" and k: "container_ca_key ctr = Inr key"
    and run: "cleanup_dynamic_ca_file (abs_path D) ctr s = (r, s')" and nf: "\<forall>f. fs_faults s RemoveAll f = None"
  shows "r = Inr () \<and> removed (D @ [key]) s s'"
proof -
  have rd: "real_dir (node_at s) D" and wf: "wf_fs s" using ok by (auto simp: stage_root_def)
  obtain r1 s1 where m: "sys_remove_all (abs_path (D @ [key])) s = (r1, s1)"
    by (cases "sys_remove_all (abs_path (D @ [key])) s")
  have "r1 = Inr () \<and> removed (D @ [key]) s s1"
    using remove_all_entry [OF rd wf container_ca_key_valid [OF k] m] nf by auto
  then show ?thesis
    using run m by (simp add: cleanup_dynamic_ca_file_def container_ca_dir_eq [OF rd k])
qed

definition counted :: "metrics \<Rightarrow> nat" where
  "counted m = m_injections m + m_skipped m + m_ns_lookup_skipped m"

lemma inject_counted:
  assumes "inject_container E d self source ctr ca_file content p s = (adj, p')"
  shows "counted (pl_metrics p') = counted (pl_metrics p)"
    and "m_injections (pl_metrics p') = m_injections (pl_metrics p)"
    and "m_injection_errors (pl_metrics p') = m_injection_errors (pl_metrics p)"
    and "m_bundle_certs (pl_metrics p') = length (parse_cert_pem_blocks (ne_packages E) content)"
  using assms
  by (auto simp: inject_container_def Let_def counted_def track_def update_ca_bundle_gauges_def
      pem_cert_count_blocks split: sum.splits)

text \<open>
  C20: every container the runtime asks about is counted once: as skipped, as skipped because
  the lookup failed, or as an injection, and an injection that fails is counted as an error
  as well. Only a container that is opted in and not excluded gets an adjustment, and then the
  gauge of certificates is the number of certificates in the bundle that was staged.
\<close>

theorem create_container_accounts:
  assumes "create_container E ctx pod ctr p s = (r, p', s')" and "plugin_decide E ctx pod p s = (d, p1, s1)"
  shows "counted (pl_metrics p') = Suc (counted (pl_metrics p)) \<and>
    (r = Inr None \<longleftrightarrow> \<not> de_inject d \<or> is_container_excluded (ne_penv E) pod ctr) \<and>
    m_injections (pl_metrics p') = (if r = Inr None then m_injections (pl_metrics p) else Suc (m_injections (pl_metrics p))) \<and>
    m_injection_errors (pl_metrics p') =
      (if isl r then Suc (m_injection_errors (pl_metrics p)) else m_injection_errors (pl_metrics p)) \<and>
    m_ns_lookup_skipped (pl_metrics p') = (if \<not> de_inject d \<and> de_reason d = ''lookup-failed''
      then Suc (m_ns_lookup_skipped (pl_metrics p)) else m_ns_lookup_skipped (pl_metrics p)) \<and>
    (\<forall>adj. r = Inr (Some adj) \<longrightarrow> (\<exists>content.
      os_read_file s1 (getenv_or (ne_penv E) env_ca_file default_ca_file) = Inr content \<and>
      m_bundle_certs (pl_metrics p') = length (parse_cert_pem_blocks (ne_packages E) content)))"
  using assms(1)
proof (cases rule: create_container_cases)
  case (injected d' p1' s1' self ca_file content adj)
  then have same: "d' = d" "p1' = p1" "s1' = s1" using assms(2) by simp_all
  have "os_read_file s1 (getenv_or (ne_penv E) env_ca_file default_ca_file) = Inr content"
    using injected(6) unfolding same
    by (auto simp: stage_dynamic_ca_file_def Let_def split: sum.splits prod.splits)
  moreover have "m_ns_lookup_skipped (pl_metrics p') = m_ns_lookup_skipped (pl_metrics p1)"
    using injected(7) unfolding same
    by (auto simp: inject_container_def Let_def track_def update_ca_bundle_gauges_def split: sum.splits)
  ultimately show ?thesis
    using injected inject_counted [OF injected(7)] plugin_decide_keeps [OF assms(2)]
    by (simp add: same counted_def)
qed (use assms(2) plugin_decide_keeps [OF assms(2)] in \<open>auto simp: skip_container_def Let_def counted_def\<close>)

lemma created_decide:
  "plugin_decide node_nri no_context opted_pod p s = (decision_from_value ''True'' ''pod-annotation'', p, s)"
proof -
  have "map_of (pod_annotations opted_pod) (anno_enabled (ne_penv node_nri)) = Some ''True''" by code_simp
  then show ?thesis by (simp add: plugin_decide_def decide_def Let_def)
qed

theorem create_container_accounts_witness:
  "(let m = pl_metrics (fst (snd (created (fs_of node_tree)))) in
    m_injections m = 1 \<and> m_injection_errors m = 0 \<and> m_bundle_certs m = 1)"
proof -
  define p0 where "p0 = synchronize node_nri [] (new_plugin dead_world node_penv 0) (fs_of node_tree)"
  obtain r p s where c: "created (fs_of node_tree) = (r, p, s)" by (cases "created (fs_of node_tree)")
  then have run: "create_container node_nri no_context opted_pod some_container p0 (fs_of node_tree) = (r, p, s)"
    by (simp add: created_def p0_def)
  have m0: "m_injections (pl_metrics p0) = 0" "m_injection_errors (pl_metrics p0) = 0"
    by (simp_all add: p0_def synchronize_def adopt_staged_containers_def new_plugin_def new_metrics_def)
  have "\<not> isl (fst (created (fs_of node_tree)))" "fst (created (fs_of node_tree)) \<noteq> Inr None"
    by code_simp+
  then obtain adj where r: "r = Inr (Some adj)" using c by (cases r) (auto split: option.splits)
  have b: "os_read_file (fs_of node_tree) (getenv_or (ne_penv node_nri) env_ca_file default_ca_file) = Inr ''PA.''"
    "length (parse_cert_pem_blocks (ne_packages node_nri) ''PA.'') = 1" by code_simp+
  show ?thesis
    using create_container_accounts [OF run created_decide] r m0 b c by (simp add: Let_def)
qed

text \<open>
  C21: when \<open>CreateContainer\<close> fails, the container is not tracked and not verified, and nothing
  outside its own staging directory changed; unless the removal itself fails, every file that
  differs from before is gone, so no bundle is left behind half staged.
\<close>

theorem create_container_failure_cleans:
  assumes "dynamic_ca_root (ne_penv E) = abs_path D" and "stage_root D s"
    and "create_container E ctx pod ctr p s = (Inl e, p', s')"
  shows "pl_tracked p' = pl_tracked p \<and> pl_verifying p' = pl_verifying p \<and>
    m_active (pl_metrics p') = m_active (pl_metrics p) \<and>
    (\<forall>q. node_at s' q \<noteq> node_at s q \<longrightarrow> (\<exists>key. container_ca_key ctr = Inr key \<and> prefix (D @ [key]) q)) \<and>
    ((\<forall>f. fs_faults s RemoveAll f = None) \<longrightarrow> (\<forall>q. node_at s' q = node_at s q \<or> node_at s' q = None))"
  using assms(3)
proof (cases rule: create_container_cases)
  case (nobinary d p1 s1 e')
  then show ?thesis
    using plugin_decide_keeps [OF nobinary(1)] decide_verifying [OF nobinary(1)] by auto
next
  case (unstaged d p1 s1 e' s2 self)
  note k = plugin_decide_keeps [OF unstaged(1)]
  have ok1: "stage_root D s1" and n1: "node_at s1 = node_at s" "fs_faults s1 = fs_faults s"
    using k(6) assms(2) by auto
  have st: "stage_dynamic_ca_file (ne_packages E) (getenv_or (ne_penv E) env_ca_file default_ca_file) (abs_path D) ctr s1 =
      (Inl e', s2)" and cl: "s' = snd (cleanup_dynamic_ca_file (abs_path D) ctr s2)"
    using unstaged(6,7) assms(1) by simp_all
  have h: "handled D ctr s1 s2" using stage_handled [OF ok1 st] by blast
  then have ok2: "stage_root D s2" by (simp add: handled_def)
  obtain r3 where c3: "cleanup_dynamic_ca_file (abs_path D) ctr s2 = (r3, s')"
    using cl by (cases "cleanup_dynamic_ca_file (abs_path D) ctr s2") auto
  have h': "handled D ctr s1 s'" using h cleanup_handled [OF ok2 c3] by (rule handled_trans)
  have "\<exists>key. container_ca_key ctr = Inr key \<and> prefix (D @ [key]) q" if "node_at s' q \<noteq> node_at s q" for q
    using h' that n1 by (auto simp: handled_def key_area_def split: sum.splits dest: changes_only_node)
  moreover have "node_at s' q = node_at s q \<or> node_at s' q = None"
    if nf: "\<forall>f. fs_faults s RemoveAll f = None" for q
  proof (cases "container_ca_key ctr")
    case (Inl x)
    then show ?thesis using h' n1 by (simp add: handled_def)
  next
    case (Inr key)
    have "fs_faults s2 = fs_faults s" using h Inr n1 changes_only_faults [of _ s1 s2] by (auto simp: handled_def)
    then have "removed (D @ [key]) s2 s'" using cleanup_removes [OF ok2 Inr c3] nf by simp
    then show ?thesis using h Inr n1 by (auto simp: removed_def handled_def key_area_def dest: changes_only_node)
  qed
  ultimately show ?thesis using unstaged(8) k decide_verifying [OF unstaged(1)] by auto
qed auto

text \<open>A full disk: every rename fails, after the container's directory was made.\<close>

definition full_disk :: fs where
  "full_disk = (fs_of node_tree)\<lparr>fs_faults := (\<lambda>c p. if c = Rename then Some ENOSPC else None)\<rparr>"

lemma full_disk_root: "stage_root [''run''] full_disk"
proof -
  have "node_at full_disk = node_at (fs_of node_tree)" by (simp add: full_disk_def node_at_def [abs_def])
  then show ?thesis using node_stage_root by (simp add: stage_root_def wf_fs_def)
qed

theorem create_container_failure_cleans_witness:
  "isl (fst (created full_disk)) \<and> node_at (snd (snd (created full_disk))) [''run'', ''c1''] = None \<and>
   node_at (snd (snd (created full_disk))) [''run'', ''old'', ''ca-bundle.pem''] = Some (file_node ''PB.'')"
proof -
  define p0 where "p0 = synchronize node_nri [] (new_plugin dead_world node_penv 0) full_disk"
  obtain r p s where c: "created full_disk = (r, p, s)" by (cases "created full_disk")
  have "isl (fst (created full_disk))" by code_simp
  then obtain e where r: "r = Inl e" using c by (auto simp: isl_def)
  have run: "create_container node_nri no_context opted_pod some_container p0 full_disk = (Inl e, p, s)"
    using c r by (simp add: created_def p0_def)
  have old: "node_at full_disk = map_of node_tree" by (simp add: full_disk_def node_at_def [abs_def] fs_of_def)
  have n: "map_of node_tree [''run'', ''c1''] = None"
    "map_of node_tree [''run'', ''old'', ''ca-bundle.pem''] = Some (file_node ''PB.'')"
    "container_ca_key some_container = Inr ''c1''" by code_simp+
  note clean = create_container_failure_cleans [OF node_root full_disk_root run]
  have nf: "\<forall>f. fs_faults full_disk RemoveAll f = None" by (simp add: full_disk_def)
  have "node_at s q = node_at full_disk q \<or> node_at s q = None" for q using clean nf by simp
  from this [of "[''run'', ''c1'']"] have "node_at s [''run'', ''c1''] = None" using n(1) by (simp add: old)
  moreover have "node_at s [''run'', ''old'', ''ca-bundle.pem''] = Some (file_node ''PB.'')"
  proof (rule ccontr)
    assume "node_at s [''run'', ''old'', ''ca-bundle.pem''] \<noteq> Some (file_node ''PB.'')"
    then have "node_at s [''run'', ''old'', ''ca-bundle.pem''] \<noteq> node_at full_disk [''run'', ''old'', ''ca-bundle.pem'']"
      using old n(2) by simp
    then show False using clean n(3) by fastforce
  qed
  ultimately show ?thesis using c r by simp
qed

section \<open>RemoveContainer\<close>

text \<open>
  C22: removing a container always untracks it and no other, and touches no other container's
  directory. Its own directory goes when the pod is opted in and also when the lookup failed,
  so an unreachable API server leaks nothing; a pod that is not opted in keeps its directory
  for the cleaner.
\<close>

theorem remove_container_cleans:
  assumes "dynamic_ca_root (ne_penv E) = abs_path D" and "stage_root D s" and "container_ca_key ctr = Inr key"
    and "\<forall>f. fs_faults s RemoveAll f = None"
    and "remove_container E ctx pod ctr p s = (p', s')" and "plugin_decide E ctx pod (untrack key p) s = (d, p1, s1)"
  shows "set (pl_tracked p') = set (pl_tracked p) - {key} \<and> key \<notin> set (pl_missed p') \<and>
    (\<forall>q. node_at s' q = (if prefix (D @ [key]) q \<and> (de_inject d \<or> de_reason d = ''lookup-failed'')
       then None else node_at s q)) \<and>
    m_cleanup_errors (pl_metrics p') = m_cleanup_errors (pl_metrics p)"
proof -
  have ne: "key \<noteq> []" using container_ca_key_valid [OF assms(3)] by (auto simp: valid_name_def)
  note k = plugin_decide_keeps [OF assms(6)] and u = untrack_keeps [of key p]
  have e0: "m_cleanup_errors (pl_metrics (untrack key p)) = m_cleanup_errors (pl_metrics p)"
    by (simp add: untrack_def Let_def)
  have ok1: "stage_root D s1" and n1: "node_at s1 = node_at s" "fs_faults s1 = fs_faults s"
    using k(6) assms(2) by auto
  obtain r2 s2 where c: "cleanup_dynamic_ca_file (abs_path D) ctr s1 = (r2, s2)"
    by (cases "cleanup_dynamic_ca_file (abs_path D) ctr s1")
  have cl: "r2 = Inr () \<and> removed (D @ [key]) s1 s2"
    by (rule cleanup_removes [OF ok1 assms(3) c]) (use n1 assms(4) in simp)
  have run: "(p', s') = (if \<not> de_inject d \<and> de_reason d \<noteq> ''lookup-failed'' then (p1, s1)
      else (upd_metrics (\<lambda>m. m\<lparr>m_cleanups := Suc (m_cleanups m)\<rparr>) p1, s2))"
    unfolding assms(5) [symmetric] remove_container_def using assms(1,3,6) ne c cl by (simp add: Let_def)
  show ?thesis
  proof (cases "de_inject d \<or> de_reason d = ''lookup-failed''")
    case True
    then have "p' = upd_metrics (\<lambda>m. m\<lparr>m_cleanups := Suc (m_cleanups m)\<rparr>) p1" "s' = s2" using run by auto
    then show ?thesis using True k u e0 cl n1 by (auto simp: removed_def)
  next
    case False
    then have "p' = p1" "s' = s1" using run by auto
    then show ?thesis using False k u e0 n1 by auto
  qed
qed

definition ns_opted_pod :: pod where
  "ns_opted_pod = \<lparr>pod_id = ''p'', pod_namespace = ''ns'', pod_annotations = [], pod_labels = []\<rparr>"

definition old_container :: container where
  "old_container = \<lparr>ct_id = ''old'', ct_name = ''app'', ct_pod = ''p'', ct_running = True,
     ct_args = [], ct_env = []\<rparr>"

text \<open>The API server is unreachable and the directory of the removed container still goes.\<close>

theorem remove_container_cleans_witness:
  "(let p = (new_plugin dead_world node_penv 0)\<lparr>pl_tracked := [''old'', ''c1'']\<rparr>;
        out = remove_container node_nri no_context ns_opted_pod old_container p (fs_of node_tree) in
    node_at (snd out) [''run'', ''old''] = None \<and> set (pl_tracked (fst out)) = {''c1''})"
proof -
  define p where "p = (new_plugin dead_world node_penv 0)\<lparr>pl_tracked := [''old'', ''c1'']\<rparr>"
  obtain p' s' where run: "remove_container node_nri no_context ns_opted_pod old_container p (fs_of node_tree) = (p', s')"
    by (cases "remove_container node_nri no_context ns_opted_pod old_container p (fs_of node_tree)")
  obtain d p1 s1 where dec: "plugin_decide node_nri no_context ns_opted_pod (untrack ''old'' p) (fs_of node_tree) = (d, p1, s1)"
    by (cases "plugin_decide node_nri no_context ns_opted_pod (untrack ''old'' p) (fs_of node_tree)")
  have "de_reason (fst (plugin_decide node_nri no_context ns_opted_pod
      (untrack ''old'' ((new_plugin dead_world node_penv 0)\<lparr>pl_tracked := [''old'', ''c1'']\<rparr>)) (fs_of node_tree))) = ''lookup-failed''"
    by code_simp
  then have d: "de_reason d = ''lookup-failed''" using dec by (simp add: p_def)
  have key: "container_ca_key old_container = Inr ''old''" by code_simp
  have nf: "\<forall>f. fs_faults (fs_of node_tree) RemoveAll f = None" by simp
  have "set (pl_tracked p') = {''c1''} \<and> node_at s' [''run'', ''old''] = None"
    using remove_container_cleans [OF node_root node_stage_root key nf run dec] d by (simp add: p_def)
  then show ?thesis using run by (simp add: Let_def p_def [symmetric])
qed

section \<open>Synchronize\<close>

text \<open>
  C23: on every (re)connection the plugin becomes ready and tracks, besides what it tracked
  before, exactly the reported containers that have a staging directory; the gauge of active
  containers is set to their number.
\<close>

theorem synchronize_adopts:
  "pl_ready (synchronize E ctrs p s) \<and>
   set (pl_tracked (synchronize E ctrs p s)) = set (pl_tracked p) \<union>
     {k. \<exists>c \<in> set ctrs. container_ca_key c = Inr k \<and> isl (sys_stat s (path_join [dynamic_ca_root (ne_penv E), k])) = False} \<and>
   m_active (pl_metrics (synchronize E ctrs p s)) =
     int (length (filter (staged_for (dynamic_ca_root (ne_penv E)) s) ctrs))"
proof -
  have "(container_ca_key c = Inr k \<and> staged_for (dynamic_ca_root (ne_penv E)) s c) =
      (container_ca_key c = Inr k \<and> isl (sys_stat s (path_join [dynamic_ca_root (ne_penv E), k])) = False)" for c k
    by (auto simp: staged_for_def split: sum.splits)
  then show ?thesis by (simp only: synchronize_keeps synchronize_eq(2,4))
qed

text \<open>
  C24: a reconnect never forgets a tracked container, so one that was removed while the plugin
  was disconnected, and that the runtime no longer reports, stays tracked, and no sweep however
  late deletes anything in its staging directory. The gauge of active containers counts the
  reported containers only; it is zero when none is reported, whatever is still tracked.
\<close>

theorem reconnect_keeps_stale_tracking:
  assumes "stage_root D s" and "dynamic_ca_root (ne_penv E) = abs_path D" and "k \<in> set (pl_tracked p)"
    and "clean_orphans E (synchronize E ctrs p s) (s\<lparr>fs_clock := t\<rparr>) = (p', s')"
  shows "k \<in> set (pl_tracked p') \<and> (\<forall>q. prefix (D @ [k]) q \<longrightarrow> node_at s' q = node_at s q) \<and>
    (ctrs = [] \<longrightarrow> m_active (pl_metrics p') = 0)"
proof -
  let ?p = "synchronize E ctrs p s"
  obtain n where sw: "sweep (abs_path D) (pl_tracked ?p) (s\<lparr>fs_clock := t\<rparr>) = (n, s')"
      and p': "p' = upd_metrics (\<lambda>m. m\<lparr>m_orphans_cleaned := m_orphans_cleaned m + n\<rparr>) ?p"
    using assms(4) by (auto simp: clean_orphans_def assms(2) split: prod.splits)
  have k: "k \<in> set (pl_tracked ?p)" using assms(3) by (simp add: synchronize_keeps)
  have "stage_root D (s\<lparr>fs_clock := t\<rparr>)" using assms(1) by simp
  note keep = sweep_keeps_area [OF this sw k]
  have "ctrs = [] \<longrightarrow> m_active (pl_metrics ?p) = 0" by (simp add: synchronize_eq(2))
  then show ?thesis using k keep by (simp add: p')
qed

text \<open>The bundle of a container that nobody reports is still there after more than eleven days.\<close>

theorem reconnect_keeps_stale_tracking_witness:
  "(let p = synchronize node_nri [] ((new_plugin dead_world node_penv 0)\<lparr>pl_tracked := [''old'']\<rparr>) (fs_of node_tree);
        out = clean_orphans node_nri p ((fs_of node_tree)\<lparr>fs_clock := 1000000000\<rparr>) in
    ''old'' \<in> set (pl_tracked (fst out)) \<and> m_active (pl_metrics (fst out)) = 0 \<and>
    node_at (snd out) [''run'', ''old'', ''ca-bundle.pem''] = Some (file_node ''PB.''))"
proof -
  let ?p = "(new_plugin dead_world node_penv 0)\<lparr>pl_tracked := [''old'']\<rparr>"
  obtain p' s' where run: "clean_orphans node_nri (synchronize node_nri [] ?p (fs_of node_tree))
      ((fs_of node_tree)\<lparr>fs_clock := 1000000000\<rparr>) = (p', s')" by (rule prod.exhaust)
  have k: "''old'' \<in> set (pl_tracked ?p)" by simp
  have n: "node_at (fs_of node_tree) [''run'', ''old'', ''ca-bundle.pem''] = Some (file_node ''PB.'')" by code_simp
  have "''old'' \<in> set (pl_tracked p') \<and> m_active (pl_metrics p') = 0 \<and>
      node_at s' [''run'', ''old'', ''ca-bundle.pem''] = Some (file_node ''PB.'')"
    using reconnect_keeps_stale_tracking [OF node_stage_root node_root k run] n by simp
  then show ?thesis using run by (simp add: Let_def)
qed

end
