(* ===== verification/App.thy ===== *)
theory App
  imports Hook Wrapper
begin

text \<open>
  \<open>internal/app/run.go\<close>: one binary, three modes. The environment of the process says which
  one runs and what becomes of its error. \<open>hook\<close>, \<open>wrapper\<close> and \<open>plugin\<close> are the results of
  the three \<open>Run\<close> functions.
\<close>

datatype app_mode = HookMode | WrapperMode | PluginMode

definition app_mode :: "strmap \<Rightarrow> app_mode" where
  "app_mode penv =
     (if trim_space (getenv penv env_hook_mode) \<noteq> [] then HookMode
      else if trim_space (getenv penv env_wrapper_mode) \<noteq> [] then WrapperMode
      else PluginMode)"

definition fails_open :: "strmap \<Rightarrow> bool" where
  "fails_open penv = equal_fold (getenv_or penv env_fail_policy fail_policy_open) fail_policy_open"

text \<open>The error \<open>Run\<close> returns; \<open>main\<close> exits with 1 on an error and with 0 otherwise.\<close>

definition app_run :: "strmap \<Rightarrow> (app_mode \<Rightarrow> unit res) \<Rightarrow> unit res" where
  "app_run penv run = (case app_mode penv of
     HookMode \<Rightarrow> (case run HookMode of
         Inl e \<Rightarrow> if fails_open penv then Inr () else Inl (Wrapped ''hook failed'' e)
       | Inr _ \<Rightarrow> Inr ())
   | WrapperMode \<Rightarrow> (case run WrapperMode of
         Inl e \<Rightarrow> Inl (Wrapped ''wrapper failed'' e) | Inr _ \<Rightarrow> Inr ())
   | PluginMode \<Rightarrow> (case run PluginMode of
         Inl e \<Rightarrow> Inl (Wrapped ''plugin failed'' e) | Inr _ \<Rightarrow> Inr ()))"

definition exit_code :: "unit res \<Rightarrow> nat" where
  "exit_code r = (case r of Inl e \<Rightarrow> 1 | Inr _ \<Rightarrow> 0)"

section \<open>The process\<close>

text \<open>The environment of a process that was started with a list of entries: the first entry of a
  name counts, and an entry without an equals sign is no variable.\<close>

fun os_env :: "string list \<Rightarrow> strmap" where
  "os_env [] = []"
| "os_env (e # es) = (case cut (CHR ''='') e of None \<Rightarrow> os_env es | Some kv \<Rightarrow> kv # os_env es)"

text \<open>What becomes of a process that runs the binary: it exits, or the wrapper replaces it.\<close>

datatype process_end = Exited nat | Became string "string list" "string list"

text \<open>\<open>main\<close> and \<open>Run\<close> with the three modes in place: \<open>stdin\<close> is what the hook reads and \<open>plugin\<close>
  the result of the plugin. A wrapper that succeeds does not return.\<close>

definition main_process ::
  "codec \<Rightarrow> registry \<Rightarrow> process \<Rightarrow> bytes res \<Rightarrow> unit res \<Rightarrow> fs \<Rightarrow> process_end" where
  "main_process J rg P stdin plugin s =
     (let penv = os_env (pr_environ P) in
      (case app_mode penv of
         WrapperMode \<Rightarrow> (case wrapper_run J rg penv P s of
             Replaced argv0 args env \<Rightarrow> Became argv0 args env
           | Failed e \<Rightarrow> Exited (exit_code (app_run penv (\<lambda>_. Inl e))))
       | HookMode \<Rightarrow> Exited (exit_code (app_run penv (\<lambda>_. fst (hook_run J rg penv stdin s))))
       | PluginMode \<Rightarrow> Exited (exit_code (app_run penv (\<lambda>_. plugin)))))"

end
