(* ===== verification/End_To_End.thy ===== *)
theory End_To_End
  imports Hook_Runs Nri_Handlers App
begin

text \<open>
  How the three modes of the program fit together: the plugin hands the hook an environment
  and a staging directory in which the hook's own preconditions hold, and a run of the hook is
  a step the node tolerates, so that the plugin's invariants survive it.
\<close>

section \<open>The environment of the hook\<close>

lemma os_env_entry: "env_key k \<Longrightarrow> os_env (env_entry k v # es) = (k, v) # os_env es"
  using cut_env_entry [of k v] by simp

definition config_keys :: "string list" where
  "config_keys = [env_hook_mode, env_ca_file, env_fail_policy, env_hook_context_file,
     env_annotation_prefix, env_log_level, env_breadcrumb_dir]"

lemma config_keys_ok: "distinct config_keys" "k \<in> set config_keys \<Longrightarrow> env_key k"
proof -
  show "distinct config_keys" by (simp add: config_keys_def config_defs)
  have "list_all env_key config_keys" by code_simp
  then show "k \<in> set config_keys \<Longrightarrow> env_key k" by (auto simp: list_all_iff)
qed

text \<open>What the hook finds in the environment of the adjustment's hook.\<close>

lemma hook_env:
  "os_env (hk_env (hook_for penv self f)) =
     zip config_keys [mode_create_rt, f, fail_policy_open, hook_context_file, annotation_prefix penv,
       getenv_or penv env_log_level ''info'', path_dir f]"
proof -
  have "os_env (map (\<lambda>(k, v). env_entry k v) kvs) = kvs" if "\<forall>(k, v) \<in> set kvs. env_key k" for kvs
    using that by (induction kvs) (auto simp: cut_env_entry)
  from this [of "zip config_keys [mode_create_rt, f, fail_policy_open, hook_context_file, annotation_prefix penv,
       getenv_or penv env_log_level ''info'', path_dir f]"]
  show ?thesis using config_keys_ok(2) by (auto simp: hook_for_def config_keys_def)
qed

lemma hook_getenv:
  fixes penv self f
  defines "henv \<equiv> os_env (hk_env (hook_for penv self f))"
  shows "getenv henv env_hook_mode = mode_create_rt" "getenv henv env_ca_file = f"
    "getenv henv env_fail_policy = fail_policy_open" "getenv henv env_hook_context_file = hook_context_file"
    "getenv henv env_annotation_prefix = annotation_prefix penv"
    "getenv henv env_log_level = getenv_or penv env_log_level ''info''"
    "getenv henv env_breadcrumb_dir = path_dir f"
  by (simp_all add: henv_def hook_env getenv_def config_keys_def config_defs)

section \<open>Paths survive the trimming\<close>

lemma strip_one_start:
  assumes "list_all (\<lambda>w. w \<noteq> [] \<and> hd w \<noteq> c) ws"
  shows "strip_one ws (c # cs) = None"
proof -
  have "\<not> has_prefix (c # cs) w" if "w \<in> set ws" for w
    using assms that by (cases w) (auto simp: list_all_iff has_prefix_def)
  then show ?thesis by (auto simp: strip_one_def find_None_iff split: option.split)
qed

lemma trim_space_plain:
  assumes "list_all (\<lambda>w. w \<noteq> [] \<and> hd w \<noteq> c) space_seqs" and "list_all (\<lambda>w. w \<noteq> [] \<and> last w \<noteq> d) space_seqs"
  shows "trim_space (c # cs @ [d]) = c # cs @ [d]"
proof (rule trim_space_fixed)
  show "strip_one space_seqs (c # cs @ [d]) = None" by (rule strip_one_start [OF assms(1)])
  have "list_all (\<lambda>w. w \<noteq> [] \<and> hd w \<noteq> d) (map rev space_seqs)"
    using assms(2) by (auto simp: list_all_iff hd_rev)
  from strip_one_start [OF this] show "strip_one (map rev space_seqs) (rev (c # cs @ [d])) = None" by simp
qed

lemma trim_space_staged [simp]:
  "trim_space (abs_path (D @ [k, dynamic_ca_file_name])) = abs_path (D @ [k, dynamic_ca_file_name])"
proof -
  have e: "abs_path (D @ [k, dynamic_ca_file_name]) =
      slash # (join_with [slash] (D @ [k]) @ slash # ''ca-bundle.pe'') @ [CHR ''m'']"
    using join_with_append1 [of "D @ [k]" "[slash]" dynamic_ca_file_name]
    by (simp add: abs_path_def) (simp add: dynamic_ca_file_name_def)
  have "list_all (\<lambda>w. w \<noteq> [] \<and> hd w \<noteq> slash) space_seqs" "list_all (\<lambda>w. w \<noteq> [] \<and> last w \<noteq> CHR ''m'') space_seqs"
    by code_simp+
  from trim_space_plain [OF this] show ?thesis unfolding e .
qed

section \<open>What the plugin prepares\<close>

definition hook_penv :: "nri_env \<Rightarrow> string \<Rightarrow> fpath \<Rightarrow> string \<Rightarrow> strmap" where
  "hook_penv E self D key =
     os_env (hk_env (hook_for (ne_penv E) self (abs_path (D @ [key, dynamic_ca_file_name]))))"

lemma path_dir_staged:
  "valid_names (D @ [key]) \<Longrightarrow> path_dir (abs_path (D @ [key, dynamic_ca_file_name])) = abs_path (D @ [key])"
  using path_dir_abs_path [of "D @ [key]" dynamic_ca_file_name] by simp

lemma hook_penv_modes:
  fixes E self D key
  defines "henv \<equiv> hook_penv E self D key"
  shows "app_mode henv = HookMode" "fails_open henv" "context_file_path henv = hook_context_file"
    "to_lower (trim_space (getenv henv env_hook_mode)) = mode_create_rt"
    "getenv_or henv env_ca_file default_ca_file = abs_path (D @ [key, dynamic_ca_file_name])"
proof -
  note g = hook_getenv [of "ne_penv E" self "abs_path (D @ [key, dynamic_ca_file_name])", folded hook_penv_def]
  have c: "trim_space mode_create_rt \<noteq> []" "equal_fold (trim_space fail_policy_open) fail_policy_open"
    "trim_space fail_policy_open \<noteq> []" "trim_space hook_context_file = hook_context_file" "hook_context_file \<noteq> []"
    "to_lower (trim_space mode_create_rt) = mode_create_rt" by code_simp+
  show "app_mode henv = HookMode" using c by (simp add: henv_def app_mode_def g)
  show "fails_open henv" using c by (simp add: henv_def fails_open_def getenv_or_def g)
  show "context_file_path henv = hook_context_file" using c by (simp add: henv_def context_file_path_def g)
  show "to_lower (trim_space (getenv henv env_hook_mode)) = mode_create_rt" using c by (simp add: henv_def g)
  have "abs_path (D @ [key, dynamic_ca_file_name]) \<noteq> []" by (simp add: abs_path_def)
  then show "getenv_or henv env_ca_file default_ca_file = abs_path (D @ [key, dynamic_ca_file_name])"
    by (simp add: henv_def getenv_or_def g)
qed

text \<open>Where a bundle is staged, the hook finds the host as its own contract wants it.\<close>

lemma hook_ready_staged:
  assumes ok: "stage_root D s" and b: "bundle_at D s key = Some b"
    and root: "root_ok s (cx_rootfs ctx)" "root_of (cx_rootfs ctx) \<noteq> []"
    and ca: "cx_ca_file ctx = abs_path (D @ [key, dynamic_ca_file_name])"
  shows "hook_ready (cx_rootfs ctx) (D @ [key]) (D @ [key]) (hook_penv E self D key) ctx s"
proof -
  have wf: "wf_tree (node_at s)" using ok by (simp add: stage_root_def wf_fs_def)
  have "node_at s ((D @ [key]) @ [dynamic_ca_file_name]) \<noteq> None"
    using b by (auto simp: bundle_at_def split: option.splits)
  then have rd: "real_dir (node_at s) (D @ [key])"
    using wf_tree_prefix_dir [OF wf] wf_tree_real_dir [OF wf] by blast
  then have dir: "path_dir (abs_path (D @ [key, dynamic_ca_file_name])) = abs_path (D @ [key])"
    by (intro path_dir_staged real_dir_names)
  have "\<not> is_link (node_at s q)" if "q \<in> crumb_area (D @ [key])" for q
    using that ok by (auto simp: crumb_area_def stage_root_def)
  then show ?thesis
    using root rd dir ca hook_getenv(7) [of "ne_penv E" self "abs_path (D @ [key, dynamic_ca_file_name])"]
    by (simp add: hook_ready_def hook_penv_def)
qed

lemma hook_input_context:
  "hook_input J penv stdin s = Some ctx \<Longrightarrow> cx_mode ctx = to_lower (trim_space (getenv penv env_hook_mode)) \<and>
     cx_ca_file ctx = getenv_or penv env_ca_file default_ca_file"
  by (auto simp: hook_input_def hook_context_def split: sum.splits)

text \<open>
  C34: the plugin's side of the contract with the hook. When \<open>CreateContainer\<close> injects, the
  adjustment carries one hook, whose process runs in hook mode as a \<open>createRuntime\<close> hook, fails
  open, takes its bundle from the container's own staging directory, where a valid bundle then
  lies, and leaves its state where the wrapper looks for it; the container starts as the
  wrapper with the container's own command as its arguments.
\<close>

theorem plugin_prepares_hook:
  assumes "dynamic_ca_root (ne_penv E) = abs_path D" and "stage_root D s"
    and "create_container E ctx pod ctr p s = (Inr (Some adj), p', s')"
  shows "\<exists>self key b. plugin_binary E = Inr self \<and> container_ca_key ctr = Inr key \<and>
    map (\<lambda>h. os_env (hk_env h)) (adj_hooks adj) = [hook_penv E self D key] \<and>
    app_mode (hook_penv E self D key) = HookMode \<and> fails_open (hook_penv E self D key) \<and>
    context_file_path (hook_penv E self D key) = hook_context_file \<and>
    (\<forall>J stdin u hctx. hook_input J (hook_penv E self D key) stdin u = Some hctx \<longrightarrow>
       cx_mode hctx = mode_create_rt \<and> cx_ca_file hctx = abs_path (D @ [key, dynamic_ca_file_name])) \<and>
    bundle_at D s' key = Some b \<and> validate_pem (ne_packages E) b = Inr () \<and>
    map_of (adj_env adj) env_wrapper_mode = Some ''1'' \<and>
    (\<forall>args. adj_args adj = Some args \<longrightarrow> args = wrapper_path # ct_args ctr)"
  using assms(3)
proof (cases rule: create_container_cases)
  case (injected d p1 s1 self ca_file content adj')
  have "stage_root D s1"
    using plugin_decide_keeps(6) [OF injected(1)] assms(2) by auto
  note st = stage_handled [OF this injected(6) [unfolded assms(1)]]
  then obtain key where key: "container_ca_key ctr = Inr key" "bundle_at D s' key = Some content" by auto
  note stage = stage_ok [OF \<open>stage_root D s1\<close> key(1) injected(6) [unfolded assms(1)]]
  have adj: "adj = adjustment_for (ne_penv E) self (abs_path (D @ [key, dynamic_ca_file_name])) ctr"
    using inject_container_keeps(3) [OF injected(7) key(1)] injected(2) stage by simp
  note m = hook_penv_modes [of E self D key]
  show ?thesis
    by (intro exI [of _ self] exI [of _ key] exI [of _ content])
      (use adj key stage injected(5) m hook_input_context in \<open>simp add: adjustment_for_def hook_penv_def\<close>)
qed simp_all

theorem plugin_prepares_hook_witness:
  "\<exists>adj p' s' self. created (fs_of node_tree) = (Inr (Some adj), p', s') \<and>
     map (\<lambda>h. os_env (hk_env h)) (adj_hooks adj) = [hook_penv node_nri self [''run''] ''c1''] \<and>
     bundle_at [''run''] s' ''c1'' \<noteq> None"
proof -
  obtain r p' s' where c: "created (fs_of node_tree) = (r, p', s')" by (cases "created (fs_of node_tree)")
  have "case fst (created (fs_of node_tree)) of Inr (Some adj) \<Rightarrow> True | _ \<Rightarrow> False" by code_simp
  then obtain adj where r: "r = Inr (Some adj)" using c by (auto split: sum.splits option.splits)
  have k: "container_ca_key some_container = Inr ''c1''" by code_simp
  show ?thesis
    using plugin_prepares_hook [OF node_root node_stage_root c [unfolded created_def r]] k c r by auto
qed

section \<open>A run of the hook is a step the node tolerates\<close>

lemma bundle_outside_hook_area:
  assumes "\<forall>q. prefix D q \<longrightarrow> q \<notin> write_area rootfs"
  shows "D @ [k, dynamic_ca_file_name] \<notin> hook_area rootfs (D @ [key]) (D @ [key])"
proof -
  have "dynamic_ca_file_name \<noteq> temp_base i" for i
    by (simp add: dynamic_ca_file_name_def temp_base_def)
  moreover have "dynamic_ca_file_name \<notin> {merged_ca_file_name, staged_store_name, breadcrumb_started,
      breadcrumb_progress, breadcrumb_done}"
    by (simp add: dynamic_ca_file_name_def merged_ca_file_name_def staged_store_name_def config_defs)
  ultimately show ?thesis
    using assms by (auto simp: hook_area_def stage_area_def crumb_area_def temps_def)
qed

lemma hook_run_foreign:
  assumes "stage_root D s" and "register_all (all_processors C) empty_registry = Inr rg"
    and "hook_input J penv stdin (breadcrumb_now J penv breadcrumb_started s) = Some ctx"
    and "hook_ready rootfs (D @ [key]) (D @ [key]) penv ctx s"
    and "\<forall>q. prefix D q \<longrightarrow> q \<notin> write_area rootfs"
  shows "foreign_step D live s (snd (hook_run J rg penv stdin s))"
proof -
  note c = hook_run_changes [OF assms(2,3,4)]
  have "bundle_at D (snd (hook_run J rg penv stdin s)) k = bundle_at D s k" for k
    using changes_only_node [OF conjunct1 [OF c] bundle_outside_hook_area [OF assms(5)]] by (simp add: bundle_at_def)
  moreover have "stage_root D (snd (hook_run J rg penv stdin s))"
    using stage_root_step [OF assms(1)] c by blast
  ultimately show ?thesis using changes_only_faults [OF conjunct1 [OF c]] by (auto simp: foreign_step_def)
qed

text \<open>
  C35: the hook refines the environment the plugin assumes. In a reachable state of the node, a
  hook that runs for a live container with the environment the plugin gave it, in a rootfs
  apart from the staging directory, takes the node to a reachable state again, whatever it
  does and however it fails: so no run of a hook breaks an invariant of the plugin, and every
  live bundle keeps its bytes.
\<close>

theorem hook_keeps_node:
  assumes "dynamic_ca_root (ne_penv E) = abs_path D" and "nri_reachable E D st"
    and "(key, b) \<in> set (nd_live st)"
    and "register_all (all_processors C) empty_registry = Inr rg"
    and "hook_input J (hook_penv E self D key) stdin
      (breadcrumb_now J (hook_penv E self D key) breadcrumb_started (nd_fs st)) = Some ctx"
    and "root_ok (nd_fs st) (cx_rootfs ctx)" and "root_of (cx_rootfs ctx) \<noteq> []"
    and "\<forall>q. prefix D q \<longrightarrow> q \<notin> write_area (cx_rootfs ctx)"
  shows "nri_reachable E D (st\<lparr>nd_fs := snd (hook_run J rg (hook_penv E self D key) stdin (nd_fs st))\<rparr>) \<and>
    (\<forall>(k, c) \<in> set (nd_live st).
       bundle_at D (snd (hook_run J rg (hook_penv E self D key) stdin (nd_fs st))) k = Some c)"
proof -
  have ok: "node_ok D st" using node_ok_reachable [OF assms(1,2)] .
  then have sr: "stage_root D (nd_fs st)" and live: "\<forall>(k, c) \<in> set (nd_live st). bundle_at D (nd_fs st) k = Some c"
    by (auto simp: node_ok_def)
  have "cx_ca_file ctx = abs_path (D @ [key, dynamic_ca_file_name])"
    using hook_input_context [OF assms(5)] hook_penv_modes(5) by simp
  then have rdy: "hook_ready (cx_rootfs ctx) (D @ [key]) (D @ [key]) (hook_penv E self D key) ctx (nd_fs st)"
    using hook_ready_staged [OF sr _ assms(6,7), of key b] live assms(3) by auto
  have f: "foreign_step D (nd_live st) (nd_fs st) (snd (hook_run J rg (hook_penv E self D key) stdin (nd_fs st)))"
    by (rule hook_run_foreign [OF sr assms(4,5) rdy assms(8)])
  from Step [OF assms(2) Foreign [OF f]]
  have "nri_reachable E D (st\<lparr>nd_fs := snd (hook_run J rg (hook_penv E self D key) stdin (nd_fs st))\<rparr>)" .
  moreover have "\<forall>(k, c) \<in> set (nd_live st).
      bundle_at D (snd (hook_run J rg (hook_penv E self D key) stdin (nd_fs st))) k = Some c"
    using f live unfolding foreign_step_def by fastforce
  ultimately show ?thesis by blast
qed

text \<open>A node that restarted its plugin while the container \<open>old\<close> lives, with that container's rootfs.\<close>

definition full_tree :: tree where
  "full_tree = [([], dir_node), ([''ca''], file_node ''PA.''), ([''run''], dir_node),
     ([''run'', ''old''], dir_node), ([''run'', ''old'', ''ca-bundle.pem''], file_node ''PB.''),
     ([''b''], dir_node), ([''b'', ''config.json''], file_node ''spec''), ([''r''], dir_node)]"

definition full_node :: node_state where
  "full_node = \<lparr>nd_plugin = synchronize node_nri [old_container] (new_plugin dead_world node_penv 0) (fs_of full_tree),
     nd_fs = fs_of full_tree, nd_live = [(''old'', ''PB.'')], nd_ops = []\<rparr>"

lemma full_wf: "wf_tree_check full_tree"
  by code_simp

lemma full_node_reachable: "nri_reachable node_nri [''run''] full_node"
proof (rule Start)
  have d: "is_dir (map_of full_tree [''run''])" by code_simp
  have "\<not> is_link (map_of full_tree ([''run''] @ q))" for q
    by (auto simp: full_tree_def dir_node_def file_node_def)
  then have sr: "stage_root [''run''] (fs_of full_tree)"
    using wf_fs_of [OF full_wf] real_dir_fs_of [OF full_wf d] by (simp add: stage_root_def)
  have b: "bundle_at [''run''] (fs_of full_tree) ''old'' = Some ''PB.''" by code_simp
  have k: "container_ca_key old_container = Inr ''old''" by code_simp
  show "nri_init node_nri [''run''] full_node"
    unfolding nri_init_def
    by (rule exI [of _ 0], rule exI [of _ "[old_container]"])
      (use sr b k in \<open>simp add: full_node_def node_nri_def\<close>)
qed

theorem hook_keeps_node_witness:
  "nri_reachable node_nri [''run''] (full_node\<lparr>nd_fs := snd (hook_run sample_codec sample_registry
     (hook_penv node_nri ''/cainjekt'' [''run''] ''old'') (Inr ''stdin'') (nd_fs full_node))\<rparr>)"
proof -
  let ?penv = "hook_penv node_nri ''/cainjekt'' [''run''] ''old''"
  let ?s1 = "breadcrumb_now sample_codec ?penv breadcrumb_started (nd_fs full_node)"
  have n: "nd_fs full_node = fs_of full_tree" "(''old'', ''PB.'') \<in> set (nd_live full_node)"
    by (simp_all add: full_node_def)
  have "case hook_input sample_codec ?penv (Inr ''stdin'')
      (breadcrumb_now sample_codec ?penv breadcrumb_started (fs_of full_tree)) of None \<Rightarrow> False
      | Some ctx \<Rightarrow> cx_rootfs ctx = ''/r''" by code_simp
  then obtain ctx where ctx: "hook_input sample_codec ?penv (Inr ''stdin'') ?s1 = Some ctx" "cx_rootfs ctx = ''/r''"
    by (auto simp: n split: option.splits)
  have e: "root_of ''/r'' = [''r'']" "is_abs ''/r''" "is_dir (map_of full_tree [''r''])" by code_simp+
  have ok: "root_ok (nd_fs full_node) (cx_rootfs ctx)"
    using e wf_fs_of [OF full_wf] real_dir_fs_of [OF full_wf] by (simp add: n ctx(2) root_ok_def)
  have out: "\<forall>q. prefix [''run''] q \<longrightarrow> q \<notin> write_area (cx_rootfs ctx)"
    by (auto simp: ctx(2) write_area_def e(1) strict_prefix_def prefix_def temps_def temp_base_def)
  have ne: "root_of (cx_rootfs ctx) \<noteq> []" by (simp add: ctx(2) e(1))
  from hook_keeps_node [OF node_root full_node_reachable n(2) sample_registry_ok ctx(1) ok ne out]
  show ?thesis by blast
qed

section \<open>Which mode a container's process runs in\<close>

lemma main_process_hook:
  "app_mode (os_env (pr_environ P)) = HookMode \<Longrightarrow> main_process J rg P stdin plugin s =
     Exited (if isl (fst (hook_run J rg (os_env (pr_environ P)) stdin s)) \<and> \<not> fails_open (os_env (pr_environ P))
             then 1 else 0)"
  by (simp add: main_process_def app_run_def exit_code_def isl_def Let_def split: sum.split)

lemma main_process_wrapper:
  "app_mode (os_env (pr_environ P)) = WrapperMode \<Longrightarrow>
   wrapper_run J rg (os_env (pr_environ P)) P s = Replaced argv0 args env \<Longrightarrow>
   main_process J rg P stdin plugin s = Became argv0 args env"
  by (simp add: main_process_def Let_def)

text \<open>
  C40: the container's process is the wrapper, with the container's command as its arguments,
  and it becomes that command exactly when the environment leaves \<open>HOOK_MODE\<close> blank. A container
  that defines \<open>HOOK_MODE\<close> itself runs as a hook instead, although the plugin asked for the
  wrapper: its command never runs, and it exits with 0, as if it had succeeded, unless the hook
  fails and its environment says not to fail open. The hook the plugin itself hands out fails
  open, so it exits with success whatever it runs into.
\<close>

theorem hook_mode_wins:
  assumes "length (pr_args P) \<ge> 2" and "resolve_command P = Inr argv0"
    and "\<And>env. pr_exec P argv0 (tl (pr_args P)) env = None"
    and "trim_space (getenv (os_env (pr_environ P)) env_wrapper_mode) \<noteq> []"
  shows "((\<exists>a args env. main_process J rg P stdin plugin s = Became a args env) \<longleftrightarrow>
      trim_space (getenv (os_env (pr_environ P)) env_hook_mode) = []) \<and>
    (trim_space (getenv (os_env (pr_environ P)) env_hook_mode) = [] \<longrightarrow>
      (\<exists>env. main_process J rg P stdin plugin s = Became argv0 (tl (pr_args P)) env)) \<and>
    (trim_space (getenv (os_env (pr_environ P)) env_hook_mode) \<noteq> [] \<longrightarrow>
      main_process J rg P stdin plugin s =
        Exited (if isl (fst (hook_run J rg (os_env (pr_environ P)) stdin s)) \<and> \<not> fails_open (os_env (pr_environ P))
                then 1 else 0)) \<and>
    exit_code (app_run (hook_penv E self D key) run) = 0"
proof -
  let ?penv = "os_env (pr_environ P)"
  have "exit_code (app_run (hook_penv E self D key) run) = 0"
    using hook_penv_modes(1,2) [of E self D key] by (simp add: app_run_def exit_code_def split: sum.split)
  moreover obtain env where w: "wrapper_run J rg ?penv P s = Replaced argv0 (tl (pr_args P)) env"
    using wrapper_runs_command [OF assms(1-3)] by blast
  have "main_process J rg P stdin plugin s = Became argv0 (tl (pr_args P)) env"
    if "trim_space (getenv ?penv env_hook_mode) = []"
    by (rule main_process_wrapper [OF _ w]) (use that assms(4) in \<open>simp add: app_mode_def\<close>)
  moreover have "main_process J rg P stdin plugin s =
      Exited (if isl (fst (hook_run J rg ?penv stdin s)) \<and> \<not> fails_open ?penv then 1 else 0)"
    if "trim_space (getenv ?penv env_hook_mode) \<noteq> []"
    by (rule main_process_hook) (use that in \<open>simp add: app_mode_def\<close>)
  ultimately show ?thesis by (metis process_end.distinct(1))
qed

text \<open>The same container, with and without a \<open>HOOK_MODE\<close> of its own.\<close>

definition started :: "string list \<Rightarrow> process_end" where
  "started own = main_process sample_codec sample_registry
     (sample_process\<lparr>pr_environ := [env_entry env_wrapper_mode ''1''] @ own\<rparr>) (Inr []) (Inr ()) sample_container"

theorem hook_mode_wins_witness:
  "(\<exists>env. started [] = Became ''/app'' [''/app'', ''-v''] env) \<and>
   started [env_entry env_hook_mode ''debug''] = Exited 0 \<and>
   started [env_entry env_hook_mode ''debug'', env_entry env_fail_policy ''closed''] = Exited 1"
proof -
  define P where "P own = sample_process\<lparr>pr_environ := [env_entry env_wrapper_mode ''1''] @ own\<rparr>" for own
  have P: "length (pr_args (P own)) \<ge> 2" "resolve_command (P own) = Inr ''/app''"
    "pr_exec (P own) a as env = None" "tl (pr_args (P own)) = [''/app'', ''-v'']"
    "pr_environ (P own) = env_entry env_wrapper_mode ''1'' # own" for own a as env
    by (simp_all add: P_def sample_process_def resolve_command_def contains_rune_def slash_def)
  let ?env = "\<lambda>own. os_env (env_entry env_wrapper_mode ''1'' # own)"
  have start: "started own = main_process sample_codec sample_registry (P own) (Inr []) (Inr ()) sample_container" for own
    by (simp add: started_def P_def)
  have m: "trim_space (getenv (?env own) env_wrapper_mode) \<noteq> [] \<and>
      (trim_space (getenv (?env own) env_hook_mode) = [] \<longleftrightarrow> own = []) \<and>
      (fails_open (?env own) \<longleftrightarrow> length own < 2) \<and>
      (own \<noteq> [] \<longrightarrow> isl (fst (hook_run sample_codec sample_registry (?env own) (Inr []) sample_container)))"
    if "own \<in> {[], [env_entry env_hook_mode ''debug''], [env_entry env_hook_mode ''debug'', env_entry env_fail_policy ''closed'']}"
    for own
    using that by (elim insertE emptyE) (simp only:, code_simp)+
  have "started own = Exited (if length own < 2 then 0 else 1)"
    if "own \<in> {[env_entry env_hook_mode ''debug''], [env_entry env_hook_mode ''debug'', env_entry env_fail_policy ''closed'']}"
    for own
    using hook_mode_wins [OF P(1,2) P(3), of own sample_codec sample_registry "Inr []" "Inr ()" sample_container]
      m [of own] that unfolding start P(5) by auto
  moreover have "\<exists>env. started [] = Became ''/app'' [''/app'', ''-v''] env"
    using hook_mode_wins [OF P(1,2) P(3), of "[]" sample_codec sample_registry "Inr []" "Inr ()" sample_container]
      m [of "[]"] unfolding start P(4,5) by simp
  ultimately show ?thesis by simp
qed

end
