(* ===== verification/Nri_Decisions.thy ===== *)
theory Nri_Decisions
  imports Nri_Plugin
begin

text \<open>
  The opt-in decision: pod annotations override pod labels, which override the labels of the
  namespace; a lookup stays within its budget and within the runtime's deadline, and one that
  fails is reported as such and leaves the cache alone.
\<close>

section \<open>What a lookup keeps\<close>

definition same_cache :: "ns_cache \<Rightarrow> ns_cache \<Rightarrow> bool" where
  "same_cache c c' = (nc_entries c' = nc_entries c \<and> nc_client c' = nc_client c \<and> nc_ttl c' = nc_ttl c \<and>
     nc_lookup_errors c' = nc_lookup_errors c)"

lemma same_cache_refl [simp]: "same_cache c c"
  by (simp add: same_cache_def)

lemma same_cache_trans: "same_cache a b \<Longrightarrow> same_cache b c \<Longrightarrow> same_cache a c"
  by (simp add: same_cache_def)

lemma current_token_keeps: "current_token W now c = (k, c') \<Longrightarrow> same_cache c c'"
  by (auto simp: current_token_def same_cache_def Let_def split: if_splits sum.splits)

lemma fetch_labels_keeps: "fetch_labels W limit now c ns = (r, c', t) \<Longrightarrow> same_cache c c'"
  using current_token_keeps [of W now c]
  by (auto simp: fetch_labels_def Let_def split: if_splits prod.splits sum.splits)

text \<open>One turn of the retry loop, unfolded once for all its proofs.\<close>

lemma fetch_retry_cases:
  assumes "fetch_retry W ctx deadline attempt now c ns = (r, c', t, n)"
    and "fetch_labels W (attempt_limit ctx now) now c ns = (a, c1, t1)"
  obtains (final) "c' = c1" "t = t1" "n = attempt" "isl r \<longleftrightarrow> isl a" "\<And>l. a = Inr l \<Longrightarrow> r = Inr l"
  | (cut) e where "a = Inl e" "c' = c1" "n = attempt" "isl r" "t1 + 400 \<le> deadline" "t1 \<le> t"
      "t \<le> max t1 (min_opt (t1 + 100) (c_deadline ctx))"
  | (again) e where "a = Inl e" "\<not> is_unauthorized e" "t1 + 400 \<le> deadline" "\<not> done_by ctx (t1 + 100)"
      "fetch_retry W ctx deadline (attempt + 1) (t1 + 100) c1 ns = (r, c', t, n)"
proof -
  have m: "min_opt (min_opt (t1 + 100) (c_deadline ctx)) (c_cancel ctx) \<le> min_opt (t1 + 100) (c_deadline ctx)"
    by (auto simp: min_opt_def min_def split: option.split)
  have eq: "(r, c', t, n) =
      (case a of Inr labels \<Rightarrow> (Inr labels, c1, t1, attempt)
       | Inl e \<Rightarrow> if is_unauthorized e then (Inl e, c1, t1, attempt)
          else if t1 + 400 > deadline then (Inl (Wrapped ''after several attempts'' e), c1, t1, attempt)
          else if done_by ctx (t1 + 100)
            then (Inl (Wrapped ''after several attempts'' (Msg ''context done'')), c1,
                  max t1 (min_opt (min_opt (t1 + 100) (c_deadline ctx)) (c_cancel ctx)), attempt)
          else fetch_retry W ctx deadline (attempt + 1) (t1 + 100) c1 ns)"
    unfolding assms(1) [symmetric]
    by (subst fetch_retry.simps) (simp add: assms(2) ns_lookup_defs split: sum.split)
  show ?thesis
  proof (cases a)
    case (Inr l)
    then show ?thesis using eq final by simp
  next
    case (Inl e)
    consider "is_unauthorized e \<or> t1 + 400 > deadline"
      | "\<not> (is_unauthorized e \<or> t1 + 400 > deadline)" "done_by ctx (t1 + 100)"
      | "\<not> (is_unauthorized e \<or> t1 + 400 > deadline)" "\<not> done_by ctx (t1 + 100)" by blast
    then show ?thesis
    proof cases
      case 1
      then show ?thesis using eq Inl by (intro final) (auto split: if_splits)
    next
      case 2
      then show ?thesis using eq Inl m by (intro cut [of e]) (auto simp: le_max_iff_disj)
    next
      case 3
      then show ?thesis using eq Inl by (intro again [of e]) auto
    qed
  qed
qed

lemma fetch_retry_keeps:
  "fetch_retry W ctx deadline attempt now c ns = (r, c', t, n) \<Longrightarrow> same_cache c c'"
proof (induction W ctx deadline attempt now c ns rule: fetch_retry.induct)
  case (1 W ctx deadline attempt now c ns)
  obtain a c1 t1 where f: "fetch_labels W (attempt_limit ctx now) now c ns = (a, c1, t1)"
    by (cases "fetch_labels W (attempt_limit ctx now) now c ns")
  note k = fetch_labels_keeps [OF f]
  show ?case
    using "1.prems" f
  proof (cases rule: fetch_retry_cases)
    case (again e)
    have "same_cache c1 c'"
      using "1.IH" [OF f [symmetric] again(1) refl] again by (simp add: ns_lookup_defs)
    with k show ?thesis by (rule same_cache_trans)
  qed (use k in simp_all)
qed

text \<open>The deadline of the request the lookup serves.\<close>

lemma fetch_retry_deadline:
  assumes "fetch_retry W ctx deadline attempt now c ns = (r, c', t, n)"
    and "c_deadline ctx = Some d" and "deadline \<le> d" and "now \<le> d"
  shows "t \<le> d"
  using assms
proof (induction W ctx deadline attempt now c ns rule: fetch_retry.induct)
  case (1 W ctx deadline attempt now c ns)
  obtain a c1 t1 where f: "fetch_labels W (attempt_limit ctx now) now c ns = (a, c1, t1)"
    by (cases "fetch_labels W (attempt_limit ctx now) now c ns")
  have "attempt_limit ctx now \<le> d"
    using "1.prems"(2) by (auto simp: attempt_limit_def min_opt_def split: option.split)
  then have t1: "t1 \<le> d" using fetch_labels_time [OF f] "1.prems"(4) by (auto simp: max_def split: if_splits)
  show ?case
    using "1.prems"(1) f
  proof (cases rule: fetch_retry_cases)
    case (cut e)
    then show ?thesis using t1 "1.prems"(2) by (simp add: min_opt_def)
  next
    case (again e)
    then show ?thesis
      using "1.IH" [OF f [symmetric] again(1) refl] "1.prems"(2,3) by (simp add: ns_lookup_defs)
  qed (use t1 in simp_all)
qed

lemma fetch_labels_with_retry_bounds:
  assumes "fetch_labels_with_retry W ctx now c ns = (r, c', t, n)"
  shows "now \<le> t \<and> t \<le> now + 1200 \<and> 1 \<le> n \<and> n \<le> 10 \<and> same_cache c c' \<and>
    (\<forall>d. c_deadline ctx = Some d \<longrightarrow> now \<le> d \<longrightarrow> t \<le> d)"
proof -
  let ?D = "min_opt (now + ns_lookup_budget) (c_deadline ctx)"
  have run: "fetch_retry W ctx ?D 1 now c ns = (r, c', t, n)"
    using assms by (simp add: fetch_labels_with_retry_def)
  have D: "?D \<le> now + 1200" by (auto simp: min_opt_def ns_lookup_budget_def split: option.split)
  have "now \<le> t \<and> t \<le> now + 1200 \<and> 1 \<le> n \<and> n \<le> 10"
    using fetch_retry_time [OF run, of now] D by simp
  moreover have "t \<le> d" if "c_deadline ctx = Some d" "now \<le> d" for d
    by (rule fetch_retry_deadline [OF run that(1) _ that(2)]) (use that in \<open>simp add: min_opt_def\<close>)
  ultimately show ?thesis using fetch_retry_keeps [OF run] by simp
qed

section \<open>Lookups\<close>

text \<open>The ways a lookup goes: disabled, from the cache, fetched, failed.\<close>

lemma get_label_cases:
  assumes "get_label W ctx now c ns key = (r, c', t)"
  obtains (disabled) "\<not> nc_client c" "r = Inr None" "c' = c" "t = now"
  | (cached) l where "nc_client c" "get_cached_labels now c ns = Some l" "r = Inr (map_of l key)" "c' = c" "t = now"
  | (fetched) l c1 n where "nc_client c" "get_cached_labels now c ns = None"
      "fetch_labels_with_retry W ctx now c ns = (Inr l, c1, t, n)" "r = Inr (map_of l key)"
      "c' = c1\<lparr>nc_entries := AList.update ns \<lparr>ne_labels = l, ne_fetched = t\<rparr> (nc_entries c1)\<rparr>"
  | (failed) e c1 n where "nc_client c" "get_cached_labels now c ns = None"
      "fetch_labels_with_retry W ctx now c ns = (Inl e, c1, t, n)" "r = Inl e"
      "c' = c1\<lparr>nc_lookup_errors := Suc (nc_lookup_errors c1)\<rparr>"
proof -
  obtain a c1 u n where f: "fetch_labels_with_retry W ctx now c ns = (a, c1, u, n)"
    by (cases "fetch_labels_with_retry W ctx now c ns") auto
  consider "\<not> nc_client c" | l where "nc_client c" "get_cached_labels now c ns = Some l"
    | l where "nc_client c" "get_cached_labels now c ns = None" "a = Inr l"
    | e where "nc_client c" "get_cached_labels now c ns = None" "a = Inl e"
    by (cases "get_cached_labels now c ns"; cases a) auto
  then show ?thesis
  proof cases
    case 1 then show ?thesis using assms by (intro disabled) (auto simp: get_label_def)
  next
    case 2 then show ?thesis using assms by (intro cached) (auto simp: get_label_def)
  next
    case 3 then show ?thesis using assms f by (intro fetched) (auto simp: get_label_def)
  next
    case 4 then show ?thesis using assms f by (intro failed) (auto simp: get_label_def)
  qed
qed

text \<open>The labels of a namespace as the cache knows them; none when lookups are disabled.\<close>

definition known_labels :: "ns_cache option \<Rightarrow> string \<Rightarrow> nat \<Rightarrow> strmap" where
  "known_labels cache ns t = (case cache of None \<Rightarrow> []
     | Some c \<Rightarrow> if ns = [] \<or> \<not> nc_client c then []
         else (case get_cached_labels t c ns of None \<Rightarrow> [] | Some l \<Rightarrow> l))"

lemma get_label_known:
  assumes "get_label W ctx now c ns key = (r, c', t)" and "ns \<noteq> []" and "r = Inr v"
  shows "v = map_of (known_labels (Some c') ns t) key"
  using assms(1)
proof (cases rule: get_label_cases)
  case (fetched l c1 n)
  have "same_cache c c1" using fetch_labels_with_retry_bounds [OF fetched(3)] by blast
  then show ?thesis
    using fetched assms(2,3) by (simp add: known_labels_def get_cached_labels_def same_cache_def)
qed (use assms(2,3) in \<open>simp_all add: known_labels_def\<close>)

lemma get_label_time:
  assumes "get_label W ctx now c ns key = (r, c', t)"
  shows "now \<le> t \<and> t \<le> now + 1200 \<and> (\<forall>d. c_deadline ctx = Some d \<longrightarrow> now \<le> d \<longrightarrow> t \<le> d)"
  using assms
proof (cases rule: get_label_cases)
  case (fetched l c1 n)
  then show ?thesis using fetch_labels_with_retry_bounds [OF fetched(3)] by blast
next
  case (failed e c1 n)
  then show ?thesis using fetch_labels_with_retry_bounds [OF failed(3)] by blast
qed simp_all

section \<open>The decision\<close>

text \<open>The error of the lookup of a namespace, where one is needed and fails: the plugin has a client,
  no fresh entry in its cache, and no attempt gets an answer.\<close>

definition lookup_error :: "world \<Rightarrow> go_context \<Rightarrow> nat \<Rightarrow> ns_cache option \<Rightarrow> string \<Rightarrow> goerr option" where
  "lookup_error W ctx now cache ns = (case cache of None \<Rightarrow> None | Some c \<Rightarrow>
     if ns = [] \<or> \<not> nc_client c \<or> get_cached_labels now c ns \<noteq> None then None
     else (case fst (fetch_labels_with_retry W ctx now c ns) of Inl e \<Rightarrow> Some e | Inr l \<Rightarrow> None))"

lemma get_label_error:
  assumes "get_label W ctx now c ns key = (r, c', t)" and "ns \<noteq> []"
  shows "lookup_error W ctx now (Some c) ns = (case r of Inl e \<Rightarrow> Some e | Inr v \<Rightarrow> None)"
  using assms(1) by (cases rule: get_label_cases) (simp_all add: lookup_error_def assms(2))

text \<open>
  C18: precedence. Unless the lookup failed, a pod is injected exactly when the value of the
  opt-in key, in the pod's annotations before its labels before the labels of its namespace,
  is \<open>true\<close> in any case. The decision says that the lookup failed, with its error, exactly when
  neither the pod's annotations nor its labels have the key and the lookup of the namespace is
  needed and fails: a failed lookup is never taken for an opt-out. It is counted and leaves no
  entry in the cache.
\<close>

theorem decide_precedence:
  assumes "decide W penv ctx pod cache now = (d, cache', t)"
  shows "(de_reason d = ''lookup-failed'' \<longleftrightarrow>
      (map_of (pod_labels pod) ++ map_of (pod_annotations pod)) (anno_enabled penv) = None \<and>
      lookup_error W ctx now cache (pod_namespace pod) \<noteq> None) \<and>
   (if de_reason d = ''lookup-failed''
    then \<not> de_inject d \<and> de_err d = lookup_error W ctx now cache (pod_namespace pod) \<and>
      (\<exists>c c'. cache = Some c \<and> nc_client c \<and> cache' = Some c' \<and> nc_entries c' = nc_entries c \<and>
         nc_lookup_errors c' = Suc (nc_lookup_errors c) \<and> get_cached_labels now c (pod_namespace pod) = None)
    else de_inject d = (\<exists>v. (map_of (known_labels cache' (pod_namespace pod) t) ++ map_of (pod_labels pod) ++
        map_of (pod_annotations pod)) (anno_enabled penv) = Some v \<and> equal_fold v ''true''))"
proof -
  let ?key = "anno_enabled penv" and ?ns = "pod_namespace pod"
  have dv: "de_reason (decision_from_value v src) \<noteq> ''lookup-failed''"
    "de_inject (decision_from_value v src) = equal_fold v ''true''" for v src
    by (simp_all add: decision_from_value_def)
  have dn: "de_reason not_opted_in \<noteq> ''lookup-failed''" "\<not> de_inject not_opted_in"
    by (simp_all add: not_opted_in_def)
  have dl: "de_reason (lookup_failed e) = ''lookup-failed''" "\<not> de_inject (lookup_failed e)"
    "de_err (lookup_failed e) = Some e" for e by (simp_all add: lookup_failed_def)
  show ?thesis
  proof (cases "(map_of (pod_labels pod) ++ map_of (pod_annotations pod)) ?key")
    case (Some v)
    then have "\<exists>src. d = decision_from_value v src"
      using assms by (auto simp: decide_def Let_def map_add_def split: option.splits)
    then show ?thesis using Some dv by (auto simp: map_add_def split: option.splits)
  next
    case None
    then have pod: "map_of (pod_annotations pod) ?key = None" "map_of (pod_labels pod) ?key = None"
      by (auto simp: map_add_def split: option.splits)
    show ?thesis
    proof (cases "cache = None \<or> ?ns = []")
      case True
      then have "d = not_opted_in \<and> cache' = cache" using assms pod by (auto simp: decide_def split: option.splits)
      moreover have "lookup_error W ctx now cache ?ns = None" using True by (auto simp: lookup_error_def split: option.split)
      ultimately show ?thesis using True pod dn by (auto simp: known_labels_def map_add_def split: option.split)
    next
      case False
      then obtain c where c: "cache = Some c" "?ns \<noteq> []" by auto
      obtain r c1 u where g: "get_label W ctx now c ?ns ?key = (r, c1, u)" by (cases "get_label W ctx now c ?ns ?key")
      have out: "cache' = Some c1" "t = u" "d = (case r of Inl e \<Rightarrow> lookup_failed e
          | Inr None \<Rightarrow> not_opted_in | Inr (Some v) \<Rightarrow> decision_from_value v ''namespace-label'')"
        using assms pod c g by (auto simp: decide_def Let_def split: sum.splits option.splits)
      have err: "lookup_error W ctx now cache ?ns = (case r of Inl e \<Rightarrow> Some e | Inr v \<Rightarrow> None)"
        using get_label_error [OF g c(2)] c(1) by simp
      show ?thesis
      proof (cases r)
        case (Inl e)
        from g have "nc_client c \<and> get_cached_labels now c ?ns = None \<and> nc_entries c1 = nc_entries c \<and>
            nc_lookup_errors c1 = Suc (nc_lookup_errors c)"
        proof (cases rule: get_label_cases)
          case (failed e' c2 n)
          then show ?thesis using fetch_labels_with_retry_bounds [OF failed(3)] by (simp add: same_cache_def)
        qed (use Inl in simp_all)
        then show ?thesis using out Inl dl c None err by simp
      next
        case (Inr v)
        have v: "map_of (known_labels (Some c1) ?ns u) ?key = v"
          by (rule get_label_known [OF g c(2) Inr, symmetric])
        show ?thesis
        proof (cases v)
          case None
          then show ?thesis using out Inr dn pod v err by (simp add: map_add_def)
        next
          case (Some x)
          then show ?thesis using out Inr dv pod v err by (simp add: map_add_def)
        qed
      qed
    qed
  qed
qed

text \<open>
  C19: a decision takes no longer than the budget of a lookup, 1200 milliseconds, and never
  outlasts the deadline of the runtime's request, which would close the connection; each
  lookup makes at most ten attempts. A decision the pod itself makes takes no time.
\<close>

theorem decide_in_time:
  assumes "decide W penv ctx pod cache now = (d, cache', t)"
  shows "now \<le> t \<and> t \<le> now + ns_lookup_budget \<and>
    (\<forall>u. c_deadline ctx = Some u \<longrightarrow> now \<le> u \<longrightarrow> t \<le> u) \<and>
    ((map_of (pod_labels pod) ++ map_of (pod_annotations pod)) (anno_enabled penv) \<noteq> None \<longrightarrow>
       t = now \<and> cache' = cache) \<and>
    (\<forall>c r c' v n. fetch_labels_with_retry W ctx now c (pod_namespace pod) = (r, c', v, n) \<longrightarrow> n \<le> 10)"
proof -
  have "t = now \<and> cache' = cache \<or> (\<exists>c r c1. get_label W ctx now c (pod_namespace pod) (anno_enabled penv) = (r, c1, t) \<and>
      map_of (pod_annotations pod) (anno_enabled penv) = None \<and> map_of (pod_labels pod) (anno_enabled penv) = None)"
    using assms by (fastforce simp: decide_def Let_def split: option.splits if_splits prod.splits sum.splits)
  then show ?thesis
    using get_label_time [of W ctx now _ "pod_namespace pod" "anno_enabled penv"]
      fetch_labels_with_retry_bounds [of W ctx now _ "pod_namespace pod"]
    by (auto simp: ns_lookup_budget_def map_add_def split: option.splits)
qed

section \<open>Witnesses\<close>

text \<open>A namespace that opts in, behind an API server that refuses until half a second has passed.\<close>

definition slow_world :: world where
  "slow_world = \<lparr>w_file = (\<lambda>t f. Inr ''token''),
     w_reply = (\<lambda>t u k. if t < 500 then Inl (Msg ''connection refused'') else Inr (200, Inr ''{}'')),
     w_delay = (\<lambda>t. 20), w_labels = (\<lambda>b. Inr [(''cainjekt.natron.io/enabled'', ''TRUE'')])\<rparr>"

definition ns_pod :: pod where
  "ns_pod = \<lparr>pod_id = ''p'', pod_namespace = ''ns'', pod_annotations = [], pod_labels = []\<rparr>"

definition slow_decision :: "nat option \<Rightarrow> decision \<times> ns_cache option \<times> nat" where
  "slow_decision deadline = decide slow_world [] \<lparr>c_deadline = deadline, c_cancel = None\<rparr> ns_pod
     (Some (new_ns_label_cache slow_world [] 0)) 0"

theorem decide_precedence_witness:
  "de_inject (fst (slow_decision None)) \<and> \<not> de_inject (fst (slow_decision (Some 450))) \<and>
   de_reason (fst (slow_decision (Some 450))) = ''lookup-failed''"
proof -
  have run: "decide slow_world [] \<lparr>c_deadline = u, c_cancel = None\<rparr> ns_pod (Some (new_ns_label_cache slow_world [] 0)) 0 =
      (fst (slow_decision u), fst (snd (slow_decision u)), snd (snd (slow_decision u)))" for u
    by (simp add: slow_decision_def)
  have pod: "pod_labels ns_pod = []" "pod_annotations ns_pod = []" "pod_namespace ns_pod = ''ns''" by (simp_all add: ns_pod_def)
  have dp: "(de_reason (fst (slow_decision u)) = ''lookup-failed'' \<longleftrightarrow>
      lookup_error slow_world \<lparr>c_deadline = u, c_cancel = None\<rparr> 0 (Some (new_ns_label_cache slow_world [] 0)) ''ns'' \<noteq> None) \<and>
     (de_reason (fst (slow_decision u)) = ''lookup-failed'' \<longrightarrow> \<not> de_inject (fst (slow_decision u))) \<and>
     (de_reason (fst (slow_decision u)) \<noteq> ''lookup-failed'' \<longrightarrow> de_inject (fst (slow_decision u)) =
       (\<exists>v. map_of (known_labels (fst (snd (slow_decision u))) ''ns'' (snd (snd (slow_decision u)))) (anno_enabled []) = Some v \<and>
         equal_fold v ''true''))" for u
    using decide_precedence [OF run [of u], unfolded pod]
    by (cases "de_reason (fst (slow_decision u)) = ''lookup-failed''") simp_all
  have e: "de_reason (fst (slow_decision None)) = ''opted-in''"
    "map_of (known_labels (fst (snd (slow_decision None))) ''ns'' (snd (snd (slow_decision None))))
       (anno_enabled []) = Some ''TRUE''"
    "equal_fold ''TRUE'' ''true''"
    "lookup_error slow_world \<lparr>c_deadline = Some 450, c_cancel = None\<rparr> 0 (Some (new_ns_label_cache slow_world [] 0)) ''ns'' =
       None \<longleftrightarrow> False"
    by code_simp+
  show ?thesis using dp [of None] dp [of "Some 450"] e by simp
qed

theorem decide_in_time_witness:
  "snd (snd (slow_decision (Some 450))) \<le> 450 \<and> snd (snd (slow_decision None)) \<le> 1200"
proof -
  have "snd (snd (slow_decision u)) \<le> 1200 \<and> (\<forall>v. u = Some v \<longrightarrow> snd (snd (slow_decision u)) \<le> v)" for u
    using decide_in_time [of slow_world "[]" "\<lparr>c_deadline = u, c_cancel = None\<rparr>" ns_pod
      "Some (new_ns_label_cache slow_world [] 0)" 0 "fst (slow_decision u)"
      "fst (snd (slow_decision u))" "snd (snd (slow_decision u))"]
    by (simp add: slow_decision_def ns_lookup_budget_def)
  then show ?thesis by blast
qed

end
