(* ===== verification/Nri_Loops.thy ===== *)
theory Nri_Loops
  imports Nri_Decisions Sample_Fs
begin

text \<open>
  The plugin's waits: the reconnect loop backs off within its bounds and gives up exactly when
  the runtime has not synchronised for two minutes; the verification of a hook raises an alarm
  exactly when no poll after the deadline found the hook's last breadcrumb and the container is
  still there.
\<close>

section \<open>The reconnect loop\<close>

lemmas backoff_defs = nri_backoff_min_def nri_backoff_max_def nri_give_up_def

definition backoff_ok :: "nat \<Rightarrow> bool" where
  "backoff_ok b = (nri_backoff_min \<le> b \<and> b \<le> nri_backoff_max)"

lemma after_session_Inr:
  assumes "after_session now sn rc = Inr (wait, rc')" and "backoff_ok (rc_backoff rc)"
  shows "backoff_ok wait \<and> backoff_ok (rc_backoff rc') \<and> (\<exists>f. rc_failing rc' = Some f \<and>
    now - f \<le> nri_give_up \<and> (if sn_ready sn \<or> rc_failing rc = None then f = now else rc_failing rc = Some f))"
  using assms
  by (auto simp: after_session_def Let_def backoff_ok_def backoff_defs min_def split: if_splits)

lemma after_session_GaveUp:
  assumes "after_session now sn rc = Inl (GaveUp e)"
  shows "e = sn_err sn \<and> \<not> sn_ready sn \<and> \<not> sn_cancelled sn \<and>
    (\<exists>f. rc_failing rc = Some f \<and> f + nri_give_up < now)"
  using assms by (auto simp: after_session_def Let_def nri_give_up_def split: if_splits)

text \<open>The time the runtime has been failing, as the loop measures it: \<open>since\<close> is the end of the
  last session that was ready, or of the first one.\<close>

fun failing_since :: "session list \<Rightarrow> nat \<Rightarrow> nat list \<Rightarrow> nat option \<Rightarrow> nat option" where
  "failing_since (sn # sns) now ws since =
     (let t = now + sn_took sn; since' = (if sn_ready sn \<or> since = None then Some t else since) in
      case (sns, ws) of ([], _) \<Rightarrow> since' | (_, []) \<Rightarrow> since'
      | (_, w # ws') \<Rightarrow> failing_since sns (t + w) ws' since')"
| "failing_since [] now ws since = since"

text \<open>The end of the last session.\<close>

fun session_end :: "session list \<Rightarrow> nat \<Rightarrow> nat list \<Rightarrow> nat" where
  "session_end (sn # sns) now ws =
     (case (sns, ws) of ([], _) \<Rightarrow> now + sn_took sn | (_, []) \<Rightarrow> now + sn_took sn
      | (_, w # ws') \<Rightarrow> session_end sns (now + sn_took sn + w) ws')"
| "session_end [] now ws = now"

lemma run_nri_waits:
  assumes "run_nri sns now rc = (x, ws)" and "backoff_ok (rc_backoff rc)"
  shows "(\<forall>w \<in> set ws. backoff_ok w) \<and> length ws \<le> length sns"
  using assms
proof (induction sns arbitrary: now rc x ws)
  case (Cons sn sns)
  show ?case
  proof (cases "after_session (now + sn_took sn) sn rc")
    case (Inl y)
    then show ?thesis using Cons.prems(1) by auto
  next
    case (Inr wr)
    obtain w rc1 where wr: "wr = (w, rc1)" by (cases wr)
    obtain y us where rest: "run_nri sns (now + sn_took sn + w) rc1 = (y, us)"
      by (cases "run_nri sns (now + sn_took sn + w) rc1")
    note ok = after_session_Inr [OF Inr [unfolded wr] Cons.prems(2)]
    have "ws = w # us" using Cons.prems(1) Inr wr rest by simp
    then show ?thesis using Cons.IH [OF rest] ok by simp
  qed
qed simp

lemma run_nri_gave_up:
  assumes "run_nri sns now rc = (Some (GaveUp e), ws)"
  shows "\<exists>used rest. sns = used @ rest \<and> used \<noteq> [] \<and> length ws = length used - 1 \<and> \<not> sn_ready (last used) \<and>
    e = sn_err (last used) \<and> (\<exists>f. failing_since used now ws (rc_failing rc) = Some f \<and>
      f + nri_give_up < session_end used now ws)"
  using assms
proof (induction sns arbitrary: now rc ws)
  case (Cons sn sns)
  let ?t = "now + sn_took sn"
  show ?case
  proof (cases "after_session ?t sn rc")
    case (Inl y)
    then have y: "after_session ?t sn rc = Inl (GaveUp e)" "ws = []" using Cons.prems by auto
    from after_session_GaveUp [OF y(1)] show ?thesis
      using y(2) by (intro exI [of _ "[sn]"] exI [of _ sns]) auto
  next
    case (Inr wr)
    obtain w rc1 where wr: "wr = (w, rc1)" by (cases wr)
    obtain us where rest: "run_nri sns (?t + w) rc1 = (Some (GaveUp e), us)" and ws: "ws = w # us"
      using Cons.prems Inr wr by (auto split: prod.splits)
    from Cons.IH [OF rest] obtain used r f where u: "sns = used @ r" "used \<noteq> []" "length us = length used - 1"
      "\<not> sn_ready (last used)" "e = sn_err (last used)"
      "failing_since used (?t + w) us (rc_failing rc1) = Some f" "f + nri_give_up < session_end used (?t + w) us"
      by blast
    have f1: "rc_failing rc1 = (if sn_ready sn \<or> rc_failing rc = None then Some ?t else rc_failing rc)"
      using Inr wr by (auto simp: after_session_def Let_def split: if_splits)
    have "failing_since (sn # used) now ws (rc_failing rc) = Some f"
      "session_end (sn # used) now ws = session_end used (?t + w) us"
      using u f1 ws by (cases used; simp add: Let_def)+
    moreover have "length ws = length (sn # used) - 1" using u(2,3) ws by (cases used) auto
    moreover have "sns = used @ r" "last (sn # used) = last used" using u(1,2) by simp_all
    ultimately show ?thesis using u(4,5,7) by (intro exI [of _ "sn # used"] exI [of _ r]) simp
  qed
qed simp

text \<open>
  C25: however the sessions with the runtime go, the plugin waits between 100 milliseconds and
  2 seconds before each attempt to reconnect, and it gives up, with the error of the last
  session, only when the runtime has not synchronised for more than two minutes.
\<close>

theorem reconnect_bounds:
  assumes "run_nri sns now reconnect_start = (x, ws)"
  shows "(\<forall>w \<in> set ws. nri_backoff_min \<le> w \<and> w \<le> nri_backoff_max) \<and>
    (\<forall>e. x = Some (GaveUp e) \<longrightarrow> (\<exists>used rest f. sns = used @ rest \<and> used \<noteq> [] \<and>
       \<not> sn_ready (last used) \<and> e = sn_err (last used) \<and>
       failing_since used now ws None = Some f \<and> f + nri_give_up < session_end used now ws))"
proof -
  have "backoff_ok (rc_backoff reconnect_start)" by (simp add: reconnect_start_def backoff_ok_def backoff_defs)
  from run_nri_waits [OF assms this] have "\<forall>w \<in> set ws. nri_backoff_min \<le> w \<and> w \<le> nri_backoff_max"
    by (simp add: backoff_ok_def)
  moreover have "rc_failing reconnect_start = None" by (simp add: reconnect_start_def)
  ultimately show ?thesis using run_nri_gave_up [of sns now reconnect_start _ ws] assms by fastforce
qed

definition dead_session :: "nat \<Rightarrow> session" where
  "dead_session took = \<lparr>sn_took = took, sn_ready = False, sn_err = Some (Msg ''connection refused''),
     sn_cancelled = False, sn_wait_cancelled = False\<rparr>"

theorem reconnect_bounds_witness:
  "fst (run_nri [dead_session 5, dead_session 130000] 0 reconnect_start) =
     Some (GaveUp (Some (Msg ''connection refused''))) \<and>
   (\<exists>used. \<not> sn_ready (last used) \<and> set used \<subseteq> {dead_session 5, dead_session 130000})"
proof -
  have run: "run_nri [dead_session 5, dead_session 130000] 0 reconnect_start =
      (Some (GaveUp (Some (Msg ''connection refused''))), [100])" by code_simp
  obtain used rest where "[dead_session 5, dead_session 130000] = used @ rest" "\<not> sn_ready (last used)"
    using reconnect_bounds [OF run] by blast
  moreover from this(1) have "set used \<subseteq> {dead_session 5, dead_session 130000}"
    using set_append [of used rest] by (metis Un_upper1 empty_set list.simps(15))
  ultimately show ?thesis using run by auto
qed

text \<open>The waits of \<open>n\<close> turns without a connection.\<close>

fun backoff_sum :: "nat \<Rightarrow> nat \<Rightarrow> nat" where
  "backoff_sum b 0 = 0"
| "backoff_sum b (Suc n) = b + backoff_sum (min (b * 2) nri_backoff_max) n"

definition is_dead :: "session \<Rightarrow> bool" where
  "is_dead sn = (\<not> sn_ready sn \<and> \<not> sn_cancelled sn \<and> \<not> sn_wait_cancelled sn)"

lemma gives_up_from:
  assumes "\<forall>sn \<in> set sns. is_dead sn" and "sns \<noteq> []" and "f \<le> now" and "rc_failing rc = Some f"
    and "nri_give_up < (now - f) + backoff_sum (rc_backoff rc) (length sns - 1)"
  shows "\<exists>e ws. run_nri sns now rc = (Some (GaveUp e), ws)"
  using assms
proof (induction sns arbitrary: now rc)
  case (Cons sn sns)
  let ?t = "now + sn_took sn"
  have d: "is_dead sn" using Cons.prems(1) by simp
  show ?case
  proof (cases "?t - f > nri_give_up")
    case True
    then have "after_session ?t sn rc = Inl (GaveUp (sn_err sn))"
      using d Cons.prems(4) by (simp add: after_session_def is_dead_def)
    then show ?thesis by simp
  next
    case False
    let ?rc = "\<lparr>rc_backoff = min (rc_backoff rc * 2) nri_backoff_max, rc_failing = Some f\<rparr>"
    have step: "after_session ?t sn rc = Inr (rc_backoff rc, ?rc)"
      using d Cons.prems(4) False by (simp add: after_session_def is_dead_def Let_def)
    obtain s2 rest where sns: "sns = s2 # rest" using Cons.prems(3,5) False by (cases sns) auto
    have "nri_give_up < (?t + rc_backoff rc - f) + backoff_sum (rc_backoff ?rc) (length sns - 1)"
      using Cons.prems(3,5) by (simp add: sns)
    then have "\<exists>e ws. run_nri sns (?t + rc_backoff rc) ?rc = (Some (GaveUp e), ws)"
      using Cons.prems(1,3) sns by (intro Cons.IH) auto
    then show ?thesis using step by auto
  qed
qed simp

lemma backoff_sum_mono: "m \<le> n \<Longrightarrow> backoff_sum b m \<le> backoff_sum b n"
proof (induction m arbitrary: b n)
  case (Suc m)
  then obtain k where "n = Suc k" "m \<le> k" by (cases n) auto
  then show ?case using Suc.IH by simp
qed simp

lemma run_nri_dead:
  assumes "\<forall>sn \<in> set sns. is_dead sn" and "65 \<le> length sns"
  shows "\<exists>e ws. run_nri sns now reconnect_start = (Some (GaveUp e), ws)"
proof -
  obtain sn rest where sns: "sns = sn # rest" using assms(2) by (cases sns) auto
  let ?t = "now + sn_took sn"
  let ?rc = "\<lparr>rc_backoff = min (nri_backoff_min * 2) nri_backoff_max, rc_failing = Some ?t\<rparr>"
  have d: "is_dead sn" using assms(1) sns by simp
  have step: "after_session ?t sn reconnect_start = Inr (nri_backoff_min, ?rc)"
    using d by (simp add: after_session_def is_dead_def reconnect_start_def Let_def)
  have "nri_give_up < nri_backoff_min + backoff_sum (rc_backoff ?rc) 63" by code_simp
  also have "\<dots> \<le> nri_backoff_min + backoff_sum (rc_backoff ?rc) (length rest - 1)"
    using assms(2) sns by (intro add_left_mono backoff_sum_mono) simp
  finally have "\<exists>e ws. run_nri rest (?t + nri_backoff_min) ?rc = (Some (GaveUp e), ws)"
    using assms sns by (intro gives_up_from) auto
  then show ?thesis using step sns by auto
qed

text \<open>
  C26: without a connection the loop does not run forever: after at most 65 sessions in which
  the runtime never synchronises it returns an error, so that the kubelet restarts the plugin.
\<close>

theorem reconnect_gives_up:
  assumes "\<forall>sn \<in> set sns. is_dead sn" and "65 \<le> length sns"
  shows "\<exists>e ws. run_nri sns now reconnect_start = (Some (GaveUp e), ws)"
  by (rule run_nri_dead [OF assms])

theorem reconnect_gives_up_witness:
  "\<exists>e ws. run_nri (replicate 65 (dead_session 3)) 17 reconnect_start = (Some (GaveUp e), ws)"
  by (rule reconnect_gives_up) (simp_all add: is_dead_def dead_session_def)

section \<open>Verification of a hook\<close>

lemma verify_poll_None:
  "verify_poll view None dir n t =
     (if \<exists>i < n. crumb_exists view (t + 100 * i) dir breadcrumb_done then HookDone
      else verify_late view dir (t + 100 * n))"
proof (induction n arbitrary: t)
  case (Suc n)
  have split: "(\<exists>i < Suc n. P i) \<longleftrightarrow> P 0 \<or> (\<exists>i < n. P (Suc i))" for P :: "nat \<Rightarrow> bool"
    by (auto simp: less_Suc_eq_0_disj)
  show ?case
    by (auto simp: stopped_by_def Suc split add.assoc)
qed simp

lemma hook_timeout_pos: "0 < hook_timeout_sec penv"
  by (simp add: hook_timeout_sec_def default_hook_timeout_sec_def Let_def split: option.split)

text \<open>Where the configured timeout fits a Go duration, its milliseconds are what one expects.\<close>

lemma seconds_duration_small:
  assumes "0 \<le> n" and "n \<le> 9223372036"
  shows "seconds_duration n = n * 1000000000"
proof -
  have "word_of_int n * word_of_int 1000000000 = (word_of_int (n * 1000000000) :: 64 word)" by simp
  moreover have "sint (word_of_int (n * 1000000000) :: 64 word) = n * 1000000000"
    unfolding sint_sbintrunc' by (rule signed_take_bit_int_eq_self) (use assms in simp_all)
  ultimately show ?thesis by (simp only: seconds_duration_def)
qed

text \<open>
  C27: while the plugin runs, the verification of a hook ends in exactly one of four ways. The
  hook is done when one of the five polls after its deadline finds the last breadcrumb.
  Otherwise, 500 milliseconds after the deadline, the container is gone when its directory is,
  which raises no alarm; else the hook never started when the first breadcrumb is missing, and
  was killed when it is there, with the last progress that can be read. Exactly the last two
  raise an alarm, by one.
\<close>

theorem verify_alarms_exactly:
  fixes penv :: strmap and view :: "nat \<Rightarrow> fs" and key :: string and begun :: nat and p :: plugin
  assumes "hook_timeout_sec penv \<le> 9223372036"
  defines "T \<equiv> begun + nat (hook_timeout_sec penv) * 1000" and "dir \<equiv> path_join [dynamic_ca_root penv, key]"
  defines "v \<equiv> verify_hook_completion penv view None key begun"
  defines "unfinished \<equiv> (\<forall>i < 5. \<not> crumb_exists view (T + 100 * i) dir breadcrumb_done)"
    and "gone \<equiv> (sys_stat (view (T + 500)) dir = Inl ENOENT)"
    and "started \<equiv> crumb_exists view (T + 500) dir breadcrumb_started"
    and "progress \<equiv> (case os_read_file (view (T + 500)) (path_join [dir, breadcrumb_progress]) of
       Inl e \<Rightarrow> [] | Inr b \<Rightarrow> trim_space b)"
  shows "(v = HookDone \<longleftrightarrow> \<not> unfinished) \<and>
    (v = ContainerGone \<longleftrightarrow> unfinished \<and> gone) \<and>
    (v = NeverStarted \<longleftrightarrow> unfinished \<and> \<not> gone \<and> \<not> started) \<and>
    (\<forall>x. v = Killed x \<longleftrightarrow> unfinished \<and> \<not> gone \<and> started \<and> x = progress) \<and>
    m_hook_incomplete (pl_metrics (verify_finish penv key v p)) =
      m_hook_incomplete (pl_metrics p) + (if unfinished \<and> \<not> gone then 1 else 0)"
proof -
  have "nat (seconds_duration (hook_timeout_sec penv) div 1000000) = nat (hook_timeout_sec penv) * 1000"
    using seconds_duration_small [of "hook_timeout_sec penv"] assms(1) hook_timeout_pos [of penv]
    by (simp add: nat_mult_distrib)
  then have "v = (if \<not> unfinished then HookDone else verify_late view dir (T + 500))"
    unfolding v_def verify_hook_completion_def Let_def T_def dir_def unfinished_def
    by (auto simp: stopped_by_def verify_poll_None)
  moreover have "verify_late view dir (T + 500) =
      (if gone then ContainerGone else if \<not> started then NeverStarted else Killed progress)"
    by (auto simp: verify_late_def gone_def started_def progress_def split: sum.splits errno.splits)
  ultimately have v: "v = (if \<not> unfinished then HookDone else if gone then ContainerGone
      else if \<not> started then NeverStarted else Killed progress)" by simp
  have "m_hook_incomplete (pl_metrics (verify_finish penv key v p)) = (if v \<in> {HookDone, Aborted, ContainerGone}
      then m_hook_incomplete (pl_metrics p) else Suc (m_hook_incomplete (pl_metrics p)))"
    by (simp add: verify_finish_def upd_metrics_def say_def Let_def split: verdict.split)
  then show ?thesis unfolding v by auto
qed

text \<open>A hook that was killed after its first breadcrumb.\<close>

definition killed_view :: "nat \<Rightarrow> fs" where
  "killed_view t = fs_of [([], dir_node), ([''run''], dir_node), ([''run'', ''cainjekt''], dir_node),
     ([''run'', ''cainjekt'', ''containers''], dir_node), ([''run'', ''cainjekt'', ''containers'', ''k''], dir_node),
     ([''run'', ''cainjekt'', ''containers'', ''k'', ''hook.started''], file_node ''now'')]"

theorem verify_alarms_exactly_witness:
  "verify_hook_completion [] killed_view None ''k'' 0 = Killed [] \<and>
   m_hook_incomplete (pl_metrics (verify_finish [] ''k'' (verify_hook_completion [] killed_view None ''k'' 0)
     (new_plugin slow_world [] 0))) = 1"
proof -
  have t: "hook_timeout_sec [] = 20" by code_simp
  have dir: "path_join [dynamic_ca_root [], ''k''] = ''/run/cainjekt/containers/k''" by code_simp
  let ?dir = "''/run/cainjekt/containers/k''"
  have s: "\<not> crumb_exists killed_view 0 ?dir breadcrumb_done" "crumb_exists killed_view 0 ?dir breadcrumb_started"
    "isl (sys_stat (killed_view 0) ?dir) = False" "isl (os_read_file (killed_view 0) (path_join [?dir, breadcrumb_progress]))"
    by code_simp+
  have same: "killed_view u = killed_view 0" for u by (simp add: killed_view_def)
  have c: "crumb_exists killed_view u d n = crumb_exists killed_view 0 d n" for u d n
    by (simp only: crumb_exists_def same [of u])
  have "\<not> crumb_exists killed_view u ?dir breadcrumb_done" "crumb_exists killed_view u ?dir breadcrumb_started" for u
    using s(1,2) c by metis+
  moreover have "sys_stat (killed_view u) ?dir \<noteq> Inl ENOENT" for u
    using s(3) same [of u] by (metis sum.disc(1))
  moreover have "\<exists>e. os_read_file (killed_view u) (path_join [?dir, breadcrumb_progress]) = Inl e" for u
    using s(4) same [of u] by (metis isl_def)
  then have "(case os_read_file (killed_view u) (path_join [?dir, breadcrumb_progress]) of
      Inl e \<Rightarrow> [] | Inr b \<Rightarrow> trim_space b) = []" for u
    by (metis sum.case(1))
  ultimately show ?thesis
    using verify_alarms_exactly [where penv = "[]" and begun = 0 and key = "''k''" and view = killed_view and p = "new_plugin slow_world [] 0"] t dir
    by (simp add: new_plugin_def new_metrics_def)
qed

end
