(* ===== verification/Nri_Run.thy ===== *)
theory Nri_Run
  imports Nri_Loops App
begin

text \<open>
  \<open>Run\<close> of \<open>internal/nri/plugin.go\<close>: the command line, the start of the plugin and its end, with
  the HTTP server of \<open>server.go\<close>. What the function starts and stops is the list of its
  actions, in order; \<open>stub_new\<close> is the constructor of the third-party stub, and \<open>ended\<close> says
  which branch of the final \<open>select\<close> was taken.
\<close>

section \<open>The command line\<close>









section \<open>The HTTP server\<close>




section \<open>Run\<close>






text \<open>\<open>PostCreateContainer\<close> only logs.\<close>

definition post_create_container :: "pod \<Rightarrow> container \<Rightarrow> plugin \<Rightarrow> unit res \<times> plugin" where
  "post_create_container pod ctr p = (Inr (), p)"

section \<open>How the plugin's process ends\<close>





end
