(* ===== verification/Nri_Gauge.thy ===== *)
theory Nri_Gauge
  imports Nri_Correct
begin

text \<open>
  The gauge of missed containers. The goroutine that commits a scan and \<open>RemoveContainer\<close> share
  the set and the gauge without a common lock, so their calls can alternate. This theory says
  by how much the gauge is then off, and that it is exact when they do not.
\<close>

section \<open>What is under way\<close>







section \<open>The invariant\<close>








text \<open>What a step of the node does to the missed containers.\<close>

lemma remove_missed:
  assumes "dynamic_ca_root (ne_penv E) = abs_path D" and "stage_root D s"
    and "remove_container E ctx pod ctr p s = (p', s')"
  shows "same_missed p p' \<or> (\<exists>k \<in> set (pl_missed p). pl_missed p' = removeAll k (pl_missed p) \<and>
    m_missed (pl_metrics p') = m_missed (pl_metrics p) - 1)"
proof (cases "container_ca_key ctr")
  case (Inr k)
  then show ?thesis
    using remove_ok [OF assms] untrack_keeps [of k p] by (cases "k \<in> set (pl_missed p)") (auto simp: same_missed_def)
qed (use remove_ok [OF assms] in simp)

text \<open>Taking the \<open>Dec\<close> of a removal as a step of its own loses nothing: done at once, it gives the
  handler's result.\<close>

lemma remove_dec_at_once:
  assumes "dynamic_ca_root (ne_penv E) = abs_path D" and "stage_root D s"
    and "remove_container E ctx pod ctr p s = (p', s')"
  shows "fold run_missed_op (owed_ops p p') (without_dec p p') = p'"
proof -
  consider "same_missed p p'" | k where "k \<in> set (pl_missed p)" "pl_missed p' = removeAll k (pl_missed p)"
      "m_missed (pl_metrics p') = m_missed (pl_metrics p) - 1"
    using remove_missed [OF assms] by blast
  then show ?thesis
  proof cases
    case 2
    then have "pl_missed p' \<noteq> pl_missed p" by (metis DiffE insertI1 set_removeAll)
    then show ?thesis using 2(3) by (simp add: owed_ops_def without_dec_def upd_metrics_def)
  qed (simp add: owed_ops_def without_dec_def upd_metrics_def same_missed_def)
qed


section \<open>Every step keeps it\<close>






section \<open>The gauge\<close>



















end
