(* ===== verification/Spec2Isabelle.thy ===== *)
theory Spec2Isabelle
  imports Container_Fs_Safety Test_Helpers Chroot_Walk Java_Trust State_Trip Os_Trust End_To_End Nri_Run Nri_Gauge
begin

text \<open>
  A model of cainjekt, an NRI plugin that adds a CA bundle to the trust of Kubernetes
  containers, with the theorems that make it correct. One binary runs in three modes. The
  plugin, on the node, is asked by the container runtime about every new container; for those
  that opted in it stages a copy of the CA bundle in a directory of their own and returns an
  adjustment with an OCI hook and a wrapper. The hook runs on the node with the container's
  rootfs mounted, writes the bundle into the trust stores it finds there, and leaves its
  findings in a context file in the rootfs. The wrapper is the container's entrypoint: it reads
  the context file, sets the variables that language runtimes look at, and runs the container's
  own command.

  Paths below are under \<open>src/\<close>; definitions carry the names of the Go code in snake case.

  The ground. \<open>Prelude\<close> holds byte strings, string-keyed maps and Go's error values;
  \<open>Go_Strings\<close> and \<open>Go_Paths\<close> what the code calls of \<open>strings\<close>, \<open>bytes\<close>, \<open>path\<close> and
  \<open>filepath\<close>. \<open>Vfs\<close> is the file system: a tree of directories, files, links and special files,
  the kernel's path walk with its forty links, and the calls of package \<open>os\<close>. Every call may
  fail by \<open>fs_faults\<close>, and every change of the tree is kept in \<open>fs_trace\<close>, so that what a crash
  would leave behind is a statement about the trace. \<open>Vfs_Laws\<close> and \<open>File_Ops\<close> say what calls
  and sequences of calls keep; \<open>Sample_Fs\<close> has the trees of the witnesses.

  The libraries. \<open>Atomic_Write\<close> is \<open>pkg/fsx\<close>; \<open>Container_Fs\<close> is
  \<open>internal/util/containerfs\<close>, with \<open>Container_Fs_Laws\<close> (resolved paths have no links),
  \<open>Container_Fs_Writes\<close> and \<open>Container_Fs_Safety\<close> (nothing leaves the rootfs, writes are
  atomic, reads are bounded) and \<open>Chroot_Walk\<close> (resolution refines the kernel's walk with the
  rootfs as root directory, and where it does not). \<open>Config\<close> is \<open>internal/config\<close> and
  \<open>internal/log/level\<close>, \<open>Env_Util\<close> is \<open>internal/util/envutil\<close>, with the locale \<open>env_store\<close>.
  \<open>Certs\<close> and \<open>Certs_Correct\<close> are \<open>pkg/certs\<close> (merging trusts the union and is idempotent).
  \<open>Java_Keystore\<close> with \<open>_Laws\<close> and \<open>_Correct\<close> is \<open>pkg/javakeystore\<close> (round trip, distinct
  aliases, bounds on what is accepted).

  The hook. \<open>Engine_Api\<close> is \<open>internal/engine/api\<close>, with the locale \<open>fact_store\<close>; \<open>Os_Store\<close>,
  \<open>Lang_Processors\<close> and \<open>Java_Processor\<close> are the processors under
  \<open>internal/engine/processors\<close>, \<open>Registry\<close> is \<open>registry.go\<close>; \<open>Os_Trust\<close> and \<open>Java_Trust\<close>
  show that the stores trust exactly the old certificates and the bundle afterwards,
  \<open>Registry_Correct\<close> that registration cannot panic and in which order detection runs.
  \<open>Hook_Context\<close> is \<open>internal/runtime/hookctx\<close> and \<open>internal/util/oci\<close>, \<open>Hook\<close> is
  \<open>internal/runtime/hook\<close>. \<open>Hook_Safety\<close> states with the locale \<open>hook_processors\<close> what the hook
  asks of a processor and proves the confinement of a run; \<open>Hook_Correct\<close> interprets it with
  the registered processors; \<open>Hook_Runs\<close> describes how a run ends.

  The wrapper. \<open>Wrapper\<close> is \<open>internal/runtime/wrapper\<close>; \<open>Wrapper_Correct\<close> shows that it runs
  the container's command, \<open>Wrapper_Exports\<close> which variables it sets, against a reference
  definition, and \<open>State_Trip\<close> that what the hook's processors found reaches them.

  The plugin. \<open>Ns_Cache\<close> is \<open>internal/nri/namespace.go\<close>, \<open>Dynamic_Ca\<close> is \<open>dynamic_ca.go\<close>,
  \<open>cleanup.go\<close> and the pure part of \<open>helpers.go\<close>, \<open>Nri_Plugin\<close> is \<open>plugin.go\<close> with
  \<open>metrics.go\<close> and \<open>server.go\<close>, \<open>Nri_Run\<close> its function \<open>Run\<close>. \<open>Nri_Safety\<close> is the life of a
  node as a step relation, \<open>nri_step\<close>: creations, removals, reconnects, scans, sweeps and
  foreign writes in any order; \<open>nri_reachable\<close> are its states and \<open>Nri_Correct\<close> its
  invariants. A handler is one step, but for the calls with which the commit of a scan and a
  removal work on the set and the gauge of missed containers: they share no lock, so each of
  them is a step of its own, in every order with the others, and \<open>Nri_Gauge\<close> says by how much
  the gauge is off when they overlap, for one commit at a time. \<open>Nri_Decisions\<close>,
  \<open>Nri_Handlers\<close> and \<open>Nri_Loops\<close> treat the single operations.

  \<open>Test_Helpers\<close> is \<open>internal/testutil\<close>. \<open>App\<close> is \<open>internal/app\<close> and \<open>cmd/cainjekt\<close>, with
  the process that \<open>main\<close> runs in. \<open>End_To_End\<close> joins the parts: the adjustment of the plugin
  meets the assumptions of the hook, a run of the hook is a step of the node, and \<open>HOOK_MODE\<close>
  decides what a container's process becomes.

  Bounds. The constants are the code's: forty links, reads of at most 16 MiB, 10000 tries for a
  temporary name, key stores of at most 65536 entries of at most 1 MiB, 1200 ms and ten attempts
  for a lookup, waits of 100 ms to 2 s and two minutes before the plugin gives up, five polls
  of 100 ms for a hook. Every loop is a total function without fuel: the lookup loop ends by its
  deadline and the polls by their counter, and the reconnect loop runs on the given list of
  sessions, of which it uses at most 65 while the runtime stays away.

  The standard library is modelled as far as the code uses it: string and path functions, the
  file calls, \<open>os.Setenv\<close> and the environment of a process, flag parsing, and \<open>sort.SliceStable\<close>
  as the insertion sort it is on up to twenty elements (\<open>slice_stable\<close>; there are twelve
  processors). These definitions have no lines under \<open>src/\<close>.

  Parameters. \<open>packages\<close> stands for \<open>encoding/pem\<close>, \<open>crypto\<close>, the PKCS#12 codec and Unicode
  case folding; JSON, the API server and the NRI stub are parameters as well. What a theorem
  needs of them is a hypothesis, and its witness gives concrete functions.

  Not modelled. Log output; the texts inside error messages beyond their constant part;
  registration with Prometheus and the HTTP listener; the goroutines behind the actions of
  \<open>Run\<close>, which appear as steps in any order; lookups that overlap in time, taken one at a
  time; charts, manifests and build files. A
  fault of a call depends on the call and its path and stays the same; a \<open>RemoveAll\<close> that
  fails leaves the tree as it was; the clock does not move during the writing of one file.
  \<open>to_lower\<close> folds ASCII only, so a lookup by name misses the two signs outside ASCII that Go
  lowers into it, the Kelvin sign and the dotted capital I. The context pointer of a processor is nil in \<open>Detect\<close> at most.
\<close>

end
